theory Spec2Isabelle
  imports Complex_Main
begin

section \<open>Presentation layer: the dashboard button of \<open>main.js\<close>\<close>

text \<open>
  \<open>main.js\<close> installs, after a sign-in, a click handler on the login button that
  sends the visitor to a page chosen by the \<open>role\<close> column of the fetched profile:
  \<^verbatim>\<open>
  const role = profile.role;
  if (role === 'admin') window.location.href = 'admin-dashboard.html';
  else if (role === 'user') window.location.href = 'user-dashboard.html';
  else if (role === 'mitra') window.location.href = 'mitra-dashboard.html';
  else window.location.href = 'login.html';
  \<close>
  The column is a nullable text, so the fetched value is a string or \<open>null\<close>:
  \<open>None\<close> is \<open>null\<close>. The comparison \<open>===\<close> is strict, so \<open>null\<close> equals no
  string.
\<close>

record profile_view =
  pv_full_name :: "string option"
  pv_role :: "string option"

record window_location =
  href :: string

definition loginBtn_onclick :: "profile_view \<Rightarrow> window_location \<Rightarrow> window_location" where
  "loginBtn_onclick profile w =
     (let role = pv_role profile in
      if role = Some ''admin'' then w\<lparr>href := ''admin-dashboard.html''\<rparr>
      else if role = Some ''user'' then w\<lparr>href := ''user-dashboard.html''\<rparr>
      else if role = Some ''mitra'' then w\<lparr>href := ''mitra-dashboard.html''\<rparr>
      else w\<lparr>href := ''login.html''\<rparr>)"

section \<open>The relational store\<close>

text \<open>
  The migrations under \<open>supabase/migrations\<close> are SQL scripts run against a
  PostgreSQL store. The store is modelled as a record of the catalog entries the
  scripts read and write (tables, columns, constraints, row-security flags, policies,
  the trigger function) and of the rows of the tables. A \<open>uuid\<close> is an opaque
  identifier; a nullable column is an \<open>option\<close>, \<open>None\<close> being SQL's \<open>NULL\<close>.
  Every statement is a function from a store to an error or the changed store.
\<close>

type_synonym uuid = nat

datatype sql_error =
    UndefinedTable string
  | UndefinedColumn string
  | UndefinedObject string
  | DuplicateObject string
  | UniqueViolation string
  | ForeignKeyViolation string
  | NotNullViolation string
  | DatatypeMismatch string
  | InvalidTextRepresentation string
  | InvalidColumnReference
  | InfiniteRecursion string
  | CardinalityViolation

subsection \<open>Rows\<close>

text \<open>\<open>auth.users\<close>: \<open>raw_user_meta_data\<close> is a JSON object of text values.\<close>

record auth_user =
  au_id :: uuid
  raw_user_meta_data :: "(string \<times> string) list"

record profile =
  p_id :: uuid
  p_full_name :: "string option"
  p_role :: "string option"

record category =
  c_id :: uuid
  c_name :: string
  c_slug :: string
  c_description :: "string option"

record product =
  pr_id :: uuid
  pr_name :: string
  pr_description :: "string option"
  pr_price :: rat
  pr_image_urls :: "string list"
  pr_stock :: int
  pr_rating :: "rat option"
  pr_category_id :: "uuid option"

record order =
  o_id :: uuid
  o_user_id :: "uuid option"
  o_total_amount :: rat
  o_status :: "string option"

record order_item =
  oi_id :: uuid
  oi_order_id :: "uuid option"
  oi_product_id :: "uuid option"
  oi_quantity :: int
  oi_price :: rat

subsection \<open>Catalog\<close>

text \<open>
  A column: its table, name and type, whether it is \<open>NOT NULL\<close> and whether it has a
  \<open>DEFAULT\<close>.
\<close>

record pg_attribute =
  attrelid :: string
  attname :: string
  atttypid :: string
  attnotnull :: bool
  atthasdef :: bool

datatype fk_action = NoAction | Restrict | SetNull | Cascade

datatype constraint_def =
    PrimaryKey string
  | Unique string
  | ForeignKey string string fk_action

record pg_constraint =
  conrelid :: string
  conname :: string
  condef :: constraint_def

datatype polcmd = ForAll | ForSelect | ForInsert | ForUpdate | ForDelete

text \<open>
  The expressions the policies of the migrations use, each named after its SQL text:
  \<^item> \<open>PTrue\<close>: \<^verbatim>\<open>true\<close>
  \<^item> \<open>UidEqId\<close>: \<^verbatim>\<open>auth.uid() = id\<close>
  \<^item> \<open>UidEqUserId\<close>: \<^verbatim>\<open>auth.uid() = user_id\<close>
  \<^item> \<open>ExistsAdminProfile\<close>:
    \<^verbatim>\<open>EXISTS (SELECT 1 FROM profiles WHERE profiles.id = auth.uid() AND profiles.role = 'admin')\<close>
  \<^item> \<open>RoleOfUidIsAdmin\<close>:
    \<^verbatim>\<open>(SELECT role FROM public.profiles WHERE id = auth.uid()) = 'admin'\<close>
  \<^item> \<open>UidInAdminIds\<close>:
    \<^verbatim>\<open>auth.uid() IN (SELECT id FROM public.profiles WHERE role = 'admin')\<close>
  \<^item> \<open>ExistsOwnParentOrder\<close>:
    \<^verbatim>\<open>EXISTS (SELECT 1 FROM orders WHERE orders.id = order_items.order_id AND orders.user_id = auth.uid())\<close>
  \<^item> \<open>ParentOrderUserIsUid\<close>:
    \<^verbatim>\<open>(SELECT user_id FROM public.orders WHERE id = order_id) = auth.uid()\<close>
\<close>

datatype pexpr =
    PTrue
  | UidEqId
  | UidEqUserId
  | ExistsAdminProfile
  | RoleOfUidIsAdmin
  | UidInAdminIds
  | ExistsOwnParentOrder
  | ParentOrderUserIsUid

record pg_policy =
  polname :: string
  polrelid :: string
  polcmd :: polcmd
  polqual :: "pexpr option"
  polwithcheck :: "pexpr option"

text \<open>
  The body of the trigger function \<open>handle_new_user\<close> differs between the migrations
  only in the expression it inserts into \<open>profiles.role\<close>:
  \<^item> \<open>RoleText\<close>: \<^verbatim>\<open>new.raw_user_meta_data->>'role'\<close>
  \<^item> \<open>RoleCast ty\<close>: \<^verbatim>\<open>(new.raw_user_meta_data->>'role')::ty\<close>
  \<^item> \<open>RoleCoalesceCast ty\<close>:
    \<^verbatim>\<open>COALESCE((new.raw_user_meta_data->>'role')::ty, 'user'::ty)\<close>
\<close>

datatype role_expr = RoleText | RoleCast string | RoleCoalesceCast string

record db =
  pg_extension :: "string list"
  pg_type :: "(string \<times> string list) list"
  pg_class :: "string list"
  pg_attributes :: "pg_attribute list"
  pg_constraints :: "pg_constraint list"
  pg_rowsecurity :: "string list"
  pg_policies :: "pg_policy list"
  pg_proc :: "(string \<times> role_expr) list"
  pg_trigger :: "(string \<times> string \<times> string) list"
  auth_users :: "auth_user list"
  profiles :: "profile list"
  categories :: "category list"
  products :: "product list"
  orders :: "order list"
  order_items :: "order_item list"

text \<open>
  A script is the list of its statements; it stops at the first error, and the error
  leaves no store behind (the script runs in one transaction).
\<close>

type_synonym stmt = "db \<Rightarrow> sql_error + db"

fun run_script :: "stmt list \<Rightarrow> db \<Rightarrow> sql_error + db" where
  "run_script [] d = Inr d"
| "run_script (s # ss) d = (case s d of Inl e \<Rightarrow> Inl e | Inr d' \<Rightarrow> run_script ss d')"

subsection \<open>Row-level security\<close>

text \<open>
  SQL's three-valued comparison: comparing with \<open>NULL\<close> gives \<open>NULL\<close>. A policy
  admits a row only where its \<open>USING\<close> expression is true; \<open>NULL\<close> is not.
\<close>

fun sql_eq :: "'a option \<Rightarrow> 'a option \<Rightarrow> bool option" where
  "sql_eq (Some a) (Some b) = Some (a = b)"
| "sql_eq _ _ = None"

definition is_true :: "bool option \<Rightarrow> bool" where
  "is_true v = (v = Some True)"

text \<open>A scalar subquery: no row is \<open>NULL\<close>, more than one row is an error.\<close>

fun scalar_subquery :: "'a option list \<Rightarrow> sql_error + 'a option" where
  "scalar_subquery [] = Inr None"
| "scalar_subquery [v] = Inr v"
| "scalar_subquery (v # w # vs) = Inl CardinalityViolation"

text \<open>
  The policies that apply to a \<open>SELECT\<close> on a table are those declared \<open>FOR SELECT\<close>
  or \<open>FOR ALL\<close>. They are permissive: a row is visible when at least one of them is
  true for it. With row security enabled and no policy, no row is visible; with row
  security disabled, every row is.
\<close>

definition select_policies :: "string \<Rightarrow> db \<Rightarrow> pg_policy list" where
  "select_policies t d =
     filter (\<lambda>p. polrelid p = t \<and> (polcmd p = ForAll \<or> polcmd p = ForSelect)) (pg_policies d)"

fun permissive_or :: "(sql_error + bool option) list \<Rightarrow> sql_error + bool" where
  "permissive_or [] = Inr False"
| "permissive_or (Inl e # qs) = Inl e"
| "permissive_or (Inr v # qs) =
     (case permissive_or qs of Inl e \<Rightarrow> Inl e | Inr b \<Rightarrow> Inr (is_true v \<or> b))"

text \<open>
  The value of a policy's \<open>USING\<close> clause. A policy without one adds nothing to the
  disjunction, so by itself it admits no row.
\<close>

definition using_value :: "(pexpr \<Rightarrow> sql_error + bool option) \<Rightarrow> pexpr option \<Rightarrow> sql_error + bool option" where
  "using_value ev q = (case q of None \<Rightarrow> Inr (Some False) | Some e \<Rightarrow> ev e)"

definition rls_check :: "string \<Rightarrow> db \<Rightarrow> (pexpr \<Rightarrow> sql_error + bool option) \<Rightarrow> sql_error + bool" where
  "rls_check t d ev =
     (if t \<notin> set (pg_rowsecurity d) then Inr True
      else permissive_or (map (\<lambda>p. using_value ev (polqual p)) (select_policies t d)))"

fun visible :: "('r \<Rightarrow> sql_error + bool) \<Rightarrow> 'r list \<Rightarrow> sql_error + 'r list" where
  "visible chk [] = Inr []"
| "visible chk (r # rs) =
     (case chk r of
        Inl e \<Rightarrow> Inl e
      | Inr b \<Rightarrow> (case visible chk rs of
                    Inl e \<Rightarrow> Inl e
                  | Inr vs \<Rightarrow> Inr (if b then r # vs else vs)))"

text \<open>
  A policy on \<open>profiles\<close> that itself queries \<open>profiles\<close> makes PostgreSQL stop with
  "infinite recursion detected in policy"; \<open>profiles\<close> has no \<open>user_id\<close> and no
  \<open>order_id\<close> column.
\<close>

fun profiles_qual :: "uuid option \<Rightarrow> profile \<Rightarrow> pexpr \<Rightarrow> sql_error + bool option" where
  "profiles_qual uid r PTrue = Inr (Some True)"
| "profiles_qual uid r UidEqId = Inr (sql_eq uid (Some (p_id r)))"
| "profiles_qual uid r UidEqUserId = Inl (UndefinedColumn ''user_id'')"
| "profiles_qual uid r ExistsAdminProfile = Inl (InfiniteRecursion ''profiles'')"
| "profiles_qual uid r RoleOfUidIsAdmin = Inl (InfiniteRecursion ''profiles'')"
| "profiles_qual uid r UidInAdminIds = Inl (InfiniteRecursion ''profiles'')"
| "profiles_qual uid r ExistsOwnParentOrder = Inl (UndefinedColumn ''order_id'')"
| "profiles_qual uid r ParentOrderUserIsUid = Inl (UndefinedColumn ''order_id'')"

definition profile_visible :: "db \<Rightarrow> uuid option \<Rightarrow> profile \<Rightarrow> sql_error + bool" where
  "profile_visible d uid r = rls_check ''profiles'' d (profiles_qual uid r)"

definition visible_profiles :: "db \<Rightarrow> uuid option \<Rightarrow> sql_error + profile list" where
  "visible_profiles d uid = visible (profile_visible d uid) (profiles d)"

text \<open>
  The three admin tests, over the profiles the caller can see (a subquery inside a
  policy is itself subject to row security).
\<close>

definition exists_admin_profile :: "profile list \<Rightarrow> uuid option \<Rightarrow> bool option" where
  "exists_admin_profile vp uid =
     Some (\<exists>p \<in> set vp. is_true (sql_eq (Some (p_id p)) uid) \<and> is_true (sql_eq (p_role p) (Some ''admin'')))"

definition role_of_uid_is_admin :: "profile list \<Rightarrow> uuid option \<Rightarrow> sql_error + bool option" where
  "role_of_uid_is_admin vp uid =
     (case scalar_subquery (map p_role (filter (\<lambda>p. is_true (sql_eq (Some (p_id p)) uid)) vp)) of
        Inl e \<Rightarrow> Inl e
      | Inr v \<Rightarrow> Inr (sql_eq v (Some ''admin'')))"

definition uid_in_admin_ids :: "profile list \<Rightarrow> uuid option \<Rightarrow> bool option" where
  "uid_in_admin_ids vp uid =
     (let ids = map p_id (filter (\<lambda>p. is_true (sql_eq (p_role p) (Some ''admin''))) vp) in
      if ids = [] then Some False
      else (case uid of None \<Rightarrow> None | Some u \<Rightarrow> Some (u \<in> set ids)))"

definition admin_qual :: "db \<Rightarrow> uuid option \<Rightarrow> pexpr \<Rightarrow> sql_error + bool option" where
  "admin_qual d uid e =
     (case visible_profiles d uid of
        Inl err \<Rightarrow> Inl err
      | Inr vp \<Rightarrow>
          (if e = ExistsAdminProfile then Inr (exists_admin_profile vp uid)
           else if e = RoleOfUidIsAdmin then role_of_uid_is_admin vp uid
           else Inr (uid_in_admin_ids vp uid)))"

fun orders_qual :: "db \<Rightarrow> uuid option \<Rightarrow> order \<Rightarrow> pexpr \<Rightarrow> sql_error + bool option" where
  "orders_qual d uid r PTrue = Inr (Some True)"
| "orders_qual d uid r UidEqId = Inr (sql_eq uid (Some (o_id r)))"
| "orders_qual d uid r UidEqUserId = Inr (sql_eq uid (o_user_id r))"
| "orders_qual d uid r ExistsAdminProfile = admin_qual d uid ExistsAdminProfile"
| "orders_qual d uid r RoleOfUidIsAdmin = admin_qual d uid RoleOfUidIsAdmin"
| "orders_qual d uid r UidInAdminIds = admin_qual d uid UidInAdminIds"
| "orders_qual d uid r ExistsOwnParentOrder = Inl (UndefinedColumn ''order_id'')"
| "orders_qual d uid r ParentOrderUserIsUid = Inl (UndefinedColumn ''order_id'')"

definition order_visible :: "db \<Rightarrow> uuid option \<Rightarrow> order \<Rightarrow> sql_error + bool" where
  "order_visible d uid r = rls_check ''orders'' d (orders_qual d uid r)"

definition visible_orders :: "db \<Rightarrow> uuid option \<Rightarrow> sql_error + order list" where
  "visible_orders d uid = visible (order_visible d uid) (orders d)"

text \<open>The two parent-order tests, over the orders the caller can see.\<close>

definition exists_own_parent_order :: "order list \<Rightarrow> uuid option \<Rightarrow> order_item \<Rightarrow> bool option" where
  "exists_own_parent_order vo uid r =
     Some (\<exists>p \<in> set vo. is_true (sql_eq (Some (o_id p)) (oi_order_id r)) \<and> is_true (sql_eq (o_user_id p) uid))"

definition parent_order_user_is_uid :: "order list \<Rightarrow> uuid option \<Rightarrow> order_item \<Rightarrow> sql_error + bool option" where
  "parent_order_user_is_uid vo uid r =
     (case scalar_subquery (map o_user_id (filter (\<lambda>p. is_true (sql_eq (Some (o_id p)) (oi_order_id r))) vo)) of
        Inl e \<Rightarrow> Inl e
      | Inr v \<Rightarrow> Inr (sql_eq v uid))"

definition parent_qual :: "db \<Rightarrow> uuid option \<Rightarrow> order_item \<Rightarrow> pexpr \<Rightarrow> sql_error + bool option" where
  "parent_qual d uid r e =
     (case visible_orders d uid of
        Inl err \<Rightarrow> Inl err
      | Inr vo \<Rightarrow>
          (if e = ExistsOwnParentOrder then Inr (exists_own_parent_order vo uid r)
           else parent_order_user_is_uid vo uid r))"

fun order_items_qual :: "db \<Rightarrow> uuid option \<Rightarrow> order_item \<Rightarrow> pexpr \<Rightarrow> sql_error + bool option" where
  "order_items_qual d uid r PTrue = Inr (Some True)"
| "order_items_qual d uid r UidEqId = Inr (sql_eq uid (Some (oi_id r)))"
| "order_items_qual d uid r UidEqUserId = Inl (UndefinedColumn ''user_id'')"
| "order_items_qual d uid r ExistsAdminProfile = admin_qual d uid ExistsAdminProfile"
| "order_items_qual d uid r RoleOfUidIsAdmin = admin_qual d uid RoleOfUidIsAdmin"
| "order_items_qual d uid r UidInAdminIds = admin_qual d uid UidInAdminIds"
| "order_items_qual d uid r ExistsOwnParentOrder = parent_qual d uid r ExistsOwnParentOrder"
| "order_items_qual d uid r ParentOrderUserIsUid = parent_qual d uid r ParentOrderUserIsUid"

definition order_item_visible :: "db \<Rightarrow> uuid option \<Rightarrow> order_item \<Rightarrow> sql_error + bool" where
  "order_item_visible d uid r = rls_check ''order_items'' d (order_items_qual d uid r)"

text \<open>
  The outcome of a read of one row by a caller (\<open>uid\<close> is \<open>auth.uid()\<close>, \<open>None\<close> for
  an anonymous caller). PostgreSQL leaves a row the policies deny out of the result;
  that denial is the outcome the specification calls \<open>Forbidden\<close>.
\<close>

datatype read_result = Success | Forbidden | QueryError sql_error

definition decide :: "sql_error + bool \<Rightarrow> read_result" where
  "decide v = (case v of Inl e \<Rightarrow> QueryError e | Inr b \<Rightarrow> (if b then Success else Forbidden))"

definition read_profile :: "db \<Rightarrow> uuid option \<Rightarrow> profile \<Rightarrow> read_result" where
  "read_profile d uid r = decide (profile_visible d uid r)"

definition read_order :: "db \<Rightarrow> uuid option \<Rightarrow> order \<Rightarrow> read_result" where
  "read_order d uid r = decide (order_visible d uid r)"

definition read_order_item :: "db \<Rightarrow> uuid option \<Rightarrow> order_item \<Rightarrow> read_result" where
  "read_order_item d uid r = decide (order_item_visible d uid r)"

subsection \<open>Statements on the catalog\<close>

text \<open>\<^verbatim>\<open>ALTER TABLE t ENABLE ROW LEVEL SECURITY\<close>: the table must exist.\<close>

definition enable_row_level_security :: "string \<Rightarrow> stmt" where
  "enable_row_level_security t d =
     (if t \<notin> set (pg_class d) then Inl (UndefinedTable t)
      else if t \<in> set (pg_rowsecurity d) then Inr d
      else Inr (d\<lparr>pg_rowsecurity := pg_rowsecurity d @ [t]\<rparr>))"

text \<open>
  \<^verbatim>\<open>DROP POLICY IF EXISTS n ON t\<close> removes the policy of that name on that table, and
  is silent when there is none.
\<close>

definition drop_policy_if_exists :: "string \<Rightarrow> string \<Rightarrow> stmt" where
  "drop_policy_if_exists n t d =
     Inr (d\<lparr>pg_policies := filter (\<lambda>p. \<not> (polname p = n \<and> polrelid p = t)) (pg_policies d)\<rparr>)"

text \<open>
  \<^verbatim>\<open>CREATE POLICY n ON t FOR c USING (q) WITH CHECK (w)\<close>: the table must exist, and
  a policy of that name on that table must not.
\<close>

definition create_policy :: "string \<Rightarrow> string \<Rightarrow> polcmd \<Rightarrow> pexpr option \<Rightarrow> pexpr option \<Rightarrow> stmt" where
  "create_policy n t c q w d =
     (if t \<notin> set (pg_class d) then Inl (UndefinedTable t)
      else if \<exists>p \<in> set (pg_policies d). polname p = n \<and> polrelid p = t then Inl (DuplicateObject n)
      else Inr (d\<lparr>pg_policies := pg_policies d @
                  [\<lparr>polname = n, polrelid = t, polcmd = c, polqual = q, polwithcheck = w\<rparr>]\<rparr>))"

section \<open>Migration \<open>20250120120009_enable_rls_and_policies.sql\<close>\<close>

text \<open>Step 1 enables row security on the six tables.\<close>

definition m0009_enable_rls :: "stmt list" where
  "m0009_enable_rls =
    [enable_row_level_security ''profiles'',
     enable_row_level_security ''categories'',
     enable_row_level_security ''products'',
     enable_row_level_security ''orders'',
     enable_row_level_security ''order_items'',
     enable_row_level_security ''reviews'']"

text \<open>Step 2 drops, by name, the policies that step 3 creates.\<close>

definition m0009_drop_policies :: "stmt list" where
  "m0009_drop_policies =
    [drop_policy_if_exists ''Public can view all categories.'' ''categories'',
     drop_policy_if_exists ''Admins can manage categories.'' ''categories'',
     drop_policy_if_exists ''Public can view all products.'' ''products'',
     drop_policy_if_exists ''Admins can manage products.'' ''products'',
     drop_policy_if_exists ''Users can view their own profile.'' ''profiles'',
     drop_policy_if_exists ''Users can update their own profile.'' ''profiles'',
     drop_policy_if_exists ''Users can view their own orders.'' ''orders'',
     drop_policy_if_exists ''Users can create new orders.'' ''orders'',
     drop_policy_if_exists ''Admins can manage all orders.'' ''orders'',
     drop_policy_if_exists ''Users can view their own order items.'' ''order_items'',
     drop_policy_if_exists ''Users can create new order items.'' ''order_items'',
     drop_policy_if_exists ''Admins can manage all order items.'' ''order_items'',
     drop_policy_if_exists ''Public can view all reviews.'' ''reviews'',
     drop_policy_if_exists ''Users can create reviews.'' ''reviews'',
     drop_policy_if_exists ''Users can manage their own reviews.'' ''reviews'',
     drop_policy_if_exists ''Users can delete their own reviews.'' ''reviews'',
     drop_policy_if_exists ''Admins can manage all reviews.'' ''reviews'']"

text \<open>Step 3 creates the policies, table by table.\<close>

definition m0009_create_policies :: "stmt list" where
  "m0009_create_policies =
    [create_policy ''Users can view their own profile.'' ''profiles'' ForSelect (Some UidEqId) None,
     create_policy ''Users can update their own profile.'' ''profiles'' ForUpdate (Some UidEqId) (Some UidEqId),
     create_policy ''Public can view all categories.'' ''categories'' ForSelect (Some PTrue) None,
     create_policy ''Admins can manage categories.'' ''categories'' ForAll
       (Some ExistsAdminProfile) (Some ExistsAdminProfile),
     create_policy ''Public can view all products.'' ''products'' ForSelect (Some PTrue) None,
     create_policy ''Admins can manage products.'' ''products'' ForAll
       (Some ExistsAdminProfile) (Some ExistsAdminProfile),
     create_policy ''Users can view their own orders.'' ''orders'' ForSelect (Some UidEqUserId) None,
     create_policy ''Users can create new orders.'' ''orders'' ForInsert None (Some UidEqUserId),
     create_policy ''Admins can manage all orders.'' ''orders'' ForAll (Some ExistsAdminProfile) None,
     create_policy ''Users can view their own order items.'' ''order_items'' ForSelect
       (Some ExistsOwnParentOrder) None,
     create_policy ''Users can create new order items.'' ''order_items'' ForInsert
       None (Some ExistsOwnParentOrder),
     create_policy ''Admins can manage all order items.'' ''order_items'' ForAll
       (Some ExistsAdminProfile) None,
     create_policy ''Public can view all reviews.'' ''reviews'' ForSelect (Some PTrue) None,
     create_policy ''Users can create reviews.'' ''reviews'' ForInsert None (Some UidEqUserId),
     create_policy ''Users can manage their own reviews.'' ''reviews'' ForUpdate
       (Some UidEqUserId) (Some UidEqUserId),
     create_policy ''Users can delete their own reviews.'' ''reviews'' ForDelete (Some UidEqUserId) None,
     create_policy ''Admins can manage all reviews.'' ''reviews'' ForAll (Some ExistsAdminProfile) None]"

definition migration_0009 :: "stmt list" where
  "migration_0009 = m0009_enable_rls @ m0009_drop_policies @ m0009_create_policies"

section \<open>Statements of the migrations\<close>

subsection \<open>Extensions, types, tables, columns and constraints\<close>

definition create_extension_if_not_exists :: "string \<Rightarrow> stmt" where
  "create_extension_if_not_exists n d =
     (if n \<in> set (pg_extension d) then Inr d else Inr (d\<lparr>pg_extension := pg_extension d @ [n]\<rparr>))"

text \<open>
  The guarded creation of an enum type:
  \<^verbatim>\<open>IF NOT EXISTS (SELECT 1 FROM pg_type WHERE typname = n) THEN CREATE TYPE n AS ENUM (...)\<close>.
\<close>

definition create_enum_if_not_exists :: "string \<Rightarrow> string list \<Rightarrow> stmt" where
  "create_enum_if_not_exists n labels d =
     (if n \<in> fst ` set (pg_type d) then Inr d else Inr (d\<lparr>pg_type := pg_type d @ [(n, labels)]\<rparr>))"

text \<open>
  A column is declared by its name, its type, \<open>NOT NULL\<close> and \<open>DEFAULT\<close>; a constraint
  by its name and definition. PostgreSQL names the constraints written inline:
  \<open>t_pkey\<close> for the primary key, \<open>t_c_key\<close> for \<open>UNIQUE\<close> and \<open>t_c_fkey\<close> for
  \<open>REFERENCES\<close>; a \<open>REFERENCES\<close> without \<open>ON DELETE\<close> is \<open>NO ACTION\<close>.
\<close>

type_synonym column_decl = "string \<times> string \<times> bool \<times> bool"

definition attribute_of :: "string \<Rightarrow> column_decl \<Rightarrow> pg_attribute" where
  "attribute_of t c =
     (case c of (n, ty, nn, df) \<Rightarrow>
        \<lparr>attrelid = t, attname = n, atttypid = ty, attnotnull = nn, atthasdef = df\<rparr>)"

definition constraint_of :: "string \<Rightarrow> string \<times> constraint_def \<Rightarrow> pg_constraint" where
  "constraint_of t c = (case c of (n, k) \<Rightarrow> \<lparr>conrelid = t, conname = n, condef = k\<rparr>)"

fun referenced_table :: "constraint_def \<Rightarrow> string list" where
  "referenced_table (ForeignKey c rt a) = [rt]"
| "referenced_table _ = []"

text \<open>
  \<^verbatim>\<open>CREATE TABLE IF NOT EXISTS t (...)\<close> does nothing when the table exists, whatever
  its shape; otherwise the tables it references must exist.
\<close>

definition create_table_if_not_exists ::
  "string \<Rightarrow> column_decl list \<Rightarrow> (string \<times> constraint_def) list \<Rightarrow> stmt" where
  "create_table_if_not_exists t cols cons d =
     (if t \<in> set (pg_class d) then Inr d
      else case filter (\<lambda>rt. rt \<noteq> t \<and> rt \<notin> set (pg_class d)) (concat (map (referenced_table \<circ> snd) cons)) of
        rt # _ \<Rightarrow> Inl (UndefinedTable rt)
      | [] \<Rightarrow> Inr (d\<lparr>pg_class := pg_class d @ [t],
                    pg_attributes := pg_attributes d @ map (attribute_of t) cols,
                    pg_constraints := pg_constraints d @ map (constraint_of t) cons\<rparr>))"

text \<open>The columns and the constraints of one table.\<close>

definition table_attributes :: "db \<Rightarrow> string \<Rightarrow> pg_attribute list" where
  "table_attributes d t = filter (\<lambda>a. attrelid a = t) (pg_attributes d)"

definition table_constraints :: "db \<Rightarrow> string \<Rightarrow> pg_constraint list" where
  "table_constraints d t = filter (\<lambda>k. conrelid k = t) (pg_constraints d)"

definition has_column :: "db \<Rightarrow> string \<Rightarrow> string \<Rightarrow> bool" where
  "has_column d t c = (c \<in> attname ` set (table_attributes d t))"

fun constrained_column :: "constraint_def \<Rightarrow> string" where
  "constrained_column (PrimaryKey c) = c"
| "constrained_column (Unique c) = c"
| "constrained_column (ForeignKey c rt a) = c"

text \<open>
  Dropping a column if it is there (\<^verbatim>\<open>ALTER TABLE IF EXISTS t DROP COLUMN IF EXISTS c\<close>, or
  the \<open>DO\<close> block that looks the column up in \<open>information_schema.columns\<close> first): the
  constraints on the column go with it.
\<close>

definition drop_column_if_exists :: "string \<Rightarrow> string \<Rightarrow> stmt" where
  "drop_column_if_exists t c d =
     (if \<not> has_column d t c then Inr d
      else Inr (d\<lparr>pg_attributes := filter (\<lambda>a. \<not> (attrelid a = t \<and> attname a = c)) (pg_attributes d),
                 pg_constraints := filter (\<lambda>k. \<not> (conrelid k = t \<and> constrained_column (condef k) = c))
                                     (pg_constraints d)\<rparr>))"

subsection \<open>Column values and the constraints on them\<close>

datatype sql_value = Uuid uuid | Text string | Numeric rat | TextArray "string list"

definition auth_user_col :: "auth_user \<Rightarrow> string \<Rightarrow> sql_value option" where
  "auth_user_col r c = (if c = ''id'' then Some (Uuid (au_id r)) else None)"

definition profile_col :: "profile \<Rightarrow> string \<Rightarrow> sql_value option" where
  "profile_col r c =
     (if c = ''id'' then Some (Uuid (p_id r))
      else if c = ''full_name'' then map_option Text (p_full_name r)
      else if c = ''role'' then map_option Text (p_role r)
      else None)"

definition category_col :: "category \<Rightarrow> string \<Rightarrow> sql_value option" where
  "category_col r c =
     (if c = ''id'' then Some (Uuid (c_id r))
      else if c = ''name'' then Some (Text (c_name r))
      else if c = ''slug'' then Some (Text (c_slug r))
      else if c = ''description'' then map_option Text (c_description r)
      else None)"

definition product_col :: "product \<Rightarrow> string \<Rightarrow> sql_value option" where
  "product_col r c =
     (if c = ''id'' then Some (Uuid (pr_id r))
      else if c = ''name'' then Some (Text (pr_name r))
      else if c = ''description'' then map_option Text (pr_description r)
      else if c = ''price'' then Some (Numeric (pr_price r))
      else if c = ''image_urls'' then Some (TextArray (pr_image_urls r))
      else if c = ''stock'' then Some (Numeric (of_int (pr_stock r)))
      else if c = ''rating'' then map_option Numeric (pr_rating r)
      else if c = ''category_id'' then map_option Uuid (pr_category_id r)
      else None)"

definition order_col :: "order \<Rightarrow> string \<Rightarrow> sql_value option" where
  "order_col r c =
     (if c = ''id'' then Some (Uuid (o_id r))
      else if c = ''user_id'' then map_option Uuid (o_user_id r)
      else if c = ''total_amount'' then Some (Numeric (o_total_amount r))
      else if c = ''status'' then map_option Text (o_status r)
      else None)"

definition order_item_col :: "order_item \<Rightarrow> string \<Rightarrow> sql_value option" where
  "order_item_col r c =
     (if c = ''id'' then Some (Uuid (oi_id r))
      else if c = ''order_id'' then map_option Uuid (oi_order_id r)
      else if c = ''product_id'' then map_option Uuid (oi_product_id r)
      else if c = ''quantity'' then Some (Numeric (of_int (oi_quantity r)))
      else if c = ''price'' then Some (Numeric (oi_price r))
      else None)"

definition column_values :: "db \<Rightarrow> string \<Rightarrow> string \<Rightarrow> sql_value option list" where
  "column_values d t c =
     (if t = ''auth.users'' then map (\<lambda>r. auth_user_col r c) (auth_users d)
      else if t = ''profiles'' then map (\<lambda>r. profile_col r c) (profiles d)
      else if t = ''categories'' then map (\<lambda>r. category_col r c) (categories d)
      else if t = ''products'' then map (\<lambda>r. product_col r c) (products d)
      else if t = ''orders'' then map (\<lambda>r. order_col r c) (orders d)
      else if t = ''order_items'' then map (\<lambda>r. order_item_col r c) (order_items d)
      else [])"

text \<open>
  Whether the rows of a table satisfy a constraint: a key column holds no value twice
  (\<open>NULL\<close>s apart); every value of a referencing column is an \<open>id\<close> of the referenced
  table.
\<close>

fun constraint_holds :: "db \<Rightarrow> string \<Rightarrow> constraint_def \<Rightarrow> bool" where
  "constraint_holds d t (PrimaryKey c) = distinct (filter (\<lambda>v. v \<noteq> None) (column_values d t c))"
| "constraint_holds d t (Unique c) = distinct (filter (\<lambda>v. v \<noteq> None) (column_values d t c))"
| "constraint_holds d t (ForeignKey c rt a) =
     (\<forall>v \<in> set (column_values d t c). v \<noteq> None \<longrightarrow> v \<in> set (column_values d rt ''id''))"

text \<open>
  Adding a column if the table lacks it, with the constraints written on it:
  \<^verbatim>\<open>ALTER TABLE t ADD COLUMN IF NOT EXISTS c ...\<close>. When the column exists the whole
  clause is skipped, its \<open>REFERENCES\<close> included.
\<close>

definition add_column_if_not_exists ::
  "string \<Rightarrow> column_decl \<Rightarrow> (string \<times> constraint_def) list \<Rightarrow> stmt" where
  "add_column_if_not_exists t c cons d =
     (if t \<notin> set (pg_class d) then Inl (UndefinedTable t)
      else if has_column d t (fst c) then Inr d
      else case filter (\<lambda>rt. rt \<notin> set (pg_class d)) (concat (map (referenced_table \<circ> snd) cons)) of
        rt # _ \<Rightarrow> Inl (UndefinedTable rt)
      | [] \<Rightarrow> Inr (d\<lparr>pg_attributes := pg_attributes d @ [attribute_of t c],
                    pg_constraints := pg_constraints d @ map (constraint_of t) cons\<rparr>))"

text \<open>
  The guarded addition of a constraint:
  \<^verbatim>\<open>
  IF NOT EXISTS (SELECT 1 FROM pg_constraint
                 WHERE conname = n AND conrelid = 'public.t'::regclass) THEN
      ALTER TABLE public.t ADD CONSTRAINT n ...;
  END IF;
  \<close>
  The guard looks at the name only: a constraint of that name on the table, whatever
  its definition, makes the block do nothing. Otherwise the rows already in the table
  must satisfy the new constraint.
\<close>

definition add_constraint_if_not_exists :: "string \<Rightarrow> string \<Rightarrow> constraint_def \<Rightarrow> stmt" where
  "add_constraint_if_not_exists t n k d =
     (if t \<notin> set (pg_class d) then Inl (UndefinedTable t)
      else if n \<in> conname ` set (table_constraints d t) then Inr d
      else if \<not> has_column d t (constrained_column k) then Inl (UndefinedColumn (constrained_column k))
      else case filter (\<lambda>rt. rt \<notin> set (pg_class d)) (referenced_table k) of
        rt # _ \<Rightarrow> Inl (UndefinedTable rt)
      | [] \<Rightarrow>
          (if \<not> constraint_holds d t k then
             Inl (case k of ForeignKey c rt a \<Rightarrow> ForeignKeyViolation n | _ \<Rightarrow> UniqueViolation n)
           else Inr (d\<lparr>pg_constraints := pg_constraints d @ [\<lparr>conrelid = t, conname = n, condef = k\<rparr>]\<rparr>)))"

subsection \<open>The trigger function\<close>

definition create_or_replace_function :: "string \<Rightarrow> role_expr \<Rightarrow> stmt" where
  "create_or_replace_function f body d =
     Inr (d\<lparr>pg_proc := filter (\<lambda>p. fst p \<noteq> f) (pg_proc d) @ [(f, body)]\<rparr>)"

definition drop_trigger_if_exists :: "string \<Rightarrow> string \<Rightarrow> stmt" where
  "drop_trigger_if_exists n t d =
     Inr (d\<lparr>pg_trigger := filter (\<lambda>g. \<not> (fst g = n \<and> fst (snd g) = t)) (pg_trigger d)\<rparr>)"

text \<open>\<^verbatim>\<open>CREATE TRIGGER n AFTER INSERT ON t FOR EACH ROW EXECUTE FUNCTION f()\<close>.\<close>

definition create_trigger :: "string \<Rightarrow> string \<Rightarrow> string \<Rightarrow> stmt" where
  "create_trigger n t f d =
     (if t \<notin> set (pg_class d) then Inl (UndefinedTable t)
      else if f \<notin> fst ` set (pg_proc d) then Inl (UndefinedObject f)
      else if \<exists>g \<in> set (pg_trigger d). fst g = n \<and> fst (snd g) = t then Inl (DuplicateObject n)
      else Inr (d\<lparr>pg_trigger := pg_trigger d @ [(n, t, f)]\<rparr>))"

subsection \<open>Inserting rows\<close>

text \<open>
  An \<open>INSERT\<close> names the columns it fills. It fails when the table or one of the
  columns does not exist, when a \<open>NOT NULL\<close> column gets \<open>NULL\<close> (a named column
  given \<open>NULL\<close>, or an unnamed one without a default), when a key of the table already
  holds the new value, or when a referenced row is missing.
\<close>

definition parse_error :: "db \<Rightarrow> string \<Rightarrow> string list \<Rightarrow> sql_error option" where
  "parse_error d t cols =
     (if t \<notin> set (pg_class d) then Some (UndefinedTable t)
      else case filter (\<lambda>c. \<not> has_column d t c) cols of
        c # _ \<Rightarrow> Some (UndefinedColumn c)
      | [] \<Rightarrow> None)"

definition not_null_error :: "db \<Rightarrow> string \<Rightarrow> string list \<Rightarrow> (string \<Rightarrow> sql_value option) \<Rightarrow> sql_error option" where
  "not_null_error d t cols row =
     (case filter (\<lambda>a. attnotnull a \<and>
                    (if attname a \<in> set cols then row (attname a) = None else \<not> atthasdef a))
             (table_attributes d t) of
        a # _ \<Rightarrow> Some (NotNullViolation (attname a))
      | [] \<Rightarrow> None)"

fun is_key :: "constraint_def \<Rightarrow> bool" where
  "is_key (PrimaryKey c) = True"
| "is_key (Unique c) = True"
| "is_key (ForeignKey c rt a) = False"

definition key_error :: "db \<Rightarrow> string \<Rightarrow> (string \<Rightarrow> sql_value option) \<Rightarrow> sql_error option" where
  "key_error d t row =
     (case filter (\<lambda>k. is_key (condef k) \<and>
                    row (constrained_column (condef k)) \<noteq> None \<and>
                    row (constrained_column (condef k)) \<in> set (column_values d t (constrained_column (condef k))))
             (table_constraints d t) of
        k # _ \<Rightarrow> Some (UniqueViolation (conname k))
      | [] \<Rightarrow> None)"

definition reference_error :: "db \<Rightarrow> string \<Rightarrow> (string \<Rightarrow> sql_value option) \<Rightarrow> sql_error option" where
  "reference_error d t row =
     (case filter (\<lambda>k. \<not> is_key (condef k) \<and>
                    row (constrained_column (condef k)) \<noteq> None \<and>
                    (\<exists>rt \<in> set (referenced_table (condef k)).
                       row (constrained_column (condef k)) \<notin> set (column_values d rt ''id'')))
             (table_constraints d t) of
        k # _ \<Rightarrow> Some (ForeignKeyViolation (conname k))
      | [] \<Rightarrow> None)"

fun first_error :: "sql_error option list \<Rightarrow> sql_error option" where
  "first_error [] = None"
| "first_error (None # es) = first_error es"
| "first_error (Some e # es) = Some e"

text \<open>
  The rows are typed records; \<open>row\<close> reads a column of the new row and \<open>store\<close> puts
  the row into its table.
\<close>

definition insert_row ::
  "string \<Rightarrow> string list \<Rightarrow> (string \<Rightarrow> sql_value option) \<Rightarrow> (db \<Rightarrow> db) \<Rightarrow> stmt" where
  "insert_row t cols row store d =
     (case first_error [parse_error d t cols, not_null_error d t cols row,
                        key_error d t row, reference_error d t row] of
        Some e \<Rightarrow> Inl e
      | None \<Rightarrow> Inr (store d))"

text \<open>
  \<^verbatim>\<open>INSERT ... ON CONFLICT (c) DO NOTHING\<close>. The conflict target must be backed by a
  primary key or a unique constraint of the table, or the statement is refused
  ("there is no unique or exclusion constraint matching the ON CONFLICT specification")
  before any row is looked at. A row whose value of \<open>c\<close> is already in the table is
  skipped; any other row is inserted as by a plain \<open>INSERT\<close>.
\<close>

definition has_key_on :: "db \<Rightarrow> string \<Rightarrow> string \<Rightarrow> bool" where
  "has_key_on d t c =
     (\<exists>k \<in> set (table_constraints d t). is_key (condef k) \<and> constrained_column (condef k) = c)"

definition insert_row_on_conflict_do_nothing ::
  "string \<Rightarrow> string \<Rightarrow> string list \<Rightarrow> (string \<Rightarrow> sql_value option) \<Rightarrow> (db \<Rightarrow> db) \<Rightarrow> stmt" where
  "insert_row_on_conflict_do_nothing t c cols row store d =
     (case first_error [parse_error d t cols,
                        if has_key_on d t c then None else Some InvalidColumnReference,
                        not_null_error d t cols row] of
        Some e \<Rightarrow> Inl e
      | None \<Rightarrow>
          (if row c \<noteq> None \<and> row c \<in> set (column_values d t c) then Inr d
           else insert_row t cols row store d))"

definition store_category :: "category \<Rightarrow> db \<Rightarrow> db" where
  "store_category r d = d\<lparr>categories := categories d @ [r]\<rparr>"

definition store_product :: "product \<Rightarrow> db \<Rightarrow> db" where
  "store_product r d = d\<lparr>products := products d @ [r]\<rparr>"

definition store_profile :: "profile \<Rightarrow> db \<Rightarrow> db" where
  "store_profile r d = d\<lparr>profiles := profiles d @ [r]\<rparr>"

text \<open>
  \<^verbatim>\<open>INSERT INTO public.categories (name, slug, description) VALUES ... ON CONFLICT (c) DO NOTHING\<close>
  and the same for products; a statement with several rows inserts them in order.
\<close>

definition categories_columns :: "string list" where
  "categories_columns = [''name'', ''slug'', ''description'']"

definition products_columns :: "string list" where
  "products_columns = [''name'', ''description'', ''price'', ''image_urls'', ''stock'', ''rating'', ''category_id'']"

definition insert_categories_on_conflict_do_nothing :: "string \<Rightarrow> category list \<Rightarrow> stmt" where
  "insert_categories_on_conflict_do_nothing c rs =
     run_script (map (\<lambda>r. insert_row_on_conflict_do_nothing ''categories'' c categories_columns
                            (category_col r) (store_category r)) rs)"

definition insert_products_on_conflict_do_nothing :: "string \<Rightarrow> product list \<Rightarrow> stmt" where
  "insert_products_on_conflict_do_nothing c rs =
     run_script (map (\<lambda>r. insert_row_on_conflict_do_nothing ''products'' c products_columns
                            (product_col r) (store_product r)) rs)"

definition insert_products :: "product list \<Rightarrow> stmt" where
  "insert_products rs =
     run_script (map (\<lambda>r. insert_row ''products'' products_columns (product_col r) (store_product r)) rs)"

text \<open>
  \<^verbatim>\<open>INSERT INTO public.categories (name, slug) VALUES (...)
  ON CONFLICT (name) DO UPDATE SET slug = EXCLUDED.slug RETURNING id\<close>:
  where a row of that name exists, its slug is overwritten, unless another row holds
  the new slug under a key; the statement returns the id of the row inserted or updated.
\<close>

definition upsert_category_set_slug :: "category \<Rightarrow> db \<Rightarrow> sql_error + db \<times> uuid" where
  "upsert_category_set_slug r d =
     (case first_error [parse_error d ''categories'' [''name'', ''slug''],
                        if has_key_on d ''categories'' ''name'' then None else Some InvalidColumnReference,
                        not_null_error d ''categories'' [''name'', ''slug''] (category_col r)] of
        Some e \<Rightarrow> Inl e
      | None \<Rightarrow>
          (case filter (\<lambda>x. c_name x = c_name r) (categories d) of
             [] \<Rightarrow>
               (case insert_row ''categories'' [''name'', ''slug''] (category_col r) (store_category r) d of
                  Inl e \<Rightarrow> Inl e
                | Inr d' \<Rightarrow> Inr (d', c_id r))
           | x # _ \<Rightarrow>
               (if has_key_on d ''categories'' ''slug'' \<and>
                   (\<exists>y \<in> set (categories d). c_id y \<noteq> c_id x \<and> c_slug y = c_slug r)
                then Inl (UniqueViolation ''categories_slug_key'')
                else Inr (d\<lparr>categories := map (\<lambda>y. if c_id y = c_id x then y\<lparr>c_slug := c_slug r\<rparr> else y)
                                              (categories d)\<rparr>, c_id x))))"

text \<open>\<^verbatim>\<open>SELECT id INTO v FROM public.categories WHERE slug = s\<close>: \<open>NULL\<close> when no row matches.\<close>

definition category_id_by_slug :: "db \<Rightarrow> string \<Rightarrow> uuid option" where
  "category_id_by_slug d s =
     (case filter (\<lambda>r. c_slug r = s) (categories d) of [] \<Rightarrow> None | r # _ \<Rightarrow> Some (c_id r))"

subsection \<open>Deleting rows\<close>

text \<open>
  The foreign keys that reference a table decide what a \<open>DELETE\<close> from it does to the
  referencing rows: \<open>NO ACTION\<close> and \<open>RESTRICT\<close> refuse the delete while such a row
  exists, \<open>SET NULL\<close> empties the referencing column, \<open>CASCADE\<close> deletes the row.
\<close>

definition referencing_actions :: "db \<Rightarrow> string \<Rightarrow> string \<Rightarrow> string \<Rightarrow> (string \<times> fk_action) list" where
  "referencing_actions d t c rt =
     concat (map (\<lambda>k. case condef k of
                         ForeignKey c' rt' a \<Rightarrow> (if c' = c \<and> rt' = rt then [(conname k, a)] else [])
                       | _ \<Rightarrow> [])
                 (table_constraints d t))"

definition blocking :: "(string \<times> fk_action) list \<Rightarrow> string list" where
  "blocking acts = map fst (filter (\<lambda>x. snd x = NoAction \<or> snd x = Restrict) acts)"

text \<open>\<^verbatim>\<open>DELETE FROM public.products\<close> (every row), under the foreign keys of \<open>order_items\<close>.\<close>

definition delete_products :: "(product \<Rightarrow> bool) \<Rightarrow> stmt" where
  "delete_products doomed d =
     (let acts = referencing_actions d ''order_items'' ''product_id'' ''products'';
          gone = map pr_id (filter doomed (products d));
          refs = filter (\<lambda>i. case oi_product_id i of None \<Rightarrow> False | Some p \<Rightarrow> p \<in> set gone) (order_items d)
      in case (if refs = [] then [] else blocking acts) of
           n # _ \<Rightarrow> Inl (ForeignKeyViolation n)
         | [] \<Rightarrow>
             Inr (d\<lparr>products := filter (\<lambda>p. \<not> doomed p) (products d),
                    order_items :=
                      (if Cascade \<in> snd ` set acts
                       then filter (\<lambda>i. i \<notin> set refs) (order_items d)
                       else if SetNull \<in> snd ` set acts
                       then map (\<lambda>i. if i \<in> set refs then i\<lparr>oi_product_id := None\<rparr> else i) (order_items d)
                       else order_items d)\<rparr>))"

text \<open>\<^verbatim>\<open>DELETE FROM public.categories WHERE id = cid\<close>, under the foreign keys of \<open>products\<close>.\<close>

definition delete_category :: "uuid \<Rightarrow> stmt" where
  "delete_category cid d =
     (let acts = referencing_actions d ''products'' ''category_id'' ''categories'';
          refs = filter (\<lambda>p. pr_category_id p = Some cid) (products d)
      in if \<not> (\<exists>c \<in> set (categories d). c_id c = cid) then Inr d
         else case (if refs = [] then [] else blocking acts) of
           n # _ \<Rightarrow> Inl (ForeignKeyViolation n)
         | [] \<Rightarrow>
             (case (if Cascade \<in> snd ` set acts
                    then delete_products (\<lambda>p. pr_category_id p = Some cid) d
                    else if SetNull \<in> snd ` set acts
                    then Inr (d\<lparr>products := map (\<lambda>p. if pr_category_id p = Some cid
                                                      then p\<lparr>pr_category_id := None\<rparr> else p) (products d)\<rparr>)
                    else Inr d) of
                Inl e \<Rightarrow> Inl e
              | Inr d' \<Rightarrow> Inr (d'\<lparr>categories := filter (\<lambda>c. c_id c \<noteq> cid) (categories d')\<rparr>)))"

subsection \<open>Creating an identity\<close>

text \<open>\<^verbatim>\<open>j->>'k'\<close> on a JSON object: the text under the key, \<open>NULL\<close> when there is none.\<close>

definition json_text :: "(string \<times> string) list \<Rightarrow> string \<Rightarrow> string option" where
  "json_text j k = map_of j k"

definition column_type :: "db \<Rightarrow> string \<Rightarrow> string \<Rightarrow> string option" where
  "column_type d t c =
     (case filter (\<lambda>a. attname a = c) (table_attributes d t) of
        [] \<Rightarrow> None
      | a # _ \<Rightarrow> Some (atttypid a))"

text \<open>
  A cast of a text to an enum type fails on a text that is no label of the type; a
  cast of \<open>NULL\<close> is \<open>NULL\<close>.
\<close>

definition cast_to_enum :: "db \<Rightarrow> string \<Rightarrow> string option \<Rightarrow> sql_error + string option" where
  "cast_to_enum d ty v =
     (case map_of (pg_type d) ty of
        None \<Rightarrow> Inl (UndefinedObject ty)
      | Some labels \<Rightarrow>
          (case v of
             None \<Rightarrow> Inr None
           | Some s \<Rightarrow> (if s \<in> set labels then Inr (Some s) else Inl (InvalidTextRepresentation s))))"

text \<open>
  The value the function inserts into \<open>profiles.role\<close>. A text expression cannot be
  assigned to a column of an enum type, nor a value of one enum type to a column of
  another.
\<close>

definition role_value :: "db \<Rightarrow> role_expr \<Rightarrow> string option \<Rightarrow> sql_error + string option" where
  "role_value d body requested =
     (let ct = column_type d ''profiles'' ''role'';
          enum_column = (case ct of None \<Rightarrow> False | Some ty \<Rightarrow> ty \<in> fst ` set (pg_type d))
      in case body of
           RoleText \<Rightarrow> (if enum_column then Inl (DatatypeMismatch ''role'') else Inr requested)
         | RoleCast ty \<Rightarrow>
             (case cast_to_enum d ty requested of
                Inl e \<Rightarrow> Inl e
              | Inr v \<Rightarrow> (if enum_column \<and> ct \<noteq> Some ty then Inl (DatatypeMismatch ''role'') else Inr v))
         | RoleCoalesceCast ty \<Rightarrow>
             (case cast_to_enum d ty requested of
                Inl e \<Rightarrow> Inl e
              | Inr v \<Rightarrow>
                  (case cast_to_enum d ty (Some ''user'') of
                     Inl e \<Rightarrow> Inl e
                   | Inr u \<Rightarrow>
                       (if enum_column \<and> ct \<noteq> Some ty then Inl (DatatypeMismatch ''role'')
                        else Inr (case v of None \<Rightarrow> u | Some s \<Rightarrow> Some s)))))"

text \<open>
  \<open>handle_new_user\<close>, the body common to the migrations:
  \<^verbatim>\<open>
  INSERT INTO public.profiles (id, full_name, role)
  VALUES (new.id, new.raw_user_meta_data->>'full_name', <role expression>);
  RETURN new;
  \<close>
\<close>

definition handle_new_user :: "role_expr \<Rightarrow> auth_user \<Rightarrow> stmt" where
  "handle_new_user body new d =
     (case role_value d body (json_text (raw_user_meta_data new) ''role'') of
        Inl e \<Rightarrow> Inl e
      | Inr v \<Rightarrow>
          (let r = \<lparr>p_id = au_id new,
                    p_full_name = json_text (raw_user_meta_data new) ''full_name'',
                    p_role = v\<rparr>
           in insert_row ''profiles'' [''id'', ''full_name'', ''role''] (profile_col r) (store_profile r) d))"

text \<open>
  The creation of an identity by the authentication provider: the row goes into
  \<open>auth.users\<close>, then every \<open>AFTER INSERT\<close> trigger on that table runs its function in
  the same transaction, so that an error of the function undoes the creation.
\<close>

definition fire_trigger :: "auth_user \<Rightarrow> string \<times> string \<times> string \<Rightarrow> stmt" where
  "fire_trigger new g d =
     (case map_of (pg_proc d) (snd (snd g)) of
        None \<Rightarrow> Inl (UndefinedObject (snd (snd g)))
      | Some body \<Rightarrow> handle_new_user body new d)"

definition create_identity :: "auth_user \<Rightarrow> stmt" where
  "create_identity new d =
     (if au_id new \<in> au_id ` set (auth_users d) then Inl (UniqueViolation ''users_pkey'')
      else run_script (map (fire_trigger new) (filter (\<lambda>g. fst (snd g) = ''auth.users'') (pg_trigger d)))
             (d\<lparr>auth_users := auth_users d @ [new]\<rparr>))"

section \<open>The seed data\<close>

text \<open>
  The seed blocks insert the same four categories, with descriptions that differ from
  script to script, and the same six products, whose image addresses differ in how often
  the image proxy is prefixed. \<open>gen\<close> gives the values of \<open>gen_random_uuid()\<close> (the
  default of the \<open>id\<close> columns) in the order the block asks for them.
\<close>

definition seed_categories :: "(nat \<Rightarrow> uuid) \<Rightarrow> string option list \<Rightarrow> category list" where
  "seed_categories gen descs =
     map (\<lambda>(i, n, s). \<lparr>c_id = gen i, c_name = n, c_slug = s,
                         c_description = (if i < length descs then descs ! i else None)\<rparr>)
       [(0, ''Tas'', ''tas''), (1, ''Dekorasi'', ''dekorasi''),
        (2, ''Aksesori Rumah'', ''aksesori-rumah''), (3, ''Premium'', ''premium'')]"

definition img_wrapper :: string where
  "img_wrapper = ''https://img-wrapper.vercel.app/image?url=''"

definition seed_products ::
  "string \<Rightarrow> (nat \<Rightarrow> uuid) \<Rightarrow> uuid option \<Rightarrow> uuid option \<Rightarrow> uuid option \<Rightarrow> uuid option \<Rightarrow> product list" where
  "seed_products wrap gen tas_id dekorasi_id aksesori_id premium_id =
    [\<lparr>pr_id = gen 4, pr_name = ''Tas Tote Premium'',
      pr_description = Some ''Tas anyaman eceng gondok dengan handle kulit asli.'',
      pr_price = 180000,
      pr_image_urls = [wrap @ ''https://placehold.co/300x300/8ea071/ffffff?text=Tas+Tote''],
      pr_stock = 20, pr_rating = Some (48 / 10), pr_category_id = tas_id\<rparr>,
     \<lparr>pr_id = gen 5, pr_name = ''Alas Meja Natural'',
      pr_description = Some ''Alas meja bundar untuk sentuhan alami di ruang makan.'',
      pr_price = 95000,
      pr_image_urls = [wrap @ ''https://placehold.co/300x300/b4a47e/ffffff?text=Alas+Meja''],
      pr_stock = 35, pr_rating = Some (45 / 10), pr_category_id = aksesori_id\<rparr>,
     \<lparr>pr_id = gen 6, pr_name = ''Hiasan Dinding Mandala'',
      pr_description = Some ''Hiasan dinding besar dengan pola mandala yang rumit.'',
      pr_price = 125000,
      pr_image_urls = [wrap @ ''https://placehold.co/300x300/a08d63/ffffff?text=Hiasan+Dinding''],
      pr_stock = 15, pr_rating = Some (47 / 10), pr_category_id = dekorasi_id\<rparr>,
     \<lparr>pr_id = gen 7, pr_name = ''Tempat Pensil Minimalis'',
      pr_description = Some ''Tempat pensil elegan untuk meja kerja Anda.'',
      pr_price = 45000,
      pr_image_urls = [wrap @ ''https://placehold.co/300x300/708158/ffffff?text=Tempat+Pensil''],
      pr_stock = 50, pr_rating = Some (43 / 10), pr_category_id = aksesori_id\<rparr>,
     \<lparr>pr_id = gen 8, pr_name = ''Keranjang Multifungsi'',
      pr_description = Some ''Keranjang serbaguna untuk penyimpanan mainan atau laundry.'',
      pr_price = 110000,
      pr_image_urls = [wrap @ ''https://placehold.co/300x300/c8bea2/ffffff?text=Keranjang''],
      pr_stock = 25, pr_rating = Some (46 / 10), pr_category_id = aksesori_id\<rparr>,
     \<lparr>pr_id = gen 9, pr_name = ''Clutch Pesta Elegan'',
      pr_description = Some ''Clutch malam yang mewah dan ramah lingkungan.'',
      pr_price = 250000,
      pr_image_urls = [wrap @ ''https://placehold.co/300x300/f59e0b/ffffff?text=Clutch''],
      pr_stock = 10, pr_rating = Some (49 / 10), pr_category_id = premium_id\<rparr>]"

text \<open>The products of a seed block, with the category ids the block has just selected by slug.\<close>

definition seed_products_by_slug :: "string \<Rightarrow> (nat \<Rightarrow> uuid) \<Rightarrow> db \<Rightarrow> product list" where
  "seed_products_by_slug wrap gen d =
     seed_products wrap gen (category_id_by_slug d ''tas'') (category_id_by_slug d ''dekorasi'')
       (category_id_by_slug d ''aksesori-rumah'') (category_id_by_slug d ''premium'')"

section \<open>Migration \<open>20250120120007_final_definitive_schema_fix.sql\<close>\<close>

text \<open>
  Step 7, the guarded foreign key of \<open>products.category_id\<close>, with
  \<^verbatim>\<open>ON DELETE SET NULL\<close>.
\<close>

definition m0007_category_fk :: stmt where
  "m0007_category_fk =
     add_constraint_if_not_exists ''products'' ''products_category_id_fkey''
       (ForeignKey ''category_id'' ''categories'' SetNull)"

text \<open>Steps 1 to 9: extension, tables, columns and foreign keys.\<close>

definition m0007_schema :: "stmt list" where
  "m0007_schema =
    [create_extension_if_not_exists ''pgcrypto'',
     create_table_if_not_exists ''profiles''
       [(''id'', ''uuid'', True, False), (''full_name'', ''text'', False, False),
        (''role'', ''text'', False, True), (''updated_at'', ''timestamptz'', False, False)]
       [(''profiles_pkey'', PrimaryKey ''id''),
        (''profiles_id_fkey'', ForeignKey ''id'' ''auth.users'' Cascade)],
     create_table_if_not_exists ''categories''
       [(''id'', ''uuid'', True, True), (''name'', ''text'', True, False),
        (''slug'', ''text'', True, False), (''description'', ''text'', False, False)]
       [(''categories_pkey'', PrimaryKey ''id''), (''categories_slug_key'', Unique ''slug'')],
     create_table_if_not_exists ''products''
       [(''id'', ''uuid'', True, True), (''name'', ''text'', True, False),
        (''price'', ''numeric'', True, False), (''description'', ''text'', False, False),
        (''is_featured'', ''boolean'', False, True), (''is_published'', ''boolean'', False, True),
        (''created_at'', ''timestamptz'', False, True), (''updated_at'', ''timestamptz'', False, True)]
       [(''products_pkey'', PrimaryKey ''id'')],
     drop_column_if_exists ''products'' ''category'',
     add_column_if_not_exists ''products'' (''image_urls'', ''text[]'', False, False) [],
     add_column_if_not_exists ''products'' (''stock'', ''integer'', True, True) [],
     add_column_if_not_exists ''products'' (''rating'', ''numeric'', False, True) [],
     add_column_if_not_exists ''products'' (''category_id'', ''uuid'', False, False) [],
     m0007_category_fk,
     create_table_if_not_exists ''orders''
       [(''id'', ''uuid'', True, True), (''user_id'', ''uuid'', True, False),
        (''total_amount'', ''numeric'', True, False), (''status'', ''text'', False, True),
        (''created_at'', ''timestamptz'', False, True)]
       [(''orders_pkey'', PrimaryKey ''id''),
        (''orders_user_id_fkey'', ForeignKey ''user_id'' ''profiles'' NoAction)],
     create_table_if_not_exists ''order_items''
       [(''id'', ''uuid'', True, True), (''order_id'', ''uuid'', True, False),
        (''product_id'', ''uuid'', True, False), (''quantity'', ''integer'', True, False),
        (''price'', ''numeric'', True, False)]
       [(''order_items_pkey'', PrimaryKey ''id''),
        (''order_items_order_id_fkey'', ForeignKey ''order_id'' ''orders'' Cascade)],
     add_constraint_if_not_exists ''order_items'' ''order_items_product_id_fkey''
       (ForeignKey ''product_id'' ''products'' Restrict)]"

text \<open>Step 10: row security, each policy dropped by name and created again.\<close>

definition m0007_rls :: "stmt list" where
  "m0007_rls =
    [enable_row_level_security ''profiles'',
     enable_row_level_security ''categories'',
     enable_row_level_security ''products'',
     enable_row_level_security ''orders'',
     enable_row_level_security ''order_items'',
     drop_policy_if_exists ''Public profiles are viewable by everyone.'' ''profiles'',
     create_policy ''Public profiles are viewable by everyone.'' ''profiles'' ForSelect (Some PTrue) None,
     drop_policy_if_exists ''Users can insert their own profile.'' ''profiles'',
     create_policy ''Users can insert their own profile.'' ''profiles'' ForInsert None (Some UidEqId),
     drop_policy_if_exists ''Users can update their own profile.'' ''profiles'',
     create_policy ''Users can update their own profile.'' ''profiles'' ForUpdate (Some UidEqId) None,
     drop_policy_if_exists ''Public categories are viewable by everyone.'' ''categories'',
     create_policy ''Public categories are viewable by everyone.'' ''categories'' ForSelect (Some PTrue) None,
     drop_policy_if_exists ''Public products are viewable by everyone.'' ''products'',
     create_policy ''Public products are viewable by everyone.'' ''products'' ForSelect (Some PTrue) None,
     drop_policy_if_exists ''Users can view their own orders.'' ''orders'',
     create_policy ''Users can view their own orders.'' ''orders'' ForSelect (Some UidEqUserId) None,
     drop_policy_if_exists ''Users can view items in their own orders.'' ''order_items'',
     create_policy ''Users can view items in their own orders.'' ''order_items'' ForSelect
       (Some ParentOrderUserIsUid) None,
     drop_policy_if_exists ''Admins have full access'' ''products'',
     create_policy ''Admins have full access'' ''products'' ForAll
       (Some RoleOfUidIsAdmin) (Some RoleOfUidIsAdmin)]"

text \<open>Steps 11 and 12: the function \<open>handle_new_user\<close> and its trigger.\<close>

definition m0007_new_user_trigger :: "stmt list" where
  "m0007_new_user_trigger =
    [create_or_replace_function ''handle_new_user'' RoleText,
     drop_trigger_if_exists ''on_auth_user_created'' ''auth.users'',
     create_trigger ''on_auth_user_created'' ''auth.users'' ''handle_new_user'']"

text \<open>
  Step 13, the seed block: the categories, keyed by slug; the lookup of their ids; the
  products, keyed by name.
\<close>

definition m0007_seed_categories :: "(nat \<Rightarrow> uuid) \<Rightarrow> stmt" where
  "m0007_seed_categories gen =
     insert_categories_on_conflict_do_nothing ''slug''
       (seed_categories gen
          [Some ''Koleksi tas anyaman eceng gondok.'', Some ''Hiasan rumah yang natural dan estetik.'',
           Some ''Perlengkapan rumah fungsional.'', Some ''Koleksi eksklusif dengan detail premium.''])"

definition m0007_seed_products :: "(nat \<Rightarrow> uuid) \<Rightarrow> stmt" where
  "m0007_seed_products gen d =
     insert_products_on_conflict_do_nothing ''name''
       (seed_products_by_slug (img_wrapper @ img_wrapper) gen d) d"

definition m0007_seed :: "(nat \<Rightarrow> uuid) \<Rightarrow> stmt" where
  "m0007_seed gen = run_script [m0007_seed_categories gen, m0007_seed_products gen]"

definition migration_0007 :: "(nat \<Rightarrow> uuid) \<Rightarrow> stmt list" where
  "migration_0007 gen = m0007_schema @ m0007_rls @ m0007_new_user_trigger @ [m0007_seed gen]"

section \<open>Migration \<open>20250120120002_fix_product_seeding.sql\<close>\<close>

text \<open>
  The two catalog tables as this script creates them. The foreign key of
  \<open>products.category_id\<close> is written inline and without \<open>ON DELETE\<close>, so it is the
  constraint \<open>products_category_id_fkey\<close> with \<open>NO ACTION\<close>.
\<close>

definition m0002_create_categories :: stmt where
  "m0002_create_categories =
     create_table_if_not_exists ''categories''
       [(''id'', ''uuid'', True, True), (''name'', ''varchar'', True, False),
        (''slug'', ''varchar'', True, False), (''description'', ''text'', False, False),
        (''created_at'', ''timestamptz'', False, True)]
       [(''categories_pkey'', PrimaryKey ''id''), (''categories_slug_key'', Unique ''slug'')]"

definition m0002_create_products :: stmt where
  "m0002_create_products =
     create_table_if_not_exists ''products''
       [(''id'', ''uuid'', True, True), (''name'', ''varchar'', True, False),
        (''description'', ''text'', False, False), (''price'', ''numeric'', True, False),
        (''image_urls'', ''text[]'', False, False), (''stock'', ''integer'', True, True),
        (''rating'', ''numeric'', False, False), (''category_id'', ''uuid'', False, False),
        (''created_at'', ''timestamptz'', False, True), (''updated_at'', ''timestamptz'', False, True)]
       [(''products_pkey'', PrimaryKey ''id''),
        (''products_category_id_fkey'', ForeignKey ''category_id'' ''categories'' NoAction)]"

text \<open>
  The seed block: the categories keyed by slug, then the products
  \<^verbatim>\<open>IF NOT EXISTS (SELECT 1 FROM public.products)\<close>, that is, only into an empty table.
\<close>

definition m0002_seed_categories :: "(nat \<Rightarrow> uuid) \<Rightarrow> stmt" where
  "m0002_seed_categories gen =
     insert_categories_on_conflict_do_nothing ''slug''
       (seed_categories gen
          [Some ''Koleksi tas anyaman eceng gondok.'', Some ''Hiasan rumah yang natural dan estetik.'',
           Some ''Perlengkapan rumah fungsional.'', Some ''Koleksi eksklusif dengan kualitas terbaik.''])"

definition m0002_seed_products :: "(nat \<Rightarrow> uuid) \<Rightarrow> stmt" where
  "m0002_seed_products gen d =
     (if products d = [] then insert_products (seed_products_by_slug (img_wrapper @ img_wrapper) gen d) d
      else Inr d)"

definition m0002_seed :: "(nat \<Rightarrow> uuid) \<Rightarrow> stmt" where
  "m0002_seed gen = run_script [m0002_seed_categories gen, m0002_seed_products gen]"

section \<open>Migration \<open>20250120120006_final_comprehensive_schema_fix.sql\<close>\<close>

text \<open>
  The header of the script calls it "a complete and idempotent setup", "designed to be
  safely run multiple times without causing errors", which adds what is missing "without
  deleting existing data" and is "a non-destructive operation on existing data
  structures".
\<close>

text \<open>Step 4, the guarded foreign key of \<open>products.category_id\<close>.\<close>

definition m0006_category_fk :: stmt where
  "m0006_category_fk =
     add_constraint_if_not_exists ''products'' ''products_category_id_fkey''
       (ForeignKey ''category_id'' ''categories'' SetNull)"

text \<open>
  Steps 1 to 7: the tables, the columns added to \<open>products\<close> and the foreign key. (The
  \<open>CHECK\<close> on \<open>products.rating\<close> is left out; the ratings of the seed lie within it.)
\<close>

definition m0006_schema :: "stmt list" where
  "m0006_schema =
    [create_table_if_not_exists ''categories''
       [(''id'', ''uuid'', True, True), (''name'', ''text'', True, False),
        (''slug'', ''text'', True, False), (''description'', ''text'', False, False),
        (''created_at'', ''timestamptz'', False, True)]
       [(''categories_pkey'', PrimaryKey ''id''), (''categories_slug_key'', Unique ''slug'')],
     create_table_if_not_exists ''products''
       [(''id'', ''uuid'', True, True), (''name'', ''text'', True, False),
        (''description'', ''text'', False, False), (''price'', ''numeric'', True, False),
        (''created_at'', ''timestamptz'', False, True)]
       [(''products_pkey'', PrimaryKey ''id'')],
     add_column_if_not_exists ''products'' (''image_urls'', ''text[]'', False, True) [],
     add_column_if_not_exists ''products'' (''stock'', ''integer'', True, True) [],
     add_column_if_not_exists ''products'' (''rating'', ''numeric'', True, True) [],
     add_column_if_not_exists ''products'' (''category_id'', ''uuid'', False, False) [],
     m0006_category_fk,
     create_table_if_not_exists ''profiles''
       [(''id'', ''uuid'', True, False), (''full_name'', ''text'', False, False),
        (''role'', ''text'', True, True), (''created_at'', ''timestamptz'', False, True)]
       [(''profiles_pkey'', PrimaryKey ''id''),
        (''profiles_id_fkey'', ForeignKey ''id'' ''auth.users'' Cascade)],
     create_table_if_not_exists ''orders''
       [(''id'', ''bigint'', True, True), (''user_id'', ''uuid'', True, False),
        (''total_amount'', ''numeric'', True, False), (''status'', ''text'', True, True),
        (''created_at'', ''timestamptz'', False, True)]
       [(''orders_pkey'', PrimaryKey ''id''),
        (''orders_user_id_fkey'', ForeignKey ''user_id'' ''profiles'' NoAction)],
     create_table_if_not_exists ''order_items''
       [(''id'', ''bigint'', True, True), (''order_id'', ''bigint'', True, False),
        (''product_id'', ''uuid'', True, False), (''quantity'', ''integer'', True, False),
        (''price'', ''numeric'', True, False)]
       [(''order_items_pkey'', PrimaryKey ''id''),
        (''order_items_order_id_fkey'', ForeignKey ''order_id'' ''orders'' NoAction),
        (''order_items_product_id_fkey'', ForeignKey ''product_id'' ''products'' NoAction)]]"

text \<open>Step 8: the function \<open>handle_new_user\<close> and its trigger.\<close>

definition m0006_new_user_trigger :: "stmt list" where
  "m0006_new_user_trigger =
    [create_or_replace_function ''handle_new_user'' RoleText,
     drop_trigger_if_exists ''on_auth_user_created'' ''auth.users'',
     create_trigger ''on_auth_user_created'' ''auth.users'' ''handle_new_user'']"

text \<open>Step 9: row security, each policy dropped by name and created again.\<close>

definition m0006_rls :: "stmt list" where
  "m0006_rls =
    [enable_row_level_security ''profiles'',
     drop_policy_if_exists ''Users can view their own profile'' ''profiles'',
     create_policy ''Users can view their own profile'' ''profiles'' ForSelect (Some UidEqId) None,
     drop_policy_if_exists ''Users can update their own profile'' ''profiles'',
     create_policy ''Users can update their own profile'' ''profiles'' ForUpdate (Some UidEqId) None,
     enable_row_level_security ''products'',
     drop_policy_if_exists ''Products are publicly visible'' ''products'',
     create_policy ''Products are publicly visible'' ''products'' ForSelect (Some PTrue) None,
     enable_row_level_security ''categories'',
     drop_policy_if_exists ''Categories are publicly visible'' ''categories'',
     create_policy ''Categories are publicly visible'' ''categories'' ForSelect (Some PTrue) None,
     enable_row_level_security ''orders'',
     drop_policy_if_exists ''Users can view their own orders'' ''orders'',
     create_policy ''Users can view their own orders'' ''orders'' ForSelect (Some UidEqUserId) None,
     drop_policy_if_exists ''Users can create their own orders'' ''orders'',
     create_policy ''Users can create their own orders'' ''orders'' ForInsert None (Some UidEqUserId),
     enable_row_level_security ''order_items'',
     drop_policy_if_exists ''Users can view items in their own orders'' ''order_items'',
     create_policy ''Users can view items in their own orders'' ''order_items'' ForSelect
       (Some ParentOrderUserIsUid) None]"

text \<open>
  Step 10, the seed block: the categories keyed by slug, then
  \<^verbatim>\<open>DELETE FROM public.products\<close> ("Clear existing products to avoid duplicates during
  re-runs of the script") and a plain insert of the six products.
\<close>

definition m0006_seed_categories :: "(nat \<Rightarrow> uuid) \<Rightarrow> stmt" where
  "m0006_seed_categories gen =
     insert_categories_on_conflict_do_nothing ''slug''
       (seed_categories gen
          [Some ''Koleksi tas anyaman eceng gondok'', Some ''Hiasan dinding dan dekorasi rumah'',
           Some ''Aksesori fungsional untuk rumah'', Some ''Koleksi produk premium dan edisi terbatas''])"

definition clear_and_seed_products :: "(nat \<Rightarrow> uuid) \<Rightarrow> stmt" where
  "clear_and_seed_products gen d =
     (case delete_products (\<lambda>p. True) d of
        Inl e \<Rightarrow> Inl e
      | Inr d' \<Rightarrow>
          insert_products (seed_products_by_slug (img_wrapper @ img_wrapper @ img_wrapper) gen d) d')"

definition m0006_seed :: "(nat \<Rightarrow> uuid) \<Rightarrow> stmt" where
  "m0006_seed gen = run_script [m0006_seed_categories gen, clear_and_seed_products gen]"

definition migration_0006 :: "(nat \<Rightarrow> uuid) \<Rightarrow> stmt list" where
  "migration_0006 gen = m0006_schema @ m0006_new_user_trigger @ m0006_rls @ [m0006_seed gen]"

section \<open>The schema fix that makes product names unique (\<open>src/unnamed/part_001\<close>, lines 1 to 105)\<close>

text \<open>
  The script titled "Definitive Schema Fix \& Seeding" whose header says that it "adds a
  UNIQUE constraint to the 'name' column in the 'products' table to resolve the
  'ON CONFLICT' error". Its file name is not known; its definitions are prefixed
  \<open>name_key\<close>.
\<close>

definition name_key_schema :: "stmt list" where
  "name_key_schema =
    [create_extension_if_not_exists ''uuid-ossp'',
     drop_column_if_exists ''products'' ''category'',
     create_table_if_not_exists ''categories''
       [(''id'', ''uuid'', True, True), (''name'', ''text'', True, False), (''slug'', ''text'', True, False)]
       [(''categories_pkey'', PrimaryKey ''id''), (''categories_name_key'', Unique ''name''),
        (''categories_slug_key'', Unique ''slug'')],
     create_table_if_not_exists ''products''
       [(''id'', ''uuid'', True, True), (''name'', ''text'', True, False),
        (''description'', ''text'', False, False), (''price'', ''numeric'', True, False),
        (''image_urls'', ''text[]'', False, False), (''stock'', ''integer'', True, True),
        (''rating'', ''numeric'', False, False), (''category_id'', ''uuid'', False, False),
        (''created_at'', ''timestamptz'', False, True), (''updated_at'', ''timestamptz'', False, True)]
       [(''products_pkey'', PrimaryKey ''id''), (''products_name_key'', Unique ''name''),
        (''products_category_id_fkey'', ForeignKey ''category_id'' ''categories'' NoAction)],
     add_column_if_not_exists ''products'' (''image_urls'', ''text[]'', False, False) [],
     add_column_if_not_exists ''products'' (''stock'', ''integer'', True, True) [],
     add_column_if_not_exists ''products'' (''rating'', ''numeric'', False, False) [],
     add_column_if_not_exists ''products'' (''category_id'', ''uuid'', False, False)
       [(''products_category_id_fkey'', ForeignKey ''category_id'' ''categories'' NoAction)],
     add_constraint_if_not_exists ''products'' ''products_name_key'' (Unique ''name'')]"

text \<open>
  The seed block: four categories, each keyed by name with the slug refreshed on
  conflict and the id returned; then the products, keyed by name.
\<close>

definition name_key_seed_categories ::
  "(nat \<Rightarrow> uuid) \<Rightarrow> db \<Rightarrow> sql_error + db \<times> uuid \<times> uuid \<times> uuid \<times> uuid" where
  "name_key_seed_categories gen d =
     (case upsert_category_set_slug \<lparr>c_id = gen 0, c_name = ''Tas'', c_slug = ''tas'', c_description = None\<rparr> d of
        Inl e \<Rightarrow> Inl e
      | Inr (d1, tas_id) \<Rightarrow>
     (case upsert_category_set_slug
             \<lparr>c_id = gen 1, c_name = ''Dekorasi'', c_slug = ''dekorasi'', c_description = None\<rparr> d1 of
        Inl e \<Rightarrow> Inl e
      | Inr (d2, dekorasi_id) \<Rightarrow>
     (case upsert_category_set_slug
             \<lparr>c_id = gen 2, c_name = ''Aksesori Rumah'', c_slug = ''aksesori-rumah'', c_description = None\<rparr> d2 of
        Inl e \<Rightarrow> Inl e
      | Inr (d3, aksesori_id) \<Rightarrow>
     (case upsert_category_set_slug
             \<lparr>c_id = gen 3, c_name = ''Premium'', c_slug = ''premium'', c_description = None\<rparr> d3 of
        Inl e \<Rightarrow> Inl e
      | Inr (d4, premium_id) \<Rightarrow> Inr (d4, tas_id, dekorasi_id, aksesori_id, premium_id)))))"

definition name_key_seed_products ::
  "(nat \<Rightarrow> uuid) \<Rightarrow> uuid \<times> uuid \<times> uuid \<times> uuid \<Rightarrow> stmt" where
  "name_key_seed_products gen ids =
     (case ids of (tas_id, dekorasi_id, aksesori_id, premium_id) \<Rightarrow>
        insert_products_on_conflict_do_nothing ''name''
          (seed_products (img_wrapper @ img_wrapper @ img_wrapper) gen
             (Some tas_id) (Some dekorasi_id) (Some aksesori_id) (Some premium_id)))"

definition name_key_seed :: "(nat \<Rightarrow> uuid) \<Rightarrow> stmt" where
  "name_key_seed gen d =
     (case name_key_seed_categories gen d of
        Inl e \<Rightarrow> Inl e
      | Inr (d', ids) \<Rightarrow> name_key_seed_products gen ids d')"

definition name_key_fix :: "(nat \<Rightarrow> uuid) \<Rightarrow> stmt list" where
  "name_key_fix gen = name_key_schema @ [name_key_seed gen]"

section \<open>The schema fix with the bare policies (\<open>src/unnamed/part_001\<close>, lines 106 to 272)\<close>

text \<open>
  The script titled "FINAL COMPREHENSIVE SCHEMA FIX", whose header calls it "a complete
  and idempotent solution" that "can be run multiple times without causing errors". It
  creates the enum type \<open>user_role\<close>, and its policies by \<open>CREATE POLICY\<close> alone, without
  a \<open>DROP POLICY IF EXISTS\<close> before. Its file name is not known; its definitions are
  prefixed \<open>user_role\<close>.
\<close>

definition user_role_schema :: "stmt list" where
  "user_role_schema =
    [create_enum_if_not_exists ''user_role'' [''admin'', ''user'', ''mitra''],
     create_table_if_not_exists ''profiles''
       [(''id'', ''uuid'', True, False), (''full_name'', ''text'', False, False),
        (''role'', ''user_role'', False, True), (''updated_at'', ''timestamptz'', False, False)]
       [(''profiles_pkey'', PrimaryKey ''id''),
        (''profiles_id_fkey'', ForeignKey ''id'' ''auth.users'' Cascade)],
     enable_row_level_security ''profiles'',
     create_policy ''Public profiles are viewable by everyone.'' ''profiles'' ForSelect (Some PTrue) None,
     create_policy ''Users can insert their own profile.'' ''profiles'' ForInsert None (Some UidEqId),
     create_policy ''Users can update their own profile.'' ''profiles'' ForUpdate (Some UidEqId) None,
     create_table_if_not_exists ''categories''
       [(''id'', ''uuid'', True, True), (''name'', ''text'', True, False),
        (''slug'', ''text'', True, False), (''description'', ''text'', False, False),
        (''created_at'', ''timestamptz'', False, True)]
       [(''categories_pkey'', PrimaryKey ''id''), (''categories_slug_key'', Unique ''slug'')],
     enable_row_level_security ''categories'',
     create_policy ''Categories are viewable by everyone.'' ''categories'' ForSelect (Some PTrue) None,
     create_policy ''Admins can manage categories.'' ''categories'' ForAll (Some UidInAdminIds) None,
     create_table_if_not_exists ''products''
       [(''id'', ''uuid'', True, True), (''name'', ''text'', True, False),
        (''description'', ''text'', False, False), (''price'', ''numeric'', True, False),
        (''category_id'', ''uuid'', False, False), (''created_at'', ''timestamptz'', False, True)]
       [(''products_pkey'', PrimaryKey ''id''),
        (''products_category_id_fkey'', ForeignKey ''category_id'' ''categories'' NoAction)],
     add_column_if_not_exists ''products'' (''image_urls'', ''text[]'', False, False) [],
     add_column_if_not_exists ''products'' (''stock'', ''integer'', False, True) [],
     add_column_if_not_exists ''products'' (''rating'', ''numeric'', False, True) [],
     enable_row_level_security ''products'',
     create_policy ''Products are viewable by everyone.'' ''products'' ForSelect (Some PTrue) None,
     create_policy ''Admins can manage products.'' ''products'' ForAll (Some UidInAdminIds) None,
     create_table_if_not_exists ''orders''
       [(''id'', ''uuid'', True, True), (''user_id'', ''uuid'', False, False),
        (''total_amount'', ''numeric'', True, False), (''status'', ''text'', False, True),
        (''created_at'', ''timestamptz'', False, True)]
       [(''orders_pkey'', PrimaryKey ''id''),
        (''orders_user_id_fkey'', ForeignKey ''user_id'' ''auth.users'' NoAction)],
     enable_row_level_security ''orders'',
     create_policy ''Users can view their own orders.'' ''orders'' ForSelect (Some UidEqUserId) None,
     create_policy ''Users can create orders for themselves.'' ''orders'' ForInsert None (Some UidEqUserId),
     create_policy ''Admins can manage all orders.'' ''orders'' ForAll (Some UidInAdminIds) None,
     create_table_if_not_exists ''order_items''
       [(''id'', ''uuid'', True, True), (''order_id'', ''uuid'', False, False),
        (''product_id'', ''uuid'', False, False), (''quantity'', ''integer'', True, False),
        (''price'', ''numeric'', True, False)]
       [(''order_items_pkey'', PrimaryKey ''id''),
        (''order_items_order_id_fkey'', ForeignKey ''order_id'' ''orders'' Cascade),
        (''order_items_product_id_fkey'', ForeignKey ''product_id'' ''products'' NoAction)],
     enable_row_level_security ''order_items'',
     create_policy ''Users can view their own order items.'' ''order_items'' ForSelect
       (Some ParentOrderUserIsUid) None,
     create_policy ''Admins can manage all order items.'' ''order_items'' ForAll (Some UidInAdminIds) None]"

definition user_role_new_user_trigger :: "stmt list" where
  "user_role_new_user_trigger =
    [create_or_replace_function ''handle_new_user'' (RoleCoalesceCast ''user_role''),
     drop_trigger_if_exists ''on_auth_user_created'' ''auth.users'',
     create_trigger ''on_auth_user_created'' ''auth.users'' ''handle_new_user'']"

text \<open>
  The seed block: the categories keyed by slug, then \<^verbatim>\<open>DELETE FROM public.products\<close>
  ("Clear existing products to ensure a clean seed. This is safe for development.") and
  a plain insert of the six products.
\<close>

definition user_role_seed_categories :: "(nat \<Rightarrow> uuid) \<Rightarrow> stmt" where
  "user_role_seed_categories gen =
     insert_categories_on_conflict_do_nothing ''slug''
       (seed_categories gen
          [Some ''Koleksi tas anyaman tangan.'', Some ''Hiasan rumah yang estetik.'',
           Some ''Perlengkapan rumah fungsional.'', Some ''Koleksi eksklusif dan terbatas.''])"

definition user_role_seed :: "(nat \<Rightarrow> uuid) \<Rightarrow> stmt" where
  "user_role_seed gen = run_script [user_role_seed_categories gen, clear_and_seed_products gen]"

definition user_role_fix :: "(nat \<Rightarrow> uuid) \<Rightarrow> stmt list" where
  "user_role_fix gen = user_role_schema @ user_role_new_user_trigger @ [user_role_seed gen]"

section \<open>Auxiliary notions for the proofs\<close>

text \<open>
  The three SQL spellings of "the caller is an admin", and the two of "the caller owns the parent order".
\<close>

definition admin_forms :: "pexpr option set" where
  "admin_forms = {Some ExistsAdminProfile, Some RoleOfUidIsAdmin, Some UidInAdminIds}"

definition parent_forms :: "pexpr option set" where
  "parent_forms = {Some ExistsOwnParentOrder, Some ParentOrderUserIsUid}"

text \<open>
  The \<open>USING\<close> clauses that apply to a \<open>SELECT\<close> on a table.
\<close>

definition select_quals :: "string \<Rightarrow> db \<Rightarrow> pexpr option list" where
  "select_quals t d = map polqual (select_policies t d)"

text \<open>
  The shape of a policy catalog in which reads of \<open>orders\<close> and \<open>order_items\<close>
  are granted by owner and admin policies only, and in which every caller can read at least
  the own profile.
\<close>

definition owner_admin_shape :: "db \<Rightarrow> bool" where
  "owner_admin_shape d \<longleftrightarrow>
     ''profiles'' \<in> set (pg_rowsecurity d) \<and> ''orders'' \<in> set (pg_rowsecurity d) \<and>
     ''order_items'' \<in> set (pg_rowsecurity d) \<and>
     Some UidEqId \<in> set (select_quals ''profiles'' d) \<and>
     set (select_quals ''profiles'' d) \<subseteq> {Some PTrue, Some UidEqId} \<and>
     Some UidEqUserId \<in> set (select_quals ''orders'' d) \<and>
     set (select_quals ''orders'' d) \<inter> admin_forms \<noteq> {} \<and>
     set (select_quals ''orders'' d) \<subseteq> insert (Some UidEqUserId) admin_forms \<and>
     set (select_quals ''order_items'' d) \<inter> parent_forms \<noteq> {} \<and>
     set (select_quals ''order_items'' d) \<inter> admin_forms \<noteq> {} \<and>
     set (select_quals ''order_items'' d) \<subseteq> parent_forms \<union> admin_forms"

text \<open>
  The caller has a profile row whose role is \<open>admin\<close>.
\<close>

definition is_admin :: "db \<Rightarrow> uuid option \<Rightarrow> bool" where
  "is_admin d uid \<longleftrightarrow> (\<exists>p \<in> set (profiles d). Some (p_id p) = uid \<and> p_role p = Some ''admin'')"

text \<open>
  The caller is the owner of an order; of the parent order of an order item.
\<close>

definition owns :: "uuid option \<Rightarrow> order \<Rightarrow> bool" where
  "owns uid r \<longleftrightarrow> uid \<noteq> None \<and> uid = o_user_id r"

definition owns_parent :: "db \<Rightarrow> uuid option \<Rightarrow> order_item \<Rightarrow> bool" where
  "owns_parent d uid r \<longleftrightarrow> (\<exists>p \<in> set (orders d). Some (o_id p) = oi_order_id r \<and> owns uid p)"

text \<open>
  A policy is identified by its name and its table.
\<close>

definition policy_key :: "pg_policy \<Rightarrow> string \<times> string" where
  "policy_key p = (polname p, polrelid p)"

text \<open>
  The \<open>CREATE POLICY\<close> statement that adds a given catalog row.
\<close>

definition create_policy_row :: "pg_policy \<Rightarrow> stmt" where
  "create_policy_row p = create_policy (polname p) (polrelid p) (polcmd p) (polqual p) (polwithcheck p)"

text \<open>
  The tables, the dropped names and the created rows of migration 0009, as lists.
\<close>

definition m0009_tables :: "string list" where
  "m0009_tables = [''profiles'', ''categories'', ''products'', ''orders'', ''order_items'', ''reviews'']"

definition m0009_policy_names :: "(string \<times> string) list" where
  "m0009_policy_names =
    [(''Public can view all categories.'', ''categories''),
     (''Admins can manage categories.'', ''categories''),
     (''Public can view all products.'', ''products''),
     (''Admins can manage products.'', ''products''),
     (''Users can view their own profile.'', ''profiles''),
     (''Users can update their own profile.'', ''profiles''),
     (''Users can view their own orders.'', ''orders''),
     (''Users can create new orders.'', ''orders''),
     (''Admins can manage all orders.'', ''orders''),
     (''Users can view their own order items.'', ''order_items''),
     (''Users can create new order items.'', ''order_items''),
     (''Admins can manage all order items.'', ''order_items''),
     (''Public can view all reviews.'', ''reviews''),
     (''Users can create reviews.'', ''reviews''),
     (''Users can manage their own reviews.'', ''reviews''),
     (''Users can delete their own reviews.'', ''reviews''),
     (''Admins can manage all reviews.'', ''reviews'')]"

definition pol :: "string \<Rightarrow> string \<Rightarrow> polcmd \<Rightarrow> pexpr option \<Rightarrow> pexpr option \<Rightarrow> pg_policy" where
  "pol n t c q w = \<lparr>polname = n, polrelid = t, polcmd = c, polqual = q, polwithcheck = w\<rparr>"

definition m0009_policies :: "pg_policy list" where
  "m0009_policies =
    [pol ''Users can view their own profile.'' ''profiles'' ForSelect (Some UidEqId) None,
     pol ''Users can update their own profile.'' ''profiles'' ForUpdate (Some UidEqId) (Some UidEqId),
     pol ''Public can view all categories.'' ''categories'' ForSelect (Some PTrue) None,
     pol ''Admins can manage categories.'' ''categories'' ForAll
       (Some ExistsAdminProfile) (Some ExistsAdminProfile),
     pol ''Public can view all products.'' ''products'' ForSelect (Some PTrue) None,
     pol ''Admins can manage products.'' ''products'' ForAll
       (Some ExistsAdminProfile) (Some ExistsAdminProfile),
     pol ''Users can view their own orders.'' ''orders'' ForSelect (Some UidEqUserId) None,
     pol ''Users can create new orders.'' ''orders'' ForInsert None (Some UidEqUserId),
     pol ''Admins can manage all orders.'' ''orders'' ForAll (Some ExistsAdminProfile) None,
     pol ''Users can view their own order items.'' ''order_items'' ForSelect
       (Some ExistsOwnParentOrder) None,
     pol ''Users can create new order items.'' ''order_items'' ForInsert
       None (Some ExistsOwnParentOrder),
     pol ''Admins can manage all order items.'' ''order_items'' ForAll
       (Some ExistsAdminProfile) None,
     pol ''Public can view all reviews.'' ''reviews'' ForSelect (Some PTrue) None,
     pol ''Users can create reviews.'' ''reviews'' ForInsert None (Some UidEqUserId),
     pol ''Users can manage their own reviews.'' ''reviews'' ForUpdate
       (Some UidEqUserId) (Some UidEqUserId),
     pol ''Users can delete their own reviews.'' ''reviews'' ForDelete (Some UidEqUserId) None,
     pol ''Admins can manage all reviews.'' ''reviews'' ForAll (Some ExistsAdminProfile) None]"

text \<open>
  What the theorems on reads ask of the policies that earlier scripts left in the store
  before migration 0009 runs: on \<open>profiles\<close> only \<open>true\<close> or own-row policies, on
  \<open>orders\<close> only owner or admin policies, on \<open>order_items\<close> only parent-owner or admin
  policies. The policies of the migrations \<open>0002\<close>, \<open>0006\<close> and \<open>0007\<close> are of
  these forms; the empty catalog is, too.
\<close>

definition earlier_policies_ok :: "db \<Rightarrow> bool" where
  "earlier_policies_ok d \<longleftrightarrow>
     (\<forall>p \<in> set (pg_policies d). polcmd p = ForAll \<or> polcmd p = ForSelect \<longrightarrow>
        (polrelid p = ''profiles'' \<longrightarrow> polqual p \<in> {Some PTrue, Some UidEqId}) \<and>
        (polrelid p = ''orders'' \<longrightarrow> polqual p \<in> insert (Some UidEqUserId) admin_forms) \<and>
        (polrelid p = ''order_items'' \<longrightarrow> polqual p \<in> parent_forms \<union> admin_forms))"

section \<open>Example stores\<close>

text \<open>A new project: the authentication provider's table and nothing else.\<close>

definition fresh_project :: db where
  "fresh_project =
     \<lparr>pg_extension = [], pg_type = [], pg_class = [''auth.users''], pg_attributes = [],
      pg_constraints = [], pg_rowsecurity = [], pg_policies = [], pg_proc = [], pg_trigger = [],
      auth_users = [], profiles = [], categories = [], products = [], orders = [], order_items = []\<rparr>"

text \<open>
  Modelled from the spec: the table \<open>reviews\<close> (one profile, one product, a rating and a
  comment). Migration 0009 enables row security on it, and no script under \<open>src\<close>
  creates it.
\<close>

definition create_reviews :: stmt where
  "create_reviews =
     create_table_if_not_exists ''reviews''
       [(''id'', ''uuid'', True, True), (''user_id'', ''uuid'', True, False),
        (''product_id'', ''uuid'', True, False), (''rating'', ''integer'', False, False),
        (''comment'', ''text'', False, False)]
       [(''reviews_pkey'', PrimaryKey ''id'')]"

text \<open>
  A store with three identities (a customer, an admin and a partner), one order of the
  customer with one item, and policies of migration 0007 still in place.
\<close>

definition shop_profiles :: "profile list" where
  "shop_profiles =
    [\<lparr>p_id = 1, p_full_name = Some ''Customer User'', p_role = Some ''user''\<rparr>,
     \<lparr>p_id = 2, p_full_name = Some ''Administrator'', p_role = Some ''admin''\<rparr>,
     \<lparr>p_id = 3, p_full_name = Some ''Partner Mitra'', p_role = Some ''mitra''\<rparr>]"

definition shop_order :: order where
  "shop_order = \<lparr>o_id = 10, o_user_id = Some 1, o_total_amount = 180000, o_status = Some ''pending''\<rparr>"

definition shop_item :: order_item where
  "shop_item = \<lparr>oi_id = 100, oi_order_id = Some 10, oi_product_id = Some 4, oi_quantity = 1, oi_price = 180000\<rparr>"

definition shop :: db where
  "shop =
     \<lparr>pg_extension = [], pg_type = [],
      pg_class = [''auth.users'', ''profiles'', ''categories'', ''products'', ''orders'', ''order_items'',
                  ''reviews''],
      pg_attributes = [], pg_constraints = [],
      pg_rowsecurity = [''profiles'', ''categories'', ''products'', ''orders'', ''order_items''],
      pg_policies =
        [pol ''Public profiles are viewable by everyone.'' ''profiles'' ForSelect (Some PTrue) None,
         pol ''Users can view their own orders.'' ''orders'' ForSelect (Some UidEqUserId) None,
         pol ''Users can view items in their own orders.'' ''order_items'' ForSelect
           (Some ParentOrderUserIsUid) None],
      pg_proc = [], pg_trigger = [],
      auth_users = map (\<lambda>p. \<lparr>au_id = p_id p, raw_user_meta_data = []\<rparr>) shop_profiles,
      profiles = shop_profiles, categories = [], products = [],
      orders = [shop_order], order_items = [shop_item]\<rparr>"

definition shop_after_0009 :: db where
  "shop_after_0009 =
     shop\<lparr>pg_rowsecurity := pg_rowsecurity shop @ [''reviews''],
          pg_policies :=
            [pol ''Public profiles are viewable by everyone.'' ''profiles'' ForSelect (Some PTrue) None,
             pol ''Users can view items in their own orders.'' ''order_items'' ForSelect
               (Some ParentOrderUserIsUid) None] @ m0009_policies\<rparr>"

text \<open>Identities that sign up, with the metadata the sign-up form sends.\<close>

definition alice :: auth_user where
  "alice = \<lparr>au_id = 1, raw_user_meta_data = [(''full_name'', ''Alice''), (''role'', ''user'')]\<rparr>"

definition budi :: auth_user where
  "budi = \<lparr>au_id = 2, raw_user_meta_data = [(''full_name'', ''Budi''), (''role'', ''user'')]\<rparr>"

definition eve :: auth_user where
  "eve = \<lparr>au_id = 7, raw_user_meta_data = [(''full_name'', ''Eve''), (''role'', ''superuser'')]\<rparr>"

text \<open>A run of \<open>gen_random_uuid()\<close> that counts up from a start value.\<close>

definition uuids_from :: "nat \<Rightarrow> nat \<Rightarrow> uuid" where
  "uuids_from n i = n + i"

text \<open>The read of a profile row in the store that a script leaves.\<close>

definition read_profile_after :: "stmt list \<Rightarrow> db \<Rightarrow> uuid option \<Rightarrow> profile \<Rightarrow> read_result" where
  "read_profile_after script d uid r =
     (case run_script script d of Inl e \<Rightarrow> QueryError e | Inr d' \<Rightarrow> read_profile d' uid r)"

text \<open>
  The table \<open>profiles\<close> as migration 0007 declares it (a nullable text \<open>role\<close>, the
  primary key \<open>id\<close> referencing \<open>auth.users\<close>), in a store without an enum type called
  \<open>text\<close>; the trigger of 0007 as the only trigger on \<open>auth.users\<close>; the profile row the
  trigger function builds.
\<close>

definition profiles_table_0007 :: "db \<Rightarrow> bool" where
  "profiles_table_0007 d \<longleftrightarrow>
     ''profiles'' \<in> set (pg_class d) \<and>
     table_attributes d ''profiles'' =
       map (attribute_of ''profiles'')
         [(''id'', ''uuid'', True, False), (''full_name'', ''text'', False, False),
          (''role'', ''text'', False, True), (''updated_at'', ''timestamptz'', False, False)] \<and>
     table_constraints d ''profiles'' =
       map (constraint_of ''profiles'')
         [(''profiles_pkey'', PrimaryKey ''id''),
          (''profiles_id_fkey'', ForeignKey ''id'' ''auth.users'' Cascade)] \<and>
     ''text'' \<notin> fst ` set (pg_type d)"

definition new_user_trigger_0007 :: "db \<Rightarrow> bool" where
  "new_user_trigger_0007 d \<longleftrightarrow>
     filter (\<lambda>g. fst (snd g) = ''auth.users'') (pg_trigger d) =
       [(''on_auth_user_created'', ''auth.users'', ''handle_new_user'')] \<and>
     map_of (pg_proc d) ''handle_new_user'' = Some RoleText"

definition new_profile :: "auth_user \<Rightarrow> string option \<Rightarrow> profile" where
  "new_profile new role =
     \<lparr>p_id = au_id new, p_full_name = json_text (raw_user_meta_data new) ''full_name'', p_role = role\<rparr>"

text \<open>
  The same for the script with the enum type \<open>user_role\<close>: its \<open>profiles\<close> table, whose
  \<open>role\<close> column has the enum type, and its trigger function, which casts the requested
  role to the enum and falls back on \<open>user\<close> when the result is null. Then the role that
  the metadata of an identity asks for, and the profiles with the id of an identity in
  the outcome of a statement.
\<close>

definition profiles_table_user_role :: "db \<Rightarrow> bool" where
  "profiles_table_user_role d \<longleftrightarrow>
     ''profiles'' \<in> set (pg_class d) \<and>
     table_attributes d ''profiles'' =
       map (attribute_of ''profiles'')
         [(''id'', ''uuid'', True, False), (''full_name'', ''text'', False, False),
          (''role'', ''user_role'', False, True), (''updated_at'', ''timestamptz'', False, False)] \<and>
     table_constraints d ''profiles'' =
       map (constraint_of ''profiles'')
         [(''profiles_pkey'', PrimaryKey ''id''),
          (''profiles_id_fkey'', ForeignKey ''id'' ''auth.users'' Cascade)] \<and>
     map_of (pg_type d) ''user_role'' = Some [''admin'', ''user'', ''mitra'']"

definition new_user_trigger_user_role :: "db \<Rightarrow> bool" where
  "new_user_trigger_user_role d \<longleftrightarrow>
     filter (\<lambda>g. fst (snd g) = ''auth.users'') (pg_trigger d) =
       [(''on_auth_user_created'', ''auth.users'', ''handle_new_user'')] \<and>
     map_of (pg_proc d) ''handle_new_user'' = Some (RoleCoalesceCast ''user_role'')"

definition requested_role :: "auth_user \<Rightarrow> string option" where
  "requested_role new = json_text (raw_user_meta_data new) ''role''"

definition profiles_of :: "auth_user \<Rightarrow> sql_error + db \<Rightarrow> sql_error + profile list" where
  "profiles_of new res = map_sum id (\<lambda>d. filter (\<lambda>p. p_id p = au_id new) (profiles d)) res"

text \<open>
  Two stores with the same tables, columns and constraints; the checks an
  \<open>ON CONFLICT\<close> insert makes before it looks at the rows; whether a row conflicts on
  the target column.
\<close>

definition same_schema :: "db \<Rightarrow> db \<Rightarrow> bool" where
  "same_schema d d' \<longleftrightarrow>
     pg_class d' = pg_class d \<and> pg_attributes d' = pg_attributes d \<and> pg_constraints d' = pg_constraints d"

definition conflict_pre :: "db \<Rightarrow> string \<Rightarrow> string \<Rightarrow> string list \<Rightarrow> (string \<Rightarrow> sql_value option) \<Rightarrow> sql_error option" where
  "conflict_pre d t c cols row =
     first_error [parse_error d t cols,
                  if has_key_on d t c then None else Some InvalidColumnReference,
                  not_null_error d t cols row]"

definition conflicts :: "db \<Rightarrow> string \<Rightarrow> string \<Rightarrow> (string \<Rightarrow> sql_value option) \<Rightarrow> bool" where
  "conflicts d t c row \<longleftrightarrow> row c \<noteq> None \<and> row c \<in> set (column_values d t c)"

text \<open>
  A store with the two catalog tables, keyed as the scripts key them at last (slug and
  name unique on \<open>categories\<close>, name unique on \<open>products\<close>), holding one category and one
  product that an operator entered.
\<close>

definition catalog_shop :: db where
  "catalog_shop =
     \<lparr>pg_extension = [], pg_type = [],
      pg_class = [''auth.users'', ''categories'', ''products''],
      pg_attributes =
        map (attribute_of ''categories'')
          [(''id'', ''uuid'', True, True), (''name'', ''text'', True, False),
           (''slug'', ''text'', True, False), (''description'', ''text'', False, False)] @
        map (attribute_of ''products'')
          [(''id'', ''uuid'', True, True), (''name'', ''text'', True, False),
           (''price'', ''numeric'', True, False), (''description'', ''text'', False, False),
           (''image_urls'', ''text[]'', False, False), (''stock'', ''integer'', True, True),
           (''rating'', ''numeric'', False, True), (''category_id'', ''uuid'', False, False)],
      pg_constraints =
        map (constraint_of ''categories'')
          [(''categories_pkey'', PrimaryKey ''id''), (''categories_name_key'', Unique ''name''),
           (''categories_slug_key'', Unique ''slug'')] @
        map (constraint_of ''products'')
          [(''products_pkey'', PrimaryKey ''id''), (''products_name_key'', Unique ''name''),
           (''products_category_id_fkey'', ForeignKey ''category_id'' ''categories'' SetNull)],
      pg_rowsecurity = [], pg_policies = [], pg_proc = [], pg_trigger = [],
      auth_users = [], profiles = [],
      categories = [\<lparr>c_id = 50, c_name = ''Vas'', c_slug = ''vas'', c_description = Some ''Vas bunga anyaman.''\<rparr>],
      products =
        [\<lparr>pr_id = 51, pr_name = ''Vas Bunga Besar'', pr_description = None, pr_price = 75000,
          pr_image_urls = [], pr_stock = 3, pr_rating = None, pr_category_id = Some 50\<rparr>],
      orders = [], order_items = []\<rparr>"

text \<open>
  A store that holds the \<open>profiles\<close> table, the function and the trigger as migration
  0007 creates them, and no identity yet; and the catalog store without the unique
  constraint on product names.
\<close>

definition signup_store :: db where
  "signup_store =
     fresh_project\<lparr>
       pg_class := [''auth.users'', ''profiles''],
       pg_attributes :=
         map (attribute_of ''profiles'')
           [(''id'', ''uuid'', True, False), (''full_name'', ''text'', False, False),
            (''role'', ''text'', False, True), (''updated_at'', ''timestamptz'', False, False)],
       pg_constraints :=
         map (constraint_of ''profiles'')
           [(''profiles_pkey'', PrimaryKey ''id''),
            (''profiles_id_fkey'', ForeignKey ''id'' ''auth.users'' Cascade)],
       pg_proc := [(''handle_new_user'', RoleText)],
       pg_trigger := [(''on_auth_user_created'', ''auth.users'', ''handle_new_user'')]\<rparr>"

text \<open>
  The same store with the table and the function of the enum script, and an identity
  whose metadata names no role.
\<close>

definition signup_store_user_role :: db where
  "signup_store_user_role =
     fresh_project\<lparr>
       pg_type := [(''user_role'', [''admin'', ''user'', ''mitra''])],
       pg_class := [''auth.users'', ''profiles''],
       pg_attributes :=
         map (attribute_of ''profiles'')
           [(''id'', ''uuid'', True, False), (''full_name'', ''text'', False, False),
            (''role'', ''user_role'', False, True), (''updated_at'', ''timestamptz'', False, False)],
       pg_constraints :=
         map (constraint_of ''profiles'')
           [(''profiles_pkey'', PrimaryKey ''id''),
            (''profiles_id_fkey'', ForeignKey ''id'' ''auth.users'' Cascade)],
       pg_proc := [(''handle_new_user'', RoleCoalesceCast ''user_role'')],
       pg_trigger := [(''on_auth_user_created'', ''auth.users'', ''handle_new_user'')]\<rparr>"

definition nadia :: auth_user where
  "nadia = \<lparr>au_id = 3, raw_user_meta_data = [(''full_name'', ''Nadia'')]\<rparr>"


text \<open>
  The checks that the upsert keyed by name makes before it looks at the rows. A category
  of a given name is settled on a slug and an id when a row of that name exists, every
  row of that name has that id, every row of that id has that slug and, where the slug
  is a key, every row of that slug has that id. The table is keyed when \<open>id\<close> is a key
  and neither an id nor a name occurs twice. Last, the category seed steps that are
  keyed by slug.
\<close>

definition upsert_pre :: "db \<Rightarrow> category \<Rightarrow> sql_error option" where
  "upsert_pre d r =
     first_error [parse_error d ''categories'' [''name'', ''slug''],
                  if has_key_on d ''categories'' ''name'' then None else Some InvalidColumnReference,
                  not_null_error d ''categories'' [''name'', ''slug''] (category_col r)]"

definition settled :: "db \<Rightarrow> string \<Rightarrow> string \<Rightarrow> uuid \<Rightarrow> bool" where
  "settled d n s i \<longleftrightarrow>
     (\<exists>y \<in> set (categories d). c_name y = n) \<and>
     (\<forall>y \<in> set (categories d). c_name y = n \<longrightarrow> c_id y = i) \<and>
     (\<forall>y \<in> set (categories d). c_id y = i \<longrightarrow> c_slug y = s) \<and>
     (has_key_on d ''categories'' ''slug'' \<longrightarrow> (\<forall>y \<in> set (categories d). c_slug y = s \<longrightarrow> c_id y = i))"

definition keyed_categories :: "db \<Rightarrow> bool" where
  "keyed_categories d \<longleftrightarrow>
     has_key_on d ''categories'' ''id'' \<and> distinct (map c_id (categories d)) \<and>
     distinct (map c_name (categories d))"

definition slug_keyed_category_seeds :: "((nat \<Rightarrow> uuid) \<Rightarrow> stmt) list" where
  "slug_keyed_category_seeds =
     [m0002_seed_categories, m0006_seed_categories, m0007_seed_categories, user_role_seed_categories]"

text \<open>A product that an operator enters, which is not one of the seed.\<close>

definition operator_product :: product where
  "operator_product =
     \<lparr>pr_id = 51, pr_name = ''Vas Bunga Besar'', pr_description = None, pr_price = 75000,
      pr_image_urls = [], pr_stock = 3, pr_rating = Some 4, pr_category_id = None\<rparr>"

section \<open>Lemmas\<close>

lemma is_true_simps: "is_true (Some b) \<longleftrightarrow> b" "is_true None \<longleftrightarrow> False"
  by (simp_all add: is_true_def)

lemma is_true_sql_eq: "is_true (sql_eq a b) \<longleftrightarrow> a \<noteq> None \<and> a = b"
  by (cases a; cases b) (auto simp: is_true_def)

lemma is_true_sql_eq_left: "is_true (sql_eq (Some a) b) \<longleftrightarrow> Some a = b"
  by (cases b) (simp_all add: is_true_def)

lemma is_true_sql_eq_right: "is_true (sql_eq a (Some b)) \<longleftrightarrow> a = Some b"
  by (cases a) (simp_all add: is_true_def)

lemma permissive_or_truth:
  "(\<And>q. q \<in> set qs \<Longrightarrow> \<exists>v. q = Inr v \<and> (is_true v \<longleftrightarrow> g q)) \<Longrightarrow>
   permissive_or qs = Inr (\<exists>q \<in> set qs. g q)"
proof (induction qs rule: permissive_or.induct)
  case 1
  then show ?case by simp
next
  case (2 e qs)
  from "2.prems" [of "Inl e"] show ?case by simp
next
  case (3 v qs)
  have "permissive_or qs = Inr (\<exists>q \<in> set qs. g q)"
    by (rule "3.IH") (simp add: "3.prems")
  moreover from "3.prems" [of "Inr v"] have "is_true v \<longleftrightarrow> g (Inr v)" by simp
  ultimately show ?case by simp
qed

lemma visible_filter:
  "(\<And>r. r \<in> set rs \<Longrightarrow> chk r = Inr (f r)) \<Longrightarrow> visible chk rs = Inr (filter f rs)"
  by (induction rs) auto

lemma rls_check_truth:
  assumes rls: "t \<in> set (pg_rowsecurity d)"
    and ev: "\<And>q. q \<in> set (select_quals t d) \<Longrightarrow> \<exists>v. using_value ev q = Inr v \<and> (is_true v \<longleftrightarrow> g q)"
  shows "rls_check t d ev = Inr (\<exists>q \<in> set (select_quals t d). g q)"
proof -
  let ?qs = "map (using_value ev) (select_quals t d)"
  define h where "h = (\<lambda>x. \<exists>q \<in> set (select_quals t d). using_value ev q = x \<and> g q)"
  have "permissive_or ?qs = Inr (\<exists>x \<in> set ?qs. h x)"
  proof (rule permissive_or_truth)
    fix x assume "x \<in> set ?qs"
    then obtain q where q: "q \<in> set (select_quals t d)" and x: "x = using_value ev q" by auto
    from ev [OF q] obtain v where v: "using_value ev q = Inr v" "is_true v \<longleftrightarrow> g q" by blast
    have "h x \<longleftrightarrow> is_true v"
    proof
      assume "h x"
      then obtain q' where q': "q' \<in> set (select_quals t d)" "using_value ev q' = x" "g q'"
        by (auto simp: h_def)
      from ev [OF q'(1)] q'(2,3) x v(1) show "is_true v" by auto
    next
      assume "is_true v"
      with v q x show "h x" by (auto simp: h_def)
    qed
    with x v show "\<exists>v. x = Inr v \<and> (is_true v \<longleftrightarrow> h x)" by simp
  qed
  moreover have "(\<exists>x \<in> set ?qs. h x) \<longleftrightarrow> (\<exists>q \<in> set (select_quals t d). g q)"
    by (auto simp: h_def)
  moreover have "map (\<lambda>p. using_value ev (polqual p)) (select_policies t d) = ?qs"
    by (simp add: select_quals_def)
  ultimately show ?thesis using rls by (simp add: rls_check_def)
qed

lemma profile_visible_shape:
  assumes "owner_admin_shape d"
  shows "profile_visible d uid r =
     Inr (Some PTrue \<in> set (select_quals ''profiles'' d) \<or> uid = Some (p_id r))"
proof -
  have rls: "''profiles'' \<in> set (pg_rowsecurity d)"
    and own: "Some UidEqId \<in> set (select_quals ''profiles'' d)"
    and sub: "set (select_quals ''profiles'' d) \<subseteq> {Some PTrue, Some UidEqId}"
    using assms by (simp_all add: owner_admin_shape_def)
  define g where "g = (\<lambda>q. q = Some PTrue \<or> (q = Some UidEqId \<and> uid = Some (p_id r)))"
  have "rls_check ''profiles'' d (profiles_qual uid r) = Inr (\<exists>q \<in> set (select_quals ''profiles'' d). g q)"
  proof (rule rls_check_truth [OF rls])
    fix q assume "q \<in> set (select_quals ''profiles'' d)"
    with sub have "q = Some PTrue \<or> q = Some UidEqId" by auto
    then show "\<exists>v. using_value (profiles_qual uid r) q = Inr v \<and> (is_true v \<longleftrightarrow> g q)"
      by (auto simp: using_value_def g_def is_true_sql_eq is_true_simps)
  qed
  moreover have "(\<exists>q \<in> set (select_quals ''profiles'' d). g q) \<longleftrightarrow>
      (Some PTrue \<in> set (select_quals ''profiles'' d) \<or> uid = Some (p_id r))"
    using own by (auto simp: g_def)
  ultimately show ?thesis by (simp add: profile_visible_def)
qed

lemma visible_profiles_shape:
  assumes "owner_admin_shape d"
  shows "visible_profiles d uid =
     Inr (filter (\<lambda>r. Some PTrue \<in> set (select_quals ''profiles'' d) \<or> uid = Some (p_id r)) (profiles d))"
  unfolding visible_profiles_def
  by (rule visible_filter) (rule profile_visible_shape [OF assms])

lemma own_rows_visible:
  "filter (\<lambda>p. Some (k p) = uid) (filter (\<lambda>r. pub \<or> uid = Some (k r)) ps) =
   filter (\<lambda>p. Some (k p) = uid) ps"
  by (induction ps) auto

lemma distinct_filter_key:
  assumes "distinct (map k xs)"
  shows "filter (\<lambda>x. k x = a) xs = [] \<or> (\<exists>y \<in> set xs. k y = a \<and> filter (\<lambda>x. k x = a) xs = [y])"
  using assms
proof (induction xs)
  case Nil
  then show ?case by simp
next
  case (Cons x xs)
  show ?case
  proof (cases "k x = a")
    case True
    from Cons.prems have "k x \<notin> k ` set xs" by simp
    with True have "\<forall>y \<in> set xs. k y \<noteq> a" by blast
    then have "filter (\<lambda>x. k x = a) xs = []" by (simp add: filter_empty_conv)
    with True show ?thesis by simp
  next
    case False
    with Cons show ?thesis by auto
  qed
qed

lemma distinct_Some_key: "distinct (map k xs) \<Longrightarrow> distinct (map (\<lambda>x. Some (k x)) xs)"
  by (simp add: distinct_map inj_on_def)

lemma exists_admin_profile_truth:
  assumes own_set: "\<And>p. p \<in> set vp \<and> Some (p_id p) = uid \<longleftrightarrow> p \<in> set (profiles d) \<and> Some (p_id p) = uid"
  shows "is_true (exists_admin_profile vp uid) \<longleftrightarrow> is_admin d uid"
proof -
  have "is_true (exists_admin_profile vp uid) \<longleftrightarrow>
      (\<exists>p. (p \<in> set vp \<and> Some (p_id p) = uid) \<and> p_role p = Some ''admin'')"
    by (auto simp: exists_admin_profile_def is_true_sql_eq_left is_true_sql_eq_right is_true_simps)
  also have "\<dots> \<longleftrightarrow> is_admin d uid"
    unfolding own_set by (auto simp: is_admin_def)
  finally show ?thesis .
qed

lemma uid_in_admin_ids_truth:
  assumes own_set: "\<And>p. p \<in> set vp \<and> Some (p_id p) = uid \<longleftrightarrow> p \<in> set (profiles d) \<and> Some (p_id p) = uid"
  shows "is_true (uid_in_admin_ids vp uid) \<longleftrightarrow> is_admin d uid"
proof (cases uid)
  case None
  then show ?thesis
    by (auto simp: uid_in_admin_ids_def is_admin_def Let_def is_true_simps)
next
  case (Some u)
  let ?ids = "map p_id (filter (\<lambda>p. is_true (sql_eq (p_role p) (Some ''admin''))) vp)"
  have "is_true (uid_in_admin_ids vp uid) \<longleftrightarrow> u \<in> set ?ids"
    using Some by (cases "?ids = []") (simp_all add: uid_in_admin_ids_def Let_def is_true_simps)
  also have "\<dots> \<longleftrightarrow> (\<exists>p. (p \<in> set vp \<and> Some (p_id p) = uid) \<and> p_role p = Some ''admin'')"
    using Some by (auto simp: is_true_sql_eq_right)
  also have "\<dots> \<longleftrightarrow> is_admin d uid"
    unfolding own_set by (auto simp: is_admin_def)
  finally show ?thesis .
qed

lemma role_of_uid_is_admin_truth:
  assumes pk: "distinct (map p_id (profiles d))"
    and own: "filter (\<lambda>p. Some (p_id p) = uid) vp = filter (\<lambda>p. Some (p_id p) = uid) (profiles d)"
  shows "\<exists>v. role_of_uid_is_admin vp uid = Inr v \<and> (is_true v \<longleftrightarrow> is_admin d uid)"
proof -
  have sel: "filter (\<lambda>p. is_true (sql_eq (Some (p_id p)) uid)) vp = filter (\<lambda>p. Some (p_id p) = uid) (profiles d)"
    using own by (simp add: is_true_sql_eq_left)
  from distinct_filter_key [OF distinct_Some_key [OF pk], of uid]
  show ?thesis
  proof
    assume e: "filter (\<lambda>p. Some (p_id p) = uid) (profiles d) = []"
    then have "\<forall>p \<in> set (profiles d). Some (p_id p) \<noteq> uid"
      by (simp add: filter_empty_conv)
    then have "\<not> is_admin d uid"
      by (auto simp: is_admin_def)
    moreover have "role_of_uid_is_admin vp uid = Inr None"
      by (simp add: role_of_uid_is_admin_def sel e)
    ultimately show ?thesis by (simp add: is_true_simps)
  next
    assume "\<exists>y \<in> set (profiles d). Some (p_id y) = uid \<and> filter (\<lambda>p. Some (p_id p) = uid) (profiles d) = [y]"
    then obtain y where y: "y \<in> set (profiles d)" "Some (p_id y) = uid"
      and f: "filter (\<lambda>p. Some (p_id p) = uid) (profiles d) = [y]" by blast
    have one: "p = y" if "p \<in> set (profiles d)" "Some (p_id p) = uid" for p
    proof -
      from that have "p \<in> set (filter (\<lambda>p. Some (p_id p) = uid) (profiles d))" by simp
      then show "p = y" unfolding f by simp
    qed
    have "is_admin d uid \<longleftrightarrow> p_role y = Some ''admin''"
    proof
      assume "is_admin d uid"
      then obtain p where "p \<in> set (profiles d)" "Some (p_id p) = uid" "p_role p = Some ''admin''"
        unfolding is_admin_def by blast
      with one [of p] show "p_role y = Some ''admin''" by simp
    next
      assume "p_role y = Some ''admin''"
      with y show "is_admin d uid" unfolding is_admin_def by blast
    qed
    moreover have "role_of_uid_is_admin vp uid = Inr (sql_eq (p_role y) (Some ''admin''))"
      by (simp add: role_of_uid_is_admin_def sel f)
    ultimately show ?thesis by (simp add: is_true_sql_eq_right)
  qed
qed

lemma admin_qual_shape:
  assumes shape: "owner_admin_shape d"
    and pk: "distinct (map p_id (profiles d))"
    and e: "Some e \<in> admin_forms"
  shows "\<exists>v. admin_qual d uid e = Inr v \<and> (is_true v \<longleftrightarrow> is_admin d uid)"
proof -
  define pub where "pub = (Some PTrue \<in> set (select_quals ''profiles'' d))"
  define vp where "vp = filter (\<lambda>r. pub \<or> uid = Some (p_id r)) (profiles d)"
  have vis: "visible_profiles d uid = Inr vp"
    using visible_profiles_shape [OF shape] by (simp add: vp_def pub_def)
  have own: "filter (\<lambda>p. Some (p_id p) = uid) vp = filter (\<lambda>p. Some (p_id p) = uid) (profiles d)"
    unfolding vp_def by (rule own_rows_visible)
  have own_set: "\<And>p. p \<in> set vp \<and> Some (p_id p) = uid \<longleftrightarrow> p \<in> set (profiles d) \<and> Some (p_id p) = uid"
    by (auto simp: vp_def)
  from e consider "e = ExistsAdminProfile" | "e = RoleOfUidIsAdmin" | "e = UidInAdminIds"
    by (auto simp: admin_forms_def)
  then show ?thesis
  proof cases
    case 1
    with vis exists_admin_profile_truth [of vp uid d, OF own_set] show ?thesis
      by (simp add: admin_qual_def)
  next
    case 2
    with vis role_of_uid_is_admin_truth [OF pk own] show ?thesis
      by (simp add: admin_qual_def)
  next
    case 3
    with vis uid_in_admin_ids_truth [of vp uid d, OF own_set] show ?thesis
      by (simp add: admin_qual_def)
  qed
qed

lemma order_visible_shape:
  assumes shape: "owner_admin_shape d"
    and pk: "distinct (map p_id (profiles d))"
  shows "order_visible d uid r = Inr (owns uid r \<or> is_admin d uid)"
proof -
  have rls: "''orders'' \<in> set (pg_rowsecurity d)"
    and own: "Some UidEqUserId \<in> set (select_quals ''orders'' d)"
    and adm: "set (select_quals ''orders'' d) \<inter> admin_forms \<noteq> {}"
    and sub: "set (select_quals ''orders'' d) \<subseteq> insert (Some UidEqUserId) admin_forms"
    using shape by (simp_all add: owner_admin_shape_def)
  define g where "g = (\<lambda>q. (q = Some UidEqUserId \<and> owns uid r) \<or> (q \<in> admin_forms \<and> is_admin d uid))"
  have "rls_check ''orders'' d (orders_qual d uid r) = Inr (\<exists>q \<in> set (select_quals ''orders'' d). g q)"
  proof (rule rls_check_truth [OF rls])
    fix q assume "q \<in> set (select_quals ''orders'' d)"
    with sub have "q = Some UidEqUserId \<or> q \<in> admin_forms" by auto
    then show "\<exists>v. using_value (orders_qual d uid r) q = Inr v \<and> (is_true v \<longleftrightarrow> g q)"
    proof
      assume "q = Some UidEqUserId"
      then show ?thesis
        by (auto simp: using_value_def g_def owns_def is_true_sql_eq admin_forms_def)
    next
      assume q: "q \<in> admin_forms"
      then obtain e where e: "q = Some e" by (auto simp: admin_forms_def)
      with q have "orders_qual d uid r e = admin_qual d uid e"
        by (auto simp: admin_forms_def)
      moreover from admin_qual_shape [OF shape pk, of e uid] q e
      obtain v where "admin_qual d uid e = Inr v" "is_true v \<longleftrightarrow> is_admin d uid" by auto
      moreover from q have "g q \<longleftrightarrow> is_admin d uid"
        by (auto simp: g_def admin_forms_def)
      ultimately show ?thesis using e by (simp add: using_value_def)
    qed
  qed
  moreover have "(\<exists>q \<in> set (select_quals ''orders'' d). g q) \<longleftrightarrow> (owns uid r \<or> is_admin d uid)"
    using own adm by (auto simp: g_def)
  ultimately show ?thesis by (simp add: order_visible_def)
qed

lemma visible_orders_shape:
  assumes "owner_admin_shape d" and "distinct (map p_id (profiles d))"
  shows "visible_orders d uid = Inr (filter (\<lambda>r. owns uid r \<or> is_admin d uid) (orders d))"
  unfolding visible_orders_def
  by (rule visible_filter) (rule order_visible_shape [OF assms])

lemma exists_own_parent_order_truth:
  "is_true (exists_own_parent_order (filter (\<lambda>r. owns uid r \<or> adm) (orders d)) uid r) \<longleftrightarrow> owns_parent d uid r"
  by (auto simp: exists_own_parent_order_def owns_parent_def owns_def is_true_simps
        is_true_sql_eq_left is_true_sql_eq)

lemma parent_order_user_is_uid_truth:
  assumes pk: "distinct (map o_id (orders d))"
  shows "\<exists>v. parent_order_user_is_uid (filter (\<lambda>r. owns uid r \<or> adm) (orders d)) uid r = Inr v
     \<and> (is_true v \<longleftrightarrow> owns_parent d uid r)"
proof -
  define vo where "vo = filter (\<lambda>r. owns uid r \<or> adm) (orders d)"
  have dv: "distinct (map (\<lambda>p. Some (o_id p)) vo)"
    unfolding vo_def by (rule distinct_Some_key) (simp add: pk distinct_map_filter)
  have sel: "filter (\<lambda>p. is_true (sql_eq (Some (o_id p)) (oi_order_id r))) vo =
      filter (\<lambda>p. Some (o_id p) = oi_order_id r) vo"
    by (simp add: is_true_sql_eq_left)
  have vis: "p \<in> set vo" if "p \<in> set (orders d)" "owns uid p" for p
    using that by (simp add: vo_def)
  from distinct_filter_key [OF dv, of "oi_order_id r"]
  have "\<exists>v. parent_order_user_is_uid vo uid r = Inr v \<and> (is_true v \<longleftrightarrow> owns_parent d uid r)"
  proof
    assume e: "filter (\<lambda>p. Some (o_id p) = oi_order_id r) vo = []"
    then have none: "\<forall>p \<in> set vo. Some (o_id p) \<noteq> oi_order_id r"
      by (simp add: filter_empty_conv)
    have "\<not> owns_parent d uid r"
    proof
      assume "owns_parent d uid r"
      then obtain p where p: "p \<in> set (orders d)" "Some (o_id p) = oi_order_id r" "owns uid p"
        unfolding owns_parent_def by blast
      with vis [of p] none show False by blast
    qed
    moreover have "parent_order_user_is_uid vo uid r = Inr None"
      by (simp add: parent_order_user_is_uid_def sel e)
    ultimately show ?thesis by (simp add: is_true_simps)
  next
    assume "\<exists>y \<in> set vo. Some (o_id y) = oi_order_id r \<and> filter (\<lambda>p. Some (o_id p) = oi_order_id r) vo = [y]"
    then obtain y where y: "y \<in> set vo" "Some (o_id y) = oi_order_id r"
      and f: "filter (\<lambda>p. Some (o_id p) = oi_order_id r) vo = [y]" by blast
    have one: "p = y" if "p \<in> set vo" "Some (o_id p) = oi_order_id r" for p
    proof -
      from that have "p \<in> set (filter (\<lambda>p. Some (o_id p) = oi_order_id r) vo)" by simp
      then show "p = y" unfolding f by simp
    qed
    have yo: "y \<in> set (orders d)" using y(1) by (simp add: vo_def)
    have "owns_parent d uid r \<longleftrightarrow> owns uid y"
    proof
      assume "owns_parent d uid r"
      then obtain p where p: "p \<in> set (orders d)" "Some (o_id p) = oi_order_id r" "owns uid p"
        unfolding owns_parent_def by blast
      with vis [of p] one [of p] show "owns uid y" by simp
    next
      assume "owns uid y"
      with yo y(2) show "owns_parent d uid r" unfolding owns_parent_def by blast
    qed
    moreover have "parent_order_user_is_uid vo uid r = Inr (sql_eq (o_user_id y) uid)"
      by (simp add: parent_order_user_is_uid_def sel f)
    ultimately show ?thesis by (auto simp: is_true_sql_eq owns_def)
  qed
  then show ?thesis by (simp add: vo_def)
qed

lemma order_item_visible_shape:
  assumes shape: "owner_admin_shape d"
    and pk: "distinct (map p_id (profiles d))"
    and ok: "distinct (map o_id (orders d))"
  shows "order_item_visible d uid r = Inr (owns_parent d uid r \<or> is_admin d uid)"
proof -
  have rls: "''order_items'' \<in> set (pg_rowsecurity d)"
    and par: "set (select_quals ''order_items'' d) \<inter> parent_forms \<noteq> {}"
    and adm: "set (select_quals ''order_items'' d) \<inter> admin_forms \<noteq> {}"
    and sub: "set (select_quals ''order_items'' d) \<subseteq> parent_forms \<union> admin_forms"
    using shape by (simp_all add: owner_admin_shape_def)
  have vis: "visible_orders d uid = Inr (filter (\<lambda>r. owns uid r \<or> is_admin d uid) (orders d))"
    by (rule visible_orders_shape [OF shape pk])
  define g where "g = (\<lambda>q. (q \<in> parent_forms \<and> owns_parent d uid r) \<or> (q \<in> admin_forms \<and> is_admin d uid))"
  have disj: "parent_forms \<inter> admin_forms = {}"
    by (simp add: parent_forms_def admin_forms_def)
  have "rls_check ''order_items'' d (order_items_qual d uid r) =
      Inr (\<exists>q \<in> set (select_quals ''order_items'' d). g q)"
  proof (rule rls_check_truth [OF rls])
    fix q assume "q \<in> set (select_quals ''order_items'' d)"
    with sub have "q \<in> parent_forms \<or> q \<in> admin_forms" by auto
    then show "\<exists>v. using_value (order_items_qual d uid r) q = Inr v \<and> (is_true v \<longleftrightarrow> g q)"
    proof
      assume q: "q \<in> parent_forms"
      with disj have gq: "g q \<longleftrightarrow> owns_parent d uid r" by (auto simp: g_def)
      from q consider "q = Some ExistsOwnParentOrder" | "q = Some ParentOrderUserIsUid"
        by (auto simp: parent_forms_def)
      then show ?thesis
      proof cases
        case 1
        with vis gq exists_own_parent_order_truth [of uid "is_admin d uid" d r] show ?thesis
          by (simp add: using_value_def parent_qual_def)
      next
        case 2
        with vis gq parent_order_user_is_uid_truth [OF ok, of uid "is_admin d uid" r] show ?thesis
          by (simp add: using_value_def parent_qual_def)
      qed
    next
      assume q: "q \<in> admin_forms"
      then obtain e where e: "q = Some e" by (auto simp: admin_forms_def)
      with q have "order_items_qual d uid r e = admin_qual d uid e"
        by (auto simp: admin_forms_def)
      moreover from admin_qual_shape [OF shape pk, of e uid] q e
      obtain v where "admin_qual d uid e = Inr v" "is_true v \<longleftrightarrow> is_admin d uid" by auto
      moreover from q disj have "g q \<longleftrightarrow> is_admin d uid"
        by (auto simp: g_def)
      ultimately show ?thesis using e by (simp add: using_value_def)
    qed
  qed
  moreover have "(\<exists>q \<in> set (select_quals ''order_items'' d). g q) \<longleftrightarrow> (owns_parent d uid r \<or> is_admin d uid)"
    using par adm by (auto simp: g_def)
  ultimately show ?thesis by (simp add: order_item_visible_def)
qed

lemma run_script_append:
  "run_script (a @ b) d = (case run_script a d of Inl e \<Rightarrow> Inl e | Inr d' \<Rightarrow> run_script b d')"
  by (induction a arbitrary: d) (auto split: sum.splits)

lemma run_enable_rls:
  "run_script (map enable_row_level_security ts) d = Inr d' \<Longrightarrow>
   set ts \<subseteq> set (pg_class d) \<and> set ts \<subseteq> set (pg_rowsecurity d') \<and>
   set (pg_rowsecurity d) \<subseteq> set (pg_rowsecurity d') \<and>
   d' = d\<lparr>pg_rowsecurity := pg_rowsecurity d'\<rparr>"
proof (induction ts arbitrary: d)
  case Nil
  then show ?case by simp
next
  case (Cons t ts)
  from Cons.prems obtain d1 where s: "enable_row_level_security t d = Inr d1"
    and r: "run_script (map enable_row_level_security ts) d1 = Inr d'"
    by (auto split: sum.splits)
  from s have t: "t \<in> set (pg_class d)" "t \<in> set (pg_rowsecurity d1)"
    "set (pg_rowsecurity d) \<subseteq> set (pg_rowsecurity d1)" "d1 = d\<lparr>pg_rowsecurity := pg_rowsecurity d1\<rparr>"
    by (auto simp: enable_row_level_security_def split: if_splits)
  from Cons.IH [OF r] have i: "set ts \<subseteq> set (pg_class d1)" "set ts \<subseteq> set (pg_rowsecurity d')"
    "set (pg_rowsecurity d1) \<subseteq> set (pg_rowsecurity d')" "d' = d1\<lparr>pg_rowsecurity := pg_rowsecurity d'\<rparr>"
    by simp_all
  have "pg_class d1 = pg_class d" by (subst t(4)) simp
  moreover have "d' = d\<lparr>pg_rowsecurity := pg_rowsecurity d'\<rparr>"
    by (subst i(4), subst t(4)) simp
  ultimately show ?case using t i by auto
qed

lemma run_drop_policies:
  "run_script (map (\<lambda>k. drop_policy_if_exists (fst k) (snd k)) ks) d =
   Inr (d\<lparr>pg_policies := filter (\<lambda>p. policy_key p \<notin> set ks) (pg_policies d)\<rparr>)"
proof (induction ks arbitrary: d)
  case Nil
  then show ?case by simp
next
  case (Cons k ks)
  let ?d1 = "d\<lparr>pg_policies := filter (\<lambda>p. policy_key p \<noteq> k) (pg_policies d)\<rparr>"
  have "filter (\<lambda>p. \<not> (polname p = fst k \<and> polrelid p = snd k)) (pg_policies d) =
      filter (\<lambda>p. policy_key p \<noteq> k) (pg_policies d)"
    by (rule filter_cong) (auto simp: policy_key_def)
  then have step: "drop_policy_if_exists (fst k) (snd k) d = Inr ?d1"
    by (simp add: drop_policy_if_exists_def)
  have "run_script (map (\<lambda>k. drop_policy_if_exists (fst k) (snd k)) (k # ks)) d =
      run_script (map (\<lambda>k. drop_policy_if_exists (fst k) (snd k)) ks) ?d1"
    by (simp add: step)
  also have "\<dots> = Inr (?d1\<lparr>pg_policies := filter (\<lambda>p. policy_key p \<notin> set ks) (pg_policies ?d1)\<rparr>)"
    by (rule Cons.IH)
  also have "?d1\<lparr>pg_policies := filter (\<lambda>p. policy_key p \<notin> set ks) (pg_policies ?d1)\<rparr> =
      d\<lparr>pg_policies := filter (\<lambda>p. policy_key p \<notin> set (k # ks)) (pg_policies d)\<rparr>"
    by simp
  finally show ?case .
qed

lemma run_create_policies:
  assumes "\<forall>p \<in> set ps. polrelid p \<in> set (pg_class d)"
    and "distinct (map policy_key ps)"
    and "\<forall>p \<in> set ps. \<forall>q \<in> set (pg_policies d). policy_key q \<noteq> policy_key p"
  shows "run_script (map create_policy_row ps) d = Inr (d\<lparr>pg_policies := pg_policies d @ ps\<rparr>)"
  using assms
proof (induction ps arbitrary: d)
  case Nil
  then show ?case by simp
next
  case (Cons p ps)
  let ?d1 = "d\<lparr>pg_policies := pg_policies d @ [p]\<rparr>"
  have absent: "\<not> (\<exists>q \<in> set (pg_policies d). polname q = polname p \<and> polrelid q = polrelid p)"
    using Cons.prems(3) by (auto simp: policy_key_def)
  have step: "create_policy_row p d = Inr ?d1"
    using Cons.prems(1) absent by (simp add: create_policy_row_def create_policy_def)
  have fresh: "policy_key p \<noteq> policy_key q" if "q \<in> set ps" for q
  proof
    assume "policy_key p = policy_key q"
    with that have "policy_key p \<in> set (map policy_key ps)" by (metis imageI set_map)
    with Cons.prems(2) show False by simp
  qed
  have "run_script (map create_policy_row ps) ?d1 = Inr (?d1\<lparr>pg_policies := pg_policies ?d1 @ ps\<rparr>)"
  proof (rule Cons.IH)
    show "\<forall>q \<in> set ps. polrelid q \<in> set (pg_class ?d1)" using Cons.prems(1) by simp
    show "distinct (map policy_key ps)" using Cons.prems(2) by simp
    show "\<forall>q \<in> set ps. \<forall>r \<in> set (pg_policies ?d1). policy_key r \<noteq> policy_key q"
      using Cons.prems(3) fresh by auto
  qed
  with step show ?case by simp
qed

lemma create_policy_row_pol: "create_policy_row (pol n t c q w) = create_policy n t c q w"
  by (simp add: create_policy_row_def pol_def)

lemma pol_sel: "polname (pol n t c q w) = n" "polrelid (pol n t c q w) = t" "polcmd (pol n t c q w) = c"
  "polqual (pol n t c q w) = q" "policy_key (pol n t c q w) = (n, t)"
  by (simp_all add: pol_def policy_key_def)

lemma m0009_enable_rls_map: "m0009_enable_rls = map enable_row_level_security m0009_tables"
  by (simp add: m0009_enable_rls_def m0009_tables_def)

lemma m0009_drop_policies_map:
  "m0009_drop_policies = map (\<lambda>k. drop_policy_if_exists (fst k) (snd k)) m0009_policy_names"
  by (simp add: m0009_drop_policies_def m0009_policy_names_def)

lemma m0009_create_policies_map: "m0009_create_policies = map create_policy_row m0009_policies"
  by (simp add: m0009_create_policies_def m0009_policies_def create_policy_row_pol)

lemma m0009_policies_keys: "map policy_key m0009_policies =
   [(''Users can view their own profile.'', ''profiles''),
     (''Users can update their own profile.'', ''profiles''),
     (''Public can view all categories.'', ''categories''),
     (''Admins can manage categories.'', ''categories''),
     (''Public can view all products.'', ''products''),
     (''Admins can manage products.'', ''products''),
     (''Users can view their own orders.'', ''orders''),
     (''Users can create new orders.'', ''orders''),
     (''Admins can manage all orders.'', ''orders''),
     (''Users can view their own order items.'', ''order_items''),
     (''Users can create new order items.'', ''order_items''),
     (''Admins can manage all order items.'', ''order_items''),
     (''Public can view all reviews.'', ''reviews''),
     (''Users can create reviews.'', ''reviews''),
     (''Users can manage their own reviews.'', ''reviews''),
     (''Users can delete their own reviews.'', ''reviews''),
     (''Admins can manage all reviews.'', ''reviews'')]"
  by (simp add: m0009_policies_def pol_sel)

lemma m0009_policies_distinct: "distinct (map policy_key m0009_policies)"
  unfolding m0009_policies_keys by simp

lemma m0009_policies_dropped: "set (map policy_key m0009_policies) \<subseteq> set m0009_policy_names"
  unfolding m0009_policies_keys by (simp add: m0009_policy_names_def)

lemma m0009_policies_tables: "\<forall>p \<in> set m0009_policies. polrelid p \<in> set m0009_tables"
  by (simp add: m0009_policies_def m0009_tables_def pol_sel)

lemma migration_0009_effect:
  assumes "run_script migration_0009 d0 = Inr d"
  shows "d = d0\<lparr>pg_rowsecurity := pg_rowsecurity d,
             pg_policies := filter (\<lambda>p. policy_key p \<notin> set m0009_policy_names) (pg_policies d0) @ m0009_policies\<rparr>"
    and "set m0009_tables \<subseteq> set (pg_rowsecurity d)"
proof -
  from assms obtain d1 where s1: "run_script m0009_enable_rls d0 = Inr d1"
    and r1: "run_script (m0009_drop_policies @ m0009_create_policies) d1 = Inr d"
    by (auto simp: migration_0009_def run_script_append split: sum.splits)
  from run_enable_rls [OF s1 [unfolded m0009_enable_rls_map]]
  have t: "set m0009_tables \<subseteq> set (pg_class d0)" "set m0009_tables \<subseteq> set (pg_rowsecurity d1)"
    and d1: "d1 = d0\<lparr>pg_rowsecurity := pg_rowsecurity d1\<rparr>" by simp_all
  let ?ks = "filter (\<lambda>p. policy_key p \<notin> set m0009_policy_names) (pg_policies d1)"
  let ?d2 = "d1\<lparr>pg_policies := ?ks\<rparr>"
  have s2: "run_script m0009_drop_policies d1 = Inr ?d2"
    unfolding m0009_drop_policies_map by (rule run_drop_policies)
  have cls: "pg_class d1 = pg_class d0" by (subst d1) simp
  have pls: "pg_policies d1 = pg_policies d0" by (subst d1) simp
  have s3: "run_script m0009_create_policies ?d2 = Inr (?d2\<lparr>pg_policies := pg_policies ?d2 @ m0009_policies\<rparr>)"
    unfolding m0009_create_policies_map
  proof (rule run_create_policies)
    show "\<forall>p \<in> set m0009_policies. polrelid p \<in> set (pg_class ?d2)"
      using m0009_policies_tables t(1) cls by auto
    show "distinct (map policy_key m0009_policies)" by (rule m0009_policies_distinct)
    show "\<forall>p \<in> set m0009_policies. \<forall>q \<in> set (pg_policies ?d2). policy_key q \<noteq> policy_key p"
    proof (intro ballI notI)
      fix p q assume p: "p \<in> set m0009_policies" and q: "q \<in> set (pg_policies ?d2)"
        and e: "policy_key q = policy_key p"
      from p m0009_policies_dropped have "policy_key p \<in> set m0009_policy_names" by auto
      moreover from q have "policy_key q \<notin> set m0009_policy_names" by simp
      ultimately show False using e by simp
    qed
  qed
  from r1 s2 s3 have d: "d = ?d2\<lparr>pg_policies := pg_policies ?d2 @ m0009_policies\<rparr>"
    by (simp add: run_script_append)
  have rs: "pg_rowsecurity d = pg_rowsecurity d1" by (subst d) simp
  show "d = d0\<lparr>pg_rowsecurity := pg_rowsecurity d,
             pg_policies := filter (\<lambda>p. policy_key p \<notin> set m0009_policy_names) (pg_policies d0) @ m0009_policies\<rparr>"
    unfolding rs by (subst d, subst (1 2) d1) (simp add: pls)
  show "set m0009_tables \<subseteq> set (pg_rowsecurity d)"
    using t(2) rs by simp
qed

lemma m0009_select_quals:
  "map polqual (filter (\<lambda>p. polrelid p = ''profiles'' \<and> (polcmd p = ForAll \<or> polcmd p = ForSelect)) m0009_policies)
     = [Some UidEqId]"
  "map polqual (filter (\<lambda>p. polrelid p = ''orders'' \<and> (polcmd p = ForAll \<or> polcmd p = ForSelect)) m0009_policies)
     = [Some UidEqUserId, Some ExistsAdminProfile]"
  "map polqual (filter (\<lambda>p. polrelid p = ''order_items'' \<and> (polcmd p = ForAll \<or> polcmd p = ForSelect)) m0009_policies)
     = [Some ExistsOwnParentOrder, Some ExistsAdminProfile]"
  by (simp_all add: m0009_policies_def pol_sel)

lemma migration_0009_shape:
  assumes run: "run_script migration_0009 d0 = Inr d"
    and ok: "earlier_policies_ok d0"
  shows "owner_admin_shape d"
proof -
  define ks where "ks = filter (\<lambda>p. policy_key p \<notin> set m0009_policy_names) (pg_policies d0)"
  have pols: "pg_policies d = ks @ m0009_policies"
    by (subst migration_0009_effect(1) [OF run]) (simp add: ks_def)
  have rls: "''profiles'' \<in> set (pg_rowsecurity d)" "''orders'' \<in> set (pg_rowsecurity d)"
    "''order_items'' \<in> set (pg_rowsecurity d)"
    using migration_0009_effect(2) [OF run] by (simp_all add: m0009_tables_def)
  have old: "polqual p \<in> {Some PTrue, Some UidEqId}"
    if "p \<in> set ks" "polrelid p = ''profiles''" "polcmd p = ForAll \<or> polcmd p = ForSelect" for p
    using that ok by (auto simp: ks_def earlier_policies_ok_def)
  have old_o: "polqual p \<in> insert (Some UidEqUserId) admin_forms"
    if "p \<in> set ks" "polrelid p = ''orders''" "polcmd p = ForAll \<or> polcmd p = ForSelect" for p
    using that ok by (auto simp: ks_def earlier_policies_ok_def)
  have old_i: "polqual p \<in> parent_forms \<union> admin_forms"
    if "p \<in> set ks" "polrelid p = ''order_items''" "polcmd p = ForAll \<or> polcmd p = ForSelect" for p
    using that ok by (auto simp: ks_def earlier_policies_ok_def)
  have p: "set (select_quals ''profiles'' d) =
      polqual ` {p \<in> set ks. polrelid p = ''profiles'' \<and> (polcmd p = ForAll \<or> polcmd p = ForSelect)} \<union> {Some UidEqId}"
    by (simp add: select_quals_def select_policies_def pols m0009_select_quals Un_commute)
  have o: "set (select_quals ''orders'' d) =
      polqual ` {p \<in> set ks. polrelid p = ''orders'' \<and> (polcmd p = ForAll \<or> polcmd p = ForSelect)}
        \<union> {Some UidEqUserId, Some ExistsAdminProfile}"
    by (simp add: select_quals_def select_policies_def pols m0009_select_quals Un_commute)
  have i: "set (select_quals ''order_items'' d) =
      polqual ` {p \<in> set ks. polrelid p = ''order_items'' \<and> (polcmd p = ForAll \<or> polcmd p = ForSelect)}
        \<union> {Some ExistsOwnParentOrder, Some ExistsAdminProfile}"
    by (simp add: select_quals_def select_policies_def pols m0009_select_quals Un_commute)
  have "Some UidEqId \<in> set (select_quals ''profiles'' d)" unfolding p by simp
  moreover have "set (select_quals ''profiles'' d) \<subseteq> {Some PTrue, Some UidEqId}"
    unfolding p using old by auto
  moreover have "Some UidEqUserId \<in> set (select_quals ''orders'' d)" unfolding o by simp
  moreover have "Some ExistsAdminProfile \<in> set (select_quals ''orders'' d) \<inter> admin_forms"
    unfolding o by (simp add: admin_forms_def)
  then have "set (select_quals ''orders'' d) \<inter> admin_forms \<noteq> {}" by blast
  moreover have "set (select_quals ''orders'' d) \<subseteq> insert (Some UidEqUserId) admin_forms"
    unfolding o using old_o by (auto simp: admin_forms_def)
  moreover have "Some ExistsOwnParentOrder \<in> set (select_quals ''order_items'' d) \<inter> parent_forms"
    unfolding i by (simp add: parent_forms_def)
  then have "set (select_quals ''order_items'' d) \<inter> parent_forms \<noteq> {}" by blast
  moreover have "Some ExistsAdminProfile \<in> set (select_quals ''order_items'' d) \<inter> admin_forms"
    unfolding i by (simp add: admin_forms_def)
  then have "set (select_quals ''order_items'' d) \<inter> admin_forms \<noteq> {}" by blast
  moreover have "set (select_quals ''order_items'' d) \<subseteq> parent_forms \<union> admin_forms"
    unfolding i using old_i by (auto simp: admin_forms_def parent_forms_def)
  ultimately show ?thesis using rls by (simp add: owner_admin_shape_def)
qed

lemma migration_0009_rows:
  assumes "run_script migration_0009 d0 = Inr d"
  shows "profiles d = profiles d0" "orders d = orders d0" "order_items d = order_items d0"
  by (subst migration_0009_effect(1) [OF assms], simp)+

lemma is_admin_profile:
  assumes "distinct (map p_id (profiles d))" and "P \<in> set (profiles d)"
  shows "is_admin d (Some (p_id P)) \<longleftrightarrow> p_role P = Some ''admin''"
proof
  assume "is_admin d (Some (p_id P))"
  then obtain p where p: "p \<in> set (profiles d)" "p_id p = p_id P" "p_role p = Some ''admin''"
    by (auto simp: is_admin_def)
  from assms p(1,2) have "p = P" by (simp add: inj_on_def distinct_map)
  with p(3) show "p_role P = Some ''admin''" by simp
next
  assume "p_role P = Some ''admin''"
  with assms(2) show "is_admin d (Some (p_id P))" by (auto simp: is_admin_def)
qed

lemma owns_parent_order:
  assumes "distinct (map o_id (orders d))" and "ord \<in> set (orders d)" and "oi_order_id item = Some (o_id ord)"
  shows "owns_parent d uid item \<longleftrightarrow> owns uid ord"
proof
  assume "owns_parent d uid item"
  then obtain p where p: "p \<in> set (orders d)" "o_id p = o_id ord" "owns uid p"
    using assms(3) by (auto simp: owns_parent_def)
  from assms(1,2) p(1,2) have "p = ord" by (simp add: inj_on_def distinct_map)
  with p(3) show "owns uid ord" by simp
next
  assume "owns uid ord"
  with assms(2,3) show "owns_parent d uid item" by (auto simp: owns_parent_def)
qed

lemma shop_run_0009: "run_script migration_0009 shop = Inr shop_after_0009"
  by (simp add: migration_0009_def m0009_enable_rls_def m0009_drop_policies_def m0009_create_policies_def
      enable_row_level_security_def drop_policy_if_exists_def create_policy_def
      shop_def shop_after_0009_def m0009_policies_def pol_def)

lemma shop_earlier_policies_ok: "earlier_policies_ok shop"
  by (simp add: earlier_policies_ok_def shop_def pol_def admin_forms_def parent_forms_def)

lemma shop_after_0009_rows:
  "profiles shop_after_0009 = shop_profiles" "orders shop_after_0009 = [shop_order]"
  "order_items shop_after_0009 = [shop_item]"
  by (simp_all add: shop_after_0009_def shop_def)

lemma handle_new_user_text:
  assumes tab: "profiles_table_0007 d"
    and fresh: "au_id new \<notin> p_id ` set (profiles d)"
    and user: "au_id new \<in> au_id ` set (auth_users d)"
  shows "handle_new_user RoleText new d =
     Inr (store_profile (new_profile new (json_text (raw_user_meta_data new) ''role'')) d)"
proof -
  let ?r = "new_profile new (json_text (raw_user_meta_data new) ''role'')"
  from tab have cls: "''profiles'' \<in> set (pg_class d)"
    and att: "table_attributes d ''profiles'' =
       map (attribute_of ''profiles'')
         [(''id'', ''uuid'', True, False), (''full_name'', ''text'', False, False),
          (''role'', ''text'', False, True), (''updated_at'', ''timestamptz'', False, False)]"
    and con: "table_constraints d ''profiles'' =
       map (constraint_of ''profiles'')
         [(''profiles_pkey'', PrimaryKey ''id''),
          (''profiles_id_fkey'', ForeignKey ''id'' ''auth.users'' Cascade)]"
    and ty: "''text'' \<notin> fst ` set (pg_type d)"
    by (simp_all add: profiles_table_0007_def)
  have rv: "role_value d RoleText (json_text (raw_user_meta_data new) ''role'') =
      Inr (json_text (raw_user_meta_data new) ''role'')"
    using ty by (simp add: role_value_def column_type_def att attribute_of_def)
  have p: "parse_error d ''profiles'' [''id'', ''full_name'', ''role''] = None"
    using cls by (simp add: parse_error_def has_column_def att attribute_of_def)
  have n: "not_null_error d ''profiles'' [''id'', ''full_name'', ''role''] (profile_col ?r) = None"
    by (simp add: not_null_error_def att attribute_of_def profile_col_def)
  have "Some (Uuid (au_id new)) \<notin> set (column_values d ''profiles'' ''id'')"
    using fresh by (auto simp: column_values_def profile_col_def)
  then have k: "key_error d ''profiles'' (profile_col ?r) = None"
    by (simp add: key_error_def con constraint_of_def profile_col_def new_profile_def)
  have "Some (Uuid (au_id new)) \<in> set (column_values d ''auth.users'' ''id'')"
    using user by (auto simp: column_values_def auth_user_col_def)
  then have f: "reference_error d ''profiles'' (profile_col ?r) = None"
    by (simp add: reference_error_def con constraint_of_def profile_col_def new_profile_def)
  show ?thesis
    by (simp add: handle_new_user_def rv insert_row_def p n [unfolded new_profile_def]
        k [unfolded new_profile_def] f [unfolded new_profile_def] new_profile_def Let_def)
qed

lemma create_identity_text:
  assumes tab: "profiles_table_0007 d"
    and trg: "new_user_trigger_0007 d"
    and new: "au_id new \<notin> au_id ` set (auth_users d)"
    and fk: "p_id ` set (profiles d) \<subseteq> au_id ` set (auth_users d)"
  shows "create_identity new d =
     Inr (d\<lparr>auth_users := auth_users d @ [new],
            profiles := profiles d @ [new_profile new (json_text (raw_user_meta_data new) ''role'')]\<rparr>)"
proof -
  let ?d1 = "d\<lparr>auth_users := auth_users d @ [new]\<rparr>"
  have tab1: "profiles_table_0007 ?d1"
    using tab by (simp add: profiles_table_0007_def table_attributes_def table_constraints_def)
  have "handle_new_user RoleText new ?d1 =
      Inr (store_profile (new_profile new (json_text (raw_user_meta_data new) ''role'')) ?d1)"
  proof (rule handle_new_user_text [OF tab1])
    show "au_id new \<notin> p_id ` set (profiles ?d1)" using new fk by auto
    show "au_id new \<in> au_id ` set (auth_users ?d1)" by simp
  qed
  moreover from trg have "filter (\<lambda>g. fst (snd g) = ''auth.users'') (pg_trigger d) =
       [(''on_auth_user_created'', ''auth.users'', ''handle_new_user'')]"
    and "map_of (pg_proc d) ''handle_new_user'' = Some RoleText"
    by (simp_all add: new_user_trigger_0007_def)
  ultimately show ?thesis
    using new by (simp add: create_identity_def fire_trigger_def store_profile_def)
qed

lemma same_schema_refl: "same_schema d d"
  by (simp add: same_schema_def)

lemma same_schema_trans: "same_schema d d' \<Longrightarrow> same_schema d' d'' \<Longrightarrow> same_schema d d''"
  by (simp add: same_schema_def)

lemma do_nothing_unfold:
  "insert_row_on_conflict_do_nothing t c cols row store d =
     (case conflict_pre d t c cols row of
        Some e \<Rightarrow> Inl e
      | None \<Rightarrow> (if conflicts d t c row then Inr d else insert_row t cols row store d))"
  by (simp only: insert_row_on_conflict_do_nothing_def conflict_pre_def conflicts_def)

lemma insert_row_Inr: "insert_row t cols row store d = Inr d' \<Longrightarrow> d' = store d"
  by (simp add: insert_row_def split: option.splits)

lemma do_nothing_Inr:
  assumes "insert_row_on_conflict_do_nothing t c cols row store d = Inr d'"
  shows "conflict_pre d t c cols row = None"
    and "(conflicts d t c row \<and> d' = d) \<or> (\<not> conflicts d t c row \<and> d' = store d)"
  using assms by (auto simp: do_nothing_unfold split: option.splits if_splits dest: insert_row_Inr)

lemma do_nothing_skip:
  "conflict_pre d t c cols row = None \<Longrightarrow> conflicts d t c row \<Longrightarrow>
   insert_row_on_conflict_do_nothing t c cols row store d = Inr d"
  by (simp add: do_nothing_unfold)


lemma conflict_pre_same_schema:
  assumes "same_schema d d'" and "\<forall>x \<in> set cols. row' x = row x"
  shows "conflict_pre d' t c cols row' = conflict_pre d t c cols row"
proof -
  from assms(1) have a: "table_attributes d' t = table_attributes d t"
    and k: "table_constraints d' t = table_constraints d t" and cl: "pg_class d' = pg_class d"
    by (simp_all add: same_schema_def table_attributes_def table_constraints_def)
  have "filter (\<lambda>a. attnotnull a \<and> (if attname a \<in> set cols then row' (attname a) = None else \<not> atthasdef a))
          (table_attributes d t) =
        filter (\<lambda>a. attnotnull a \<and> (if attname a \<in> set cols then row (attname a) = None else \<not> atthasdef a))
          (table_attributes d t)"
    by (rule filter_cong) (use assms(2) in auto)
  then have "not_null_error d' t cols row' = not_null_error d t cols row"
    by (simp add: not_null_error_def a)
  moreover have "parse_error d' t cols = parse_error d t cols"
    by (simp add: parse_error_def has_column_def a cl)
  moreover have "has_key_on d' t c = has_key_on d t c"
    by (simp add: has_key_on_def k)
  ultimately show ?thesis by (simp add: conflict_pre_def)
qed

lemma run_do_nothing_Inr:
  assumes run: "run_script (map (\<lambda>r. insert_row_on_conflict_do_nothing t c cols (rowf r) (storef r)) rs) d = Inr d'"
    and schema: "\<And>r d. same_schema d (storef r d)"
    and grows: "\<And>r d. column_values (storef r d) t c = column_values d t c @ [rowf r c]"
    and some: "\<And>r. rowf r c \<noteq> None"
  shows "same_schema d d'"
    and "\<forall>r \<in> set rs. conflict_pre d t c cols (rowf r) = None"
    and "set (column_values d t c) \<subseteq> set (column_values d' t c)"
    and "\<forall>r \<in> set rs. rowf r c \<in> set (column_values d' t c)"
    and "distinct (column_values d t c) \<longrightarrow> distinct (column_values d' t c)"
    and "\<exists>ins. d' = foldl (\<lambda>d r. storef r d) d ins"
  using run
proof (induction rs arbitrary: d)
  case Nil
  {
    case 1 then show ?case by (simp add: same_schema_refl)
  next
    case 2 then show ?case by simp
  next
    case 3 then show ?case by simp
  next
    case 4 then show ?case by simp
  next
    case 5 then show ?case by simp
  next
    case 6
    then have "d' = foldl (\<lambda>d r. storef r d) d []" by simp
    then show ?case by blast
  }
next
  case (Cons r rs)
  {
    fix d assume run: "run_script (map (\<lambda>r. insert_row_on_conflict_do_nothing t c cols (rowf r) (storef r)) (r # rs)) d = Inr d'"
    then obtain d1 where s: "insert_row_on_conflict_do_nothing t c cols (rowf r) (storef r) d = Inr d1"
      and rest: "run_script (map (\<lambda>r. insert_row_on_conflict_do_nothing t c cols (rowf r) (storef r)) rs) d1 = Inr d'"
      by (auto split: sum.splits)
    note pre = do_nothing_Inr(1) [OF s]
    from do_nothing_Inr(2) [OF s]
    have step: "same_schema d d1 \<and> set (column_values d t c) \<subseteq> set (column_values d1 t c)
        \<and> rowf r c \<in> set (column_values d1 t c)
        \<and> (distinct (column_values d t c) \<longrightarrow> distinct (column_values d1 t c))
        \<and> (\<exists>ins. d1 = foldl (\<lambda>d r. storef r d) d ins)"
    proof
      assume a: "conflicts d t c (rowf r) \<and> d1 = d"
      then have "d1 = foldl (\<lambda>d r. storef r d) d []" by simp
      then have "\<exists>ins. d1 = foldl (\<lambda>d r. storef r d) d ins" by (rule exI)
      moreover from a have "rowf r c \<in> set (column_values d1 t c)" by (simp add: conflicts_def)
      ultimately show ?thesis using a by (simp add: same_schema_refl)
    next
      assume a: "\<not> conflicts d t c (rowf r) \<and> d1 = storef r d"
      then have "d1 = foldl (\<lambda>d r. storef r d) d [r]" by simp
      then have "\<exists>ins. d1 = foldl (\<lambda>d r. storef r d) d ins" by (rule exI)
      moreover from a some [of r] have "rowf r c \<notin> set (column_values d t c)"
        by (simp add: conflicts_def)
      moreover have "column_values d1 t c = column_values d t c @ [rowf r c]"
        using a grows [of r d] by simp
      moreover have "same_schema d d1" using a schema [of d r] by simp
      ultimately show ?thesis by auto
    qed
    then obtain ins1 where ins1: "d1 = foldl (\<lambda>d r. storef r d) d ins1" by blast
    from Cons.IH(6) [OF rest] obtain ins2 where ins2: "d' = foldl (\<lambda>d r. storef r d) d1 ins2" by blast
    have sch: "same_schema d d1" using step by blast
    have pres: "\<forall>x \<in> set rs. conflict_pre d t c cols (rowf x) = None"
    proof
      fix x assume "x \<in> set rs"
      with Cons.IH(2) [OF rest] have "conflict_pre d1 t c cols (rowf x) = None" by blast
      moreover have "conflict_pre d1 t c cols (rowf x) = conflict_pre d t c cols (rowf x)"
        by (rule conflict_pre_same_schema [OF sch]) simp
      ultimately show "conflict_pre d t c cols (rowf x) = None" by simp
    qed
    have "same_schema d d'" using step Cons.IH(1) [OF rest] by (blast intro: same_schema_trans)
    moreover have "\<forall>x \<in> set (r # rs). conflict_pre d t c cols (rowf x) = None"
      using pre pres by simp
    moreover have "set (column_values d t c) \<subseteq> set (column_values d' t c)"
      using step Cons.IH(3) [OF rest] by blast
    moreover have "\<forall>x \<in> set (r # rs). rowf x c \<in> set (column_values d' t c)"
      using step Cons.IH(3,4) [OF rest] by auto
    moreover have "distinct (column_values d t c) \<longrightarrow> distinct (column_values d' t c)"
      using step Cons.IH(5) [OF rest] by blast
    moreover have "d' = foldl (\<lambda>d r. storef r d) d (ins1 @ ins2)"
      using ins1 ins2 by simp
    then have "\<exists>ins. d' = foldl (\<lambda>d r. storef r d) d ins" by blast
    ultimately have "same_schema d d' \<and> (\<forall>x \<in> set (r # rs). conflict_pre d t c cols (rowf x) = None)
      \<and> set (column_values d t c) \<subseteq> set (column_values d' t c)
      \<and> (\<forall>x \<in> set (r # rs). rowf x c \<in> set (column_values d' t c))
      \<and> (distinct (column_values d t c) \<longrightarrow> distinct (column_values d' t c))
      \<and> (\<exists>ins. d' = foldl (\<lambda>d r. storef r d) d ins)" by blast
  }
  note all = this
  {
    case 1 from all [OF 1] show ?case by blast
  next
    case 2 from all [OF 2] show ?case by blast
  next
    case 3 from all [OF 3] show ?case by blast
  next
    case 4 from all [OF 4] show ?case by blast
  next
    case 5 from all [OF 5] show ?case by blast
  next
    case 6 from all [OF 6] show ?case by blast
  }
qed

lemma run_do_nothing_again:
  assumes "\<forall>r \<in> set rs. conflict_pre d t c cols (rowf r) = None \<and> conflicts d t c (rowf r)"
  shows "run_script (map (\<lambda>r. insert_row_on_conflict_do_nothing t c cols (rowf r) (storef r)) rs) d = Inr d"
  using assms by (induction rs) (simp_all add: do_nothing_skip)

lemma store_category_schema: "same_schema d (store_category r d)"
  by (simp add: same_schema_def store_category_def)

lemma store_category_values:
  "column_values (store_category r d) ''categories'' c = column_values d ''categories'' c @ [category_col r c]"
  by (simp add: column_values_def store_category_def)

lemma store_categories_fold:
  "foldl (\<lambda>d r. store_category r d) d ins = d\<lparr>categories := categories d @ ins\<rparr>"
  by (induction ins arbitrary: d) (simp_all add: store_category_def)

lemma slug_values: "column_values d ''categories'' ''slug'' = map (\<lambda>x. Some (Text (c_slug x))) (categories d)"
  by (simp add: column_values_def category_col_def)

lemma slug_values_distinct:
  "distinct (column_values d ''categories'' ''slug'') \<longleftrightarrow> distinct (map c_slug (categories d))"
proof -
  have "map (\<lambda>x. Some (Text (c_slug x))) (categories d) = map (\<lambda>s. Some (Text s)) (map c_slug (categories d))"
    by simp
  moreover have "inj (\<lambda>s. Some (Text s))" by (simp add: inj_def)
  ultimately show ?thesis
    unfolding slug_values by (metis distinct_map inj_on_subset subset_UNIV)
qed

lemma slug_conflicts:
  "conflicts d ''categories'' ''slug'' (category_col r) \<longleftrightarrow> c_slug r \<in> c_slug ` set (categories d)"
  by (auto simp: conflicts_def slug_values category_col_def)

lemma seed_categories_cols:
  "c \<in> set categories_columns \<Longrightarrow>
   map (\<lambda>r. category_col r c) (seed_categories gen' descs) = map (\<lambda>r. category_col r c) (seed_categories gen descs)"
  by (auto simp: seed_categories_def category_col_def categories_columns_def)

lemma seed_categories_slugs:
  "map c_slug (seed_categories gen descs) = [''tas'', ''dekorasi'', ''aksesori-rumah'', ''premium'']"
  by (simp add: seed_categories_def)

lemma slug_seed_first:
  assumes run: "insert_categories_on_conflict_do_nothing ''slug'' (seed_categories gen descs) d = Inr d1"
  shows "\<exists>ins. d1 = d\<lparr>categories := categories d @ ins\<rparr>"
    and "distinct (map c_slug (categories d)) \<longrightarrow> distinct (map c_slug (categories d1))"
    and "set [''tas'', ''dekorasi'', ''aksesori-rumah'', ''premium''] \<subseteq> c_slug ` set (categories d1)"
    and "same_schema d d1"
    and "\<forall>r \<in> set (seed_categories gen descs).
           conflict_pre d ''categories'' ''slug'' categories_columns (category_col r) = None"
proof -
  note r = run_do_nothing_Inr [OF run [unfolded insert_categories_on_conflict_do_nothing_def],
      OF store_category_schema store_category_values]
  have some: "\<And>r. category_col r ''slug'' \<noteq> None" by (simp add: category_col_def)
  from r(6) [OF some] show "\<exists>ins. d1 = d\<lparr>categories := categories d @ ins\<rparr>"
    by (simp add: store_categories_fold)
  from r(5) [OF some] show "distinct (map c_slug (categories d)) \<longrightarrow> distinct (map c_slug (categories d1))"
    by (simp add: slug_values_distinct)
  from r(4) [OF some] have "\<forall>x \<in> set (seed_categories gen descs). c_slug x \<in> c_slug ` set (categories d1)"
    by (auto simp: slug_values category_col_def)
  then have "set (map c_slug (seed_categories gen descs)) \<subseteq> c_slug ` set (categories d1)"
    by auto
  then show "set [''tas'', ''dekorasi'', ''aksesori-rumah'', ''premium''] \<subseteq> c_slug ` set (categories d1)"
    by (simp only: seed_categories_slugs)
  from r(1) [OF some] show "same_schema d d1" .
  from r(2) [OF some] show "\<forall>r \<in> set (seed_categories gen descs).
           conflict_pre d ''categories'' ''slug'' categories_columns (category_col r) = None" .
qed

lemma slug_seed_again:
  assumes run: "insert_categories_on_conflict_do_nothing ''slug'' (seed_categories gen descs) d = Inr d1"
  shows "insert_categories_on_conflict_do_nothing ''slug'' (seed_categories gen' descs) d1 = Inr d1"
  unfolding insert_categories_on_conflict_do_nothing_def
proof (rule run_do_nothing_again, intro ballI conjI)
  fix r' assume r': "r' \<in> set (seed_categories gen' descs)"
  then obtain i where i: "i < length (seed_categories gen' descs)" "r' = seed_categories gen' descs ! i"
    by (auto simp: in_set_conv_nth)
  define r where "r = seed_categories gen descs ! i"
  have len: "length (seed_categories gen descs) = length (seed_categories gen' descs)"
    by (simp add: seed_categories_def)
  with i have rin: "r \<in> set (seed_categories gen descs)" by (simp add: r_def)
  have cols: "\<forall>c \<in> set categories_columns. category_col r' c = category_col r c"
  proof
    fix c assume "c \<in> set categories_columns"
    from seed_categories_cols [OF this, of gen' descs gen]
    have "map (\<lambda>r. category_col r c) (seed_categories gen' descs) ! i =
        map (\<lambda>r. category_col r c) (seed_categories gen descs) ! i" by simp
    with i len show "category_col r' c = category_col r c" by (simp add: r_def)
  qed
  have "conflict_pre d1 ''categories'' ''slug'' categories_columns (category_col r') =
      conflict_pre d ''categories'' ''slug'' categories_columns (category_col r)"
    by (rule conflict_pre_same_schema [OF slug_seed_first(4) [OF run] cols])
  with slug_seed_first(5) [OF run] rin
  show "conflict_pre d1 ''categories'' ''slug'' categories_columns (category_col r') = None" by simp
  have "c_slug r' \<in> set (map c_slug (seed_categories gen' descs))" using r' by simp
  then have "c_slug r' \<in> set [''tas'', ''dekorasi'', ''aksesori-rumah'', ''premium'']"
    by (simp only: seed_categories_slugs)
  with slug_seed_first(3) [OF run]
  show "conflicts d1 ''categories'' ''slug'' (category_col r')"
    unfolding slug_conflicts by blast
qed

lemma store_product_schema: "same_schema d (store_product r d)"
  by (simp add: same_schema_def store_product_def)

lemma store_product_values:
  "column_values (store_product r d) ''products'' c = column_values d ''products'' c @ [product_col r c]"
  by (simp add: column_values_def store_product_def)

lemma store_products_fold:
  "foldl (\<lambda>d r. store_product r d) d ins = d\<lparr>products := products d @ ins\<rparr>"
  by (induction ins arbitrary: d) (simp_all add: store_product_def)

lemma name_values: "column_values d ''products'' ''name'' = map (\<lambda>x. Some (Text (pr_name x))) (products d)"
  by (simp add: column_values_def product_col_def)

lemma name_values_distinct:
  "distinct (column_values d ''products'' ''name'') \<longleftrightarrow> distinct (map pr_name (products d))"
proof -
  have "map (\<lambda>x. Some (Text (pr_name x))) (products d) = map (\<lambda>s. Some (Text s)) (map pr_name (products d))"
    by simp
  moreover have "inj (\<lambda>s. Some (Text s))" by (simp add: inj_def)
  ultimately show ?thesis
    unfolding name_values by (metis distinct_map inj_on_subset subset_UNIV)
qed




lemma name_seed_first:
  assumes run: "insert_products_on_conflict_do_nothing ''name'' (seed_products w gen a b e f) d = Inr d1"
  shows "\<exists>ins. d1 = d\<lparr>products := products d @ ins\<rparr>"
    and "distinct (map pr_name (products d)) \<longrightarrow> distinct (map pr_name (products d1))"
    and "set (map pr_name (seed_products w gen a b e f)) \<subseteq> pr_name ` set (products d1)"
    and "same_schema d d1"
    and "\<forall>r \<in> set (seed_products w gen a b e f).
           conflict_pre d ''products'' ''name'' products_columns (product_col r) = None"
proof -
  note r = run_do_nothing_Inr [OF run [unfolded insert_products_on_conflict_do_nothing_def],
      OF store_product_schema store_product_values]
  have some: "\<And>r. product_col r ''name'' \<noteq> None" by (simp add: product_col_def)
  from r(6) [OF some] show "\<exists>ins. d1 = d\<lparr>products := products d @ ins\<rparr>"
    by (simp add: store_products_fold)
  from r(5) [OF some] show "distinct (map pr_name (products d)) \<longrightarrow> distinct (map pr_name (products d1))"
    by (simp add: name_values_distinct)
  from r(4) [OF some] have "\<forall>x \<in> set (seed_products w gen a b e f). pr_name x \<in> pr_name ` set (products d1)"
    by (auto simp: name_values product_col_def)
  then show "set (map pr_name (seed_products w gen a b e f)) \<subseteq> pr_name ` set (products d1)"
    by auto
  from r(1) [OF some] show "same_schema d d1" .
  from r(2) [OF some] show "\<forall>r \<in> set (seed_products w gen a b e f).
           conflict_pre d ''products'' ''name'' products_columns (product_col r) = None" .
qed



lemma insert_products_Inr:
  "insert_products rs d = Inr d' \<Longrightarrow> d' = d\<lparr>products := products d @ rs\<rparr>"
proof (induction rs arbitrary: d)
  case Nil
  then show ?case by (simp add: insert_products_def)
next
  case (Cons r rs)
  from Cons.prems obtain d1 where s: "insert_row ''products'' products_columns (product_col r) (store_product r) d = Inr d1"
    and rest: "insert_products rs d1 = Inr d'"
    by (auto simp: insert_products_def split: sum.splits)
  from insert_row_Inr [OF s] Cons.IH [OF rest] show ?case
    by (simp add: store_product_def)
qed

lemma upsert_keeps_rows:
  assumes "upsert_category_set_slug r d = Inr (d', i)"
  shows "\<exists>cs extra. d' = d\<lparr>categories := cs\<rparr> \<and> map c_id cs = map c_id (categories d) @ extra"
proof (cases "filter (\<lambda>x. c_name x = c_name r) (categories d)")
  case Nil
  with assms have "insert_row ''categories'' [''name'', ''slug''] (category_col r) (store_category r) d = Inr d'"
    by (auto simp: upsert_category_set_slug_def split: option.splits sum.splits)
  then have "d' = d\<lparr>categories := categories d @ [r]\<rparr>"
    by (auto dest: insert_row_Inr simp: store_category_def)
  then show ?thesis by force
next
  case (Cons x xs)
  let ?cs = "map (\<lambda>y. if c_id y = c_id x then y\<lparr>c_slug := c_slug r\<rparr> else y) (categories d)"
  from assms Cons have "d' = d\<lparr>categories := ?cs\<rparr>"
    by (auto simp: upsert_category_set_slug_def split: option.splits if_splits)
  moreover have "map c_id ?cs = map c_id (categories d) @ []"
    by (induction "categories d") auto
  ultimately show ?thesis by blast
qed

lemma keeps_rows_trans:
  assumes "\<exists>cs extra. d1 = d\<lparr>categories := cs\<rparr> \<and> map c_id cs = map c_id (categories d) @ extra"
    and "\<exists>cs extra. d2 = d1\<lparr>categories := cs\<rparr> \<and> map c_id cs = map c_id (categories d1) @ extra"
  shows "\<exists>cs extra. d2 = d\<lparr>categories := cs\<rparr> \<and> map c_id cs = map c_id (categories d) @ extra"
proof -
  from assms(1) obtain cs1 e1 where a: "d1 = d\<lparr>categories := cs1\<rparr>" "map c_id cs1 = map c_id (categories d) @ e1"
    by blast
  from assms(2) obtain cs2 e2 where b: "d2 = d1\<lparr>categories := cs2\<rparr>" "map c_id cs2 = map c_id (categories d1) @ e2"
    by blast
  have "d2 = d\<lparr>categories := cs2\<rparr>" using a(1) b(1) by simp
  moreover have "map c_id cs2 = map c_id (categories d) @ (e1 @ e2)" using a b(2) by simp
  ultimately show ?thesis by blast
qed

lemma name_key_seed_categories_keeps_rows:
  assumes "name_key_seed_categories gen d = Inr (d', ids)"
  shows "\<exists>cs extra. d' = d\<lparr>categories := cs\<rparr> \<and> map c_id cs = map c_id (categories d) @ extra"
proof -
  from assms obtain d1 d2 d3 i1 i2 i3 i4 where
    u1: "upsert_category_set_slug \<lparr>c_id = gen 0, c_name = ''Tas'', c_slug = ''tas'', c_description = None\<rparr> d = Inr (d1, i1)"
    and u2: "upsert_category_set_slug
        \<lparr>c_id = gen 1, c_name = ''Dekorasi'', c_slug = ''dekorasi'', c_description = None\<rparr> d1 = Inr (d2, i2)"
    and u3: "upsert_category_set_slug
        \<lparr>c_id = gen 2, c_name = ''Aksesori Rumah'', c_slug = ''aksesori-rumah'', c_description = None\<rparr> d2 = Inr (d3, i3)"
    and u4: "upsert_category_set_slug
        \<lparr>c_id = gen 3, c_name = ''Premium'', c_slug = ''premium'', c_description = None\<rparr> d3 = Inr (d', i4)"
    by (auto simp: name_key_seed_categories_def split: sum.splits prod.splits)
  show ?thesis
    by (rule keeps_rows_trans [OF keeps_rows_trans [OF keeps_rows_trans
          [OF upsert_keeps_rows [OF u1] upsert_keeps_rows [OF u2]] upsert_keeps_rows [OF u3]]
          upsert_keeps_rows [OF u4]])
qed

lemma m0007_seed_appends:
  assumes "m0007_seed gen d = Inr d'"
  shows "\<exists>cs ps. d' = d\<lparr>categories := categories d @ cs, products := products d @ ps\<rparr>"
proof -
  from assms obtain d1 where c: "m0007_seed_categories gen d = Inr d1"
    and p: "m0007_seed_products gen d1 = Inr d'"
    by (auto simp: m0007_seed_def split: sum.splits)
  from slug_seed_first(1) [OF c [unfolded m0007_seed_categories_def]]
  obtain cs where cs: "d1 = d\<lparr>categories := categories d @ cs\<rparr>" by blast
  from name_seed_first(1) [OF p [unfolded m0007_seed_products_def seed_products_by_slug_def]]
  obtain ps where ps: "d' = d1\<lparr>products := products d1 @ ps\<rparr>" by blast
  have "d' = d\<lparr>categories := categories d @ cs, products := products d @ ps\<rparr>"
    by (subst ps, subst (1 2) cs) simp
  then show ?thesis by blast
qed

lemma m0002_seed_appends:
  assumes "m0002_seed gen d = Inr d'"
  shows "\<exists>cs ps. d' = d\<lparr>categories := categories d @ cs, products := products d @ ps\<rparr>"
proof -
  from assms obtain d1 where c: "m0002_seed_categories gen d = Inr d1"
    and p: "m0002_seed_products gen d1 = Inr d'"
    by (auto simp: m0002_seed_def split: sum.splits)
  from slug_seed_first(1) [OF c [unfolded m0002_seed_categories_def]]
  obtain cs where cs: "d1 = d\<lparr>categories := categories d @ cs\<rparr>" by blast
  have "\<exists>ps. d' = d1\<lparr>products := products d1 @ ps\<rparr>"
  proof (cases "products d1 = []")
    case True
    with p have "insert_products (seed_products_by_slug (img_wrapper @ img_wrapper) gen d1) d1 = Inr d'"
      by (simp add: m0002_seed_products_def)
    from insert_products_Inr [OF this] show ?thesis by blast
  next
    case False
    with p have "d' = d1\<lparr>products := products d1 @ []\<rparr>" by (simp add: m0002_seed_products_def)
    then show ?thesis by blast
  qed
  then obtain ps where ps: "d' = d1\<lparr>products := products d1 @ ps\<rparr>" by blast
  have "d' = d\<lparr>categories := categories d @ cs, products := products d @ ps\<rparr>"
    by (subst ps, subst (1 2) cs) simp
  then show ?thesis by blast
qed

lemma name_key_seed_keeps_rows:
  assumes "name_key_seed gen d = Inr d'"
  shows "\<exists>cs extra ps. d' = d\<lparr>categories := cs, products := products d @ ps\<rparr> \<and>
     map c_id cs = map c_id (categories d) @ extra"
proof -
  from assms obtain d1 ids where c: "name_key_seed_categories gen d = Inr (d1, ids)"
    and p: "name_key_seed_products gen ids d1 = Inr d'"
    by (auto simp: name_key_seed_def split: sum.splits prod.splits)
  from name_key_seed_categories_keeps_rows [OF c]
  obtain cs extra where cs: "d1 = d\<lparr>categories := cs\<rparr>" "map c_id cs = map c_id (categories d) @ extra"
    by blast
  obtain a b e f where ids: "ids = (a, b, e, f)" by (cases ids) auto
  from name_seed_first(1) [OF p [unfolded name_key_seed_products_def ids prod.case]]
  obtain ps where ps: "d' = d1\<lparr>products := products d1 @ ps\<rparr>" by blast
  have "d' = d\<lparr>categories := cs, products := products d @ ps\<rparr>"
    by (subst ps, subst (1 2) cs(1)) simp
  with cs(2) show ?thesis by blast
qed

lemma catalog_shop_m0007_seed:
  "m0007_seed (uuids_from 0) catalog_shop =
   Inr (catalog_shop\<lparr>categories := categories catalog_shop @ seed_categories (uuids_from 0)
          [Some ''Koleksi tas anyaman eceng gondok.'', Some ''Hiasan rumah yang natural dan estetik.'',
           Some ''Perlengkapan rumah fungsional.'', Some ''Koleksi eksklusif dengan detail premium.''],
        products := products catalog_shop @
          seed_products (img_wrapper @ img_wrapper) (uuids_from 0) (Some 0) (Some 1) (Some 2) (Some 3)\<rparr>)"
  by code_simp

lemma m0007_sets_up_signup:
  "map_sum id (\<lambda>d. profiles_table_0007 d \<and> new_user_trigger_0007 d)
     (run_script (m0007_schema @ m0007_rls @ m0007_new_user_trigger) fresh_project) = Inr True"
  by code_simp

lemma signup_store_ok: "profiles_table_0007 signup_store" "new_user_trigger_0007 signup_store"
  by (simp_all add: profiles_table_0007_def new_user_trigger_0007_def signup_store_def fresh_project_def
      table_attributes_def table_constraints_def attribute_of_def constraint_of_def)

lemma insert_profile_ok:
  assumes cls: "''profiles'' \<in> set (pg_class d)"
    and att: "table_attributes d ''profiles'' =
       map (attribute_of ''profiles'')
         [(''id'', ''uuid'', True, False), (''full_name'', ''text'', False, False),
          (''role'', ty, False, True), (''updated_at'', ''timestamptz'', False, False)]"
    and con: "table_constraints d ''profiles'' =
       map (constraint_of ''profiles'')
         [(''profiles_pkey'', PrimaryKey ''id''),
          (''profiles_id_fkey'', ForeignKey ''id'' ''auth.users'' Cascade)]"
    and fresh: "p_id r \<notin> p_id ` set (profiles d)"
    and user: "p_id r \<in> au_id ` set (auth_users d)"
  shows "insert_row ''profiles'' [''id'', ''full_name'', ''role''] (profile_col r) (store_profile r) d =
     Inr (store_profile r d)"
proof -
  have p: "parse_error d ''profiles'' [''id'', ''full_name'', ''role''] = None"
    using cls by (simp add: parse_error_def has_column_def att attribute_of_def)
  have n: "not_null_error d ''profiles'' [''id'', ''full_name'', ''role''] (profile_col r) = None"
    by (simp add: not_null_error_def att attribute_of_def profile_col_def)
  have "Some (Uuid (p_id r)) \<notin> set (column_values d ''profiles'' ''id'')"
    using fresh by (auto simp: column_values_def profile_col_def)
  then have k: "key_error d ''profiles'' (profile_col r) = None"
    by (simp add: key_error_def con constraint_of_def profile_col_def)
  have "Some (Uuid (p_id r)) \<in> set (column_values d ''auth.users'' ''id'')"
    using user by (auto simp: column_values_def auth_user_col_def)
  then have f: "reference_error d ''profiles'' (profile_col r) = None"
    by (simp add: reference_error_def con constraint_of_def profile_col_def)
  show ?thesis by (simp add: insert_row_def p n k f)
qed

lemma role_value_coalesce:
  assumes "profiles_table_user_role d"
  shows "role_value d (RoleCoalesceCast ''user_role'') v =
     (case v of
        None \<Rightarrow> Inr (Some ''user'')
      | Some s \<Rightarrow> (if s \<in> set [''admin'', ''user'', ''mitra''] then Inr (Some s)
                   else Inl (InvalidTextRepresentation s)))"
proof -
  from assms have att: "table_attributes d ''profiles'' =
       map (attribute_of ''profiles'')
         [(''id'', ''uuid'', True, False), (''full_name'', ''text'', False, False),
          (''role'', ''user_role'', False, True), (''updated_at'', ''timestamptz'', False, False)]"
    and ty: "map_of (pg_type d) ''user_role'' = Some [''admin'', ''user'', ''mitra'']"
    by (simp_all add: profiles_table_user_role_def)
  have ct: "column_type d ''profiles'' ''role'' = Some ''user_role''"
    by (simp add: column_type_def att attribute_of_def)
  show ?thesis
  proof (cases v)
    case None
    then show ?thesis by (simp add: role_value_def cast_to_enum_def ty ct Let_def)
  next
    case (Some s)
    then show ?thesis by (simp add: role_value_def cast_to_enum_def ty ct Let_def)
  qed
qed

lemma create_identity_fires:
  assumes "filter (\<lambda>g. fst (snd g) = ''auth.users'') (pg_trigger d) =
       [(''on_auth_user_created'', ''auth.users'', ''handle_new_user'')]"
    and "map_of (pg_proc d) ''handle_new_user'' = Some body"
    and "au_id new \<notin> au_id ` set (auth_users d)"
  shows "create_identity new d = handle_new_user body new (d\<lparr>auth_users := auth_users d @ [new]\<rparr>)"
  using assms by (simp add: create_identity_def fire_trigger_def split: sum.splits)

lemma create_identity_user_role:
  assumes tab: "profiles_table_user_role d"
    and trg: "new_user_trigger_user_role d"
    and new: "au_id new \<notin> au_id ` set (auth_users d)"
    and fk: "p_id ` set (profiles d) \<subseteq> au_id ` set (auth_users d)"
  shows "create_identity new d =
     (case requested_role new of
        None \<Rightarrow> Inr (d\<lparr>auth_users := auth_users d @ [new],
                       profiles := profiles d @ [new_profile new (Some ''user'')]\<rparr>)
      | Some s \<Rightarrow>
          (if s \<in> set [''admin'', ''user'', ''mitra'']
           then Inr (d\<lparr>auth_users := auth_users d @ [new], profiles := profiles d @ [new_profile new (Some s)]\<rparr>)
           else Inl (InvalidTextRepresentation s)))"
proof -
  let ?d1 = "d\<lparr>auth_users := auth_users d @ [new]\<rparr>"
  have tab1: "profiles_table_user_role ?d1"
    using tab by (simp add: profiles_table_user_role_def table_attributes_def table_constraints_def)
  from trg have fire: "create_identity new d = handle_new_user (RoleCoalesceCast ''user_role'') new ?d1"
    by (intro create_identity_fires [OF _ _ new]) (simp_all add: new_user_trigger_user_role_def)
  have ins: "insert_row ''profiles'' [''id'', ''full_name'', ''role''] (profile_col (new_profile new v))
        (store_profile (new_profile new v)) ?d1 = Inr (store_profile (new_profile new v) ?d1)" for v
  proof (rule insert_profile_ok)
    show "''profiles'' \<in> set (pg_class ?d1)" using tab1 by (simp add: profiles_table_user_role_def)
    show "table_attributes ?d1 ''profiles'' =
       map (attribute_of ''profiles'')
         [(''id'', ''uuid'', True, False), (''full_name'', ''text'', False, False),
          (''role'', ''user_role'', False, True), (''updated_at'', ''timestamptz'', False, False)]"
      using tab1 by (simp add: profiles_table_user_role_def)
    show "table_constraints ?d1 ''profiles'' =
       map (constraint_of ''profiles'')
         [(''profiles_pkey'', PrimaryKey ''id''),
          (''profiles_id_fkey'', ForeignKey ''id'' ''auth.users'' Cascade)]"
      using tab1 by (simp add: profiles_table_user_role_def)
    show "p_id (new_profile new v) \<notin> p_id ` set (profiles ?d1)"
      using new fk by (auto simp: new_profile_def)
    show "p_id (new_profile new v) \<in> au_id ` set (auth_users ?d1)"
      by (simp add: new_profile_def)
  qed
  show ?thesis
  proof (cases "requested_role new")
    case None
    with ins [of "Some ''user''"] show ?thesis
      by (simp add: fire handle_new_user_def role_value_coalesce [OF tab1] requested_role_def
          new_profile_def store_profile_def)
  next
    case (Some s)
    with ins [of "Some s"] show ?thesis
      by (simp add: fire handle_new_user_def role_value_coalesce [OF tab1] requested_role_def
          new_profile_def store_profile_def)
  qed
qed

lemma signup_store_user_role_ok:
  "profiles_table_user_role signup_store_user_role" "new_user_trigger_user_role signup_store_user_role"
  by (simp_all add: profiles_table_user_role_def new_user_trigger_user_role_def signup_store_user_role_def
      fresh_project_def table_attributes_def table_constraints_def attribute_of_def constraint_of_def)

lemma user_role_fix_sets_up_signup:
  "map_sum id (\<lambda>d. profiles_table_user_role d \<and> new_user_trigger_user_role d)
     (run_script (user_role_fix (uuids_from 100)) fresh_project) = Inr True"
  by code_simp

lemma profiles_of_appended:
  assumes "au_id new \<notin> au_id ` set (auth_users d)"
    and "p_id ` set (profiles d) \<subseteq> au_id ` set (auth_users d)"
  shows "profiles_of new (Inr (d\<lparr>auth_users := us, profiles := profiles d @ [new_profile new v]\<rparr>)) =
     Inr [new_profile new v]"
proof -
  have "au_id new \<notin> p_id ` set (profiles d)" using assms by blast
  then have "\<forall>p \<in> set (profiles d). p_id p \<noteq> au_id new" by (metis imageI)
  then have "filter (\<lambda>p. p_id p = au_id new) (profiles d) = []" by (simp add: filter_empty_conv)
  then show ?thesis by (simp add: profiles_of_def new_profile_def)
qed

lemma distinct_one_row:
  assumes "distinct (map k xs)" and "a \<in> k ` set xs"
  shows "length (filter (\<lambda>x. k x = a) xs) = 1"
proof -
  from assms(2) have "filter (\<lambda>x. k x = a) xs \<noteq> []" by (auto simp: filter_empty_conv)
  with distinct_filter_key [OF assms(1), of a] show ?thesis by auto
qed

lemma catalog_shop_m0007_seed_categories:
  "m0007_seed_categories (uuids_from 0) catalog_shop =
   Inr (catalog_shop\<lparr>categories := categories catalog_shop @ seed_categories (uuids_from 0)
          [Some ''Koleksi tas anyaman eceng gondok.'', Some ''Hiasan rumah yang natural dan estetik.'',
           Some ''Perlengkapan rumah fungsional.'', Some ''Koleksi eksklusif dengan detail premium.'']\<rparr>)"
  by code_simp





subsection \<open>The upsert of a category keyed by name\<close>

lemma first_error_None_iff: "first_error es = None \<longleftrightarrow> (\<forall>e \<in> set es. e = None)"
  by (induction es rule: first_error.induct) simp_all

lemma upsert_unfold:
  "upsert_category_set_slug r d =
     (case upsert_pre d r of
        Some e \<Rightarrow> Inl e
      | None \<Rightarrow>
          (case filter (\<lambda>x. c_name x = c_name r) (categories d) of
             [] \<Rightarrow>
               (case insert_row ''categories'' [''name'', ''slug''] (category_col r) (store_category r) d of
                  Inl e \<Rightarrow> Inl e
                | Inr d' \<Rightarrow> Inr (d', c_id r))
           | x # _ \<Rightarrow>
               (if has_key_on d ''categories'' ''slug'' \<and>
                   (\<exists>y \<in> set (categories d). c_id y \<noteq> c_id x \<and> c_slug y = c_slug r)
                then Inl (UniqueViolation ''categories_slug_key'')
                else Inr (d\<lparr>categories := map (\<lambda>y. if c_id y = c_id x then y\<lparr>c_slug := c_slug r\<rparr> else y)
                                              (categories d)\<rparr>, c_id x))))"
  by (simp only: upsert_category_set_slug_def upsert_pre_def)

lemma upsert_pre_same:
  assumes "same_schema d d'" and "c_name r' = c_name r" and "c_slug r' = c_slug r"
  shows "upsert_pre d' r' = upsert_pre d r"
proof -
  from assms(1) have a: "table_attributes d' t = table_attributes d t"
    and k: "table_constraints d' t = table_constraints d t" and cl: "pg_class d' = pg_class d" for t
    by (simp_all add: same_schema_def table_attributes_def table_constraints_def)
  have p: "parse_error d' ''categories'' [''name'', ''slug''] = parse_error d ''categories'' [''name'', ''slug'']"
    by (simp add: parse_error_def has_column_def a cl)
  have h: "has_key_on d' ''categories'' ''name'' = has_key_on d ''categories'' ''name''"
    by (simp add: has_key_on_def k)
  have n: "not_null_error d' ''categories'' [''name'', ''slug''] (category_col r') =
           not_null_error d ''categories'' [''name'', ''slug''] (category_col r)"
    using assms(2,3) by (simp add: not_null_error_def a category_col_def cong: filter_cong)
  show ?thesis by (simp only: upsert_pre_def p h n)
qed

lemma key_error_fresh:
  assumes "key_error d ''categories'' (category_col r) = None" and "has_key_on d ''categories'' c"
    and "c \<in> {''id'', ''name'', ''slug''}"
  shows "category_col r c \<notin> (\<lambda>y. category_col y c) ` set (categories d)"
proof
  assume in_col: "category_col r c \<in> (\<lambda>y. category_col y c) ` set (categories d)"
  from assms(2) obtain k where k: "k \<in> set (table_constraints d ''categories'')" "is_key (condef k)"
    "constrained_column (condef k) = c" by (auto simp: has_key_on_def)
  from assms(3) have nn: "category_col r c \<noteq> None" by (auto simp: category_col_def)
  from in_col have "category_col r c \<in> set (column_values d ''categories'' c)"
    by (simp add: column_values_def)
  with k nn have "k \<in> set (filter (\<lambda>k. is_key (condef k) \<and>
                    category_col r (constrained_column (condef k)) \<noteq> None \<and>
                    category_col r (constrained_column (condef k)) \<in>
                      set (column_values d ''categories'' (constrained_column (condef k))))
             (table_constraints d ''categories''))" by simp
  then have "filter (\<lambda>k. is_key (condef k) \<and>
                    category_col r (constrained_column (condef k)) \<noteq> None \<and>
                    category_col r (constrained_column (condef k)) \<in>
                      set (column_values d ''categories'' (constrained_column (condef k))))
             (table_constraints d ''categories'') \<noteq> []" by (metis empty_iff list.set(1))
  with assms(1) show False by (auto simp: key_error_def split: list.splits)
qed

lemma key_error_fresh_id:
  assumes "key_error d ''categories'' (category_col r) = None" and "has_key_on d ''categories'' ''id''"
  shows "c_id r \<notin> c_id ` set (categories d)"
  using key_error_fresh [OF assms, simplified] by (auto simp: category_col_def)

lemma key_error_fresh_slug:
  assumes "key_error d ''categories'' (category_col r) = None" and "has_key_on d ''categories'' ''slug''"
  shows "c_slug r \<notin> c_slug ` set (categories d)"
  using key_error_fresh [OF assms, simplified] by (auto simp: category_col_def)

lemma upsert_cases:
  assumes "upsert_category_set_slug r d = Inr (d', i)"
  obtains (inserted) "upsert_pre d r = None" "\<forall>y \<in> set (categories d). c_name y \<noteq> c_name r"
      "key_error d ''categories'' (category_col r) = None"
      "d' = d\<lparr>categories := categories d @ [r]\<rparr>" "i = c_id r"
  | (updated) x where "upsert_pre d r = None" "x \<in> set (categories d)" "c_name x = c_name r" "i = c_id x"
      "has_key_on d ''categories'' ''slug'' \<Longrightarrow> \<forall>y \<in> set (categories d). c_slug y = c_slug r \<longrightarrow> c_id y = i"
      "d' = d\<lparr>categories := map (\<lambda>y. if c_id y = i then y\<lparr>c_slug := c_slug r\<rparr> else y) (categories d)\<rparr>"
proof -
  from assms have pre: "upsert_pre d r = None"
    by (simp add: upsert_unfold split: option.splits)
  show thesis
  proof (cases "filter (\<lambda>x. c_name x = c_name r) (categories d)")
    case Nil
    then have none: "\<forall>y \<in> set (categories d). c_name y \<noteq> c_name r" by (simp add: filter_empty_conv)
    from assms pre Nil have ins:
      "insert_row ''categories'' [''name'', ''slug''] (category_col r) (store_category r) d = Inr d'"
      and i: "i = c_id r"
      by (auto simp: upsert_unfold split: sum.splits)
    from ins have "d' = d\<lparr>categories := categories d @ [r]\<rparr>"
      by (auto dest: insert_row_Inr simp: store_category_def)
    moreover from ins have "key_error d ''categories'' (category_col r) = None"
      by (simp add: insert_row_def first_error_None_iff split: option.splits)
    ultimately show thesis using pre none i by (intro inserted) simp_all
  next
    case (Cons x xs)
    then have "x \<in> set (filter (\<lambda>x. c_name x = c_name r) (categories d))" by simp
    then have x: "x \<in> set (categories d)" "c_name x = c_name r" by simp_all
    from assms pre Cons have ok: "\<not> (has_key_on d ''categories'' ''slug'' \<and>
                   (\<exists>y \<in> set (categories d). c_id y \<noteq> c_id x \<and> c_slug y = c_slug r))"
      and i: "i = c_id x"
      and d': "d' = d\<lparr>categories := map (\<lambda>y. if c_id y = c_id x then y\<lparr>c_slug := c_slug r\<rparr> else y) (categories d)\<rparr>"
      by (auto simp: upsert_unfold split: if_splits)
    from ok i have "has_key_on d ''categories'' ''slug'' \<Longrightarrow>
        \<forall>y \<in> set (categories d). c_slug y = c_slug r \<longrightarrow> c_id y = i" by blast
    with pre x i show thesis using d' by (intro updated [of x]) simp_all
  qed
qed

lemma distinct_key_inj:
  assumes "distinct (map k xs)" "x \<in> set xs" "y \<in> set xs" "k x = k y"
  shows "x = y"
  using assms by (meson distinct_map inj_onD)

lemma upsert_same_schema:
  assumes "upsert_category_set_slug r d = Inr (d', i)"
  shows "same_schema d d'" and "has_key_on d' ''categories'' c = has_key_on d ''categories'' c"
  using assms by (cases rule: upsert_cases; simp add: same_schema_def has_key_on_def table_constraints_def)+

lemma map_ext_upd:
  assumes "\<And>y. k (f y) = k y"
  shows "map k (map (\<lambda>y. if p y then f y else y) xs) = map k xs"
  using assms by (induction xs) simp_all

lemma upsert_keyed:
  assumes run: "upsert_category_set_slug r d = Inr (d', i)" and inv: "keyed_categories d"
  shows "keyed_categories d'"
  using run
proof (cases rule: upsert_cases)
  case inserted
  from inv have "has_key_on d ''categories'' ''id''" by (simp add: keyed_categories_def)
  from key_error_fresh_id [OF inserted(3) this] have "c_id r \<notin> c_id ` set (categories d)" .
  moreover from inserted(2) have "c_name r \<notin> c_name ` set (categories d)" by auto
  ultimately show ?thesis using inv inserted(4)
    by (simp add: keyed_categories_def has_key_on_def table_constraints_def)
next
  case (updated x)
  let ?cs = "map (\<lambda>y. if c_id y = i then y\<lparr>c_slug := c_slug r\<rparr> else y) (categories d)"
  have ids: "map c_id ?cs = map c_id (categories d)" by (rule map_ext_upd) simp
  have names: "map c_name ?cs = map c_name (categories d)" by (rule map_ext_upd) simp
  from inv have "distinct (map c_id ?cs)" "distinct (map c_name ?cs)"
    unfolding ids names by (simp_all add: keyed_categories_def)
  moreover have "has_key_on d' ''categories'' ''id'' = has_key_on d ''categories'' ''id''"
    by (rule upsert_same_schema(2) [OF run])
  ultimately show ?thesis using inv by (simp add: keyed_categories_def updated(6))
qed

lemma settledI:
  assumes "y \<in> set (categories d)" and "c_name y = n"
    and "\<And>y. y \<in> set (categories d) \<Longrightarrow> c_name y = n \<Longrightarrow> c_id y = i"
    and "\<And>y. y \<in> set (categories d) \<Longrightarrow> c_id y = i \<Longrightarrow> c_slug y = s"
    and "\<And>y. has_key_on d ''categories'' ''slug'' \<Longrightarrow> y \<in> set (categories d) \<Longrightarrow> c_slug y = s \<Longrightarrow> c_id y = i"
  shows "settled d n s i"
  unfolding settled_def using assms by blast

lemma settledD:
  assumes "settled d n s i"
  shows "\<exists>y \<in> set (categories d). c_name y = n"
    and "\<And>y. y \<in> set (categories d) \<Longrightarrow> c_name y = n \<Longrightarrow> c_id y = i"
    and "\<And>y. y \<in> set (categories d) \<Longrightarrow> c_id y = i \<Longrightarrow> c_slug y = s"
    and "\<And>y. has_key_on d ''categories'' ''slug'' \<Longrightarrow> y \<in> set (categories d) \<Longrightarrow> c_slug y = s \<Longrightarrow> c_id y = i"
  using assms unfolding settled_def by blast+

lemma set_slug_row:
  assumes "y' \<in> set (map (\<lambda>y. if c_id y = j then y\<lparr>c_slug := t\<rparr> else y) cs)"
  obtains y where "y \<in> set cs" "c_id y' = c_id y" "c_name y' = c_name y"
    "c_slug y' = (if c_id y = j then t else c_slug y)"
proof -
  from assms obtain y where y: "y \<in> set cs" "y' = (if c_id y = j then y\<lparr>c_slug := t\<rparr> else y)"
    by (auto simp: image_iff)
  show thesis
  proof (rule that [OF y(1)])
    show "c_id y' = c_id y" using y(2) by simp
    show "c_name y' = c_name y" using y(2) by simp
    show "c_slug y' = (if c_id y = j then t else c_slug y)" using y(2) by simp
  qed
qed

lemma upsert_settles:
  assumes run: "upsert_category_set_slug r d = Inr (d', i)" and inv: "keyed_categories d"
  shows "settled d' (c_name r) (c_slug r) i"
  using run
proof (cases rule: upsert_cases)
  case inserted
  have cs: "categories d' = categories d @ [r]" by (simp add: inserted(4))
  have k: "has_key_on d' ''categories'' ''slug'' = has_key_on d ''categories'' ''slug''"
    by (rule upsert_same_schema(2) [OF run])
  from inv have "has_key_on d ''categories'' ''id''" by (simp add: keyed_categories_def)
  from key_error_fresh_id [OF inserted(3) this]
  have id: "\<And>y. y \<in> set (categories d) \<Longrightarrow> c_id y \<noteq> c_id r" by (metis imageI)
  have slug: "\<And>y. has_key_on d ''categories'' ''slug'' \<Longrightarrow> y \<in> set (categories d) \<Longrightarrow> c_slug y \<noteq> c_slug r"
    using key_error_fresh_slug [OF inserted(3)] by (metis imageI)
  show ?thesis
  proof (rule settledI [of r])
    show "r \<in> set (categories d')" by (simp add: cs)
    show "c_name r = c_name r" ..
  next
    fix y assume "y \<in> set (categories d')" "c_name y = c_name r"
    with inserted(2) have "y = r" by (auto simp: cs)
    then show "c_id y = i" by (simp add: inserted(5))
  next
    fix y assume "y \<in> set (categories d')" "c_id y = i"
    with id inserted(5) have "y = r" by (auto simp: cs)
    then show "c_slug y = c_slug r" by simp
  next
    fix y assume "has_key_on d' ''categories'' ''slug''" "y \<in> set (categories d')" "c_slug y = c_slug r"
    with slug k have "y = r" by (auto simp: cs)
    then show "c_id y = i" by (simp add: inserted(5))
  qed
next
  case (updated x)
  let ?f = "\<lambda>y. if c_id y = i then y\<lparr>c_slug := c_slug r\<rparr> else y"
  have cs: "categories d' = map ?f (categories d)" by (simp add: updated(6))
  have k: "has_key_on d' ''categories'' ''slug'' = has_key_on d ''categories'' ''slug''"
    by (rule upsert_same_schema(2) [OF run])
  from inv have dn: "distinct (map c_name (categories d))" by (simp add: keyed_categories_def)
  have only: "c_id y = i" if "y \<in> set (categories d)" "c_name y = c_name r" for y
  proof -
    from that updated(2,3) have "y = x" by (intro distinct_key_inj [OF dn]) simp_all
    with updated(4) show ?thesis by simp
  qed
  show ?thesis
  proof (rule settledI [of "?f x"])
    show "?f x \<in> set (categories d')" unfolding cs set_map using updated(2) by (rule imageI)
    show "c_name (?f x) = c_name r" using updated(3) by simp
  next
    fix y' assume "y' \<in> set (categories d')" and n: "c_name y' = c_name r"
    then have "y' \<in> set (map ?f (categories d))" by (simp only: cs)
    then obtain y where y: "y \<in> set (categories d)" "c_id y' = c_id y" "c_name y' = c_name y"
      by (rule set_slug_row)
    from only [OF y(1)] n y(2,3) show "c_id y' = i" by simp
  next
    fix y' assume "y' \<in> set (categories d')" and i: "c_id y' = i"
    then have "y' \<in> set (map ?f (categories d))" by (simp only: cs)
    then obtain y where y: "y \<in> set (categories d)" "c_id y' = c_id y"
      "c_slug y' = (if c_id y = i then c_slug r else c_slug y)"
      by (rule set_slug_row)
    from y(2,3) i show "c_slug y' = c_slug r" by simp
  next
    fix y' assume key: "has_key_on d' ''categories'' ''slug''" and "y' \<in> set (categories d')"
      and sl: "c_slug y' = c_slug r"
    then have "y' \<in> set (map ?f (categories d))" by (simp only: cs)
    then obtain y where y: "y \<in> set (categories d)" "c_id y' = c_id y"
      "c_slug y' = (if c_id y = i then c_slug r else c_slug y)"
      by (rule set_slug_row)
    show "c_id y' = i"
    proof (cases "c_id y = i")
      case True
      with y(2) show ?thesis by simp
    next
      case False
      with y(3) sl have "c_slug y = c_slug r" by simp
      with updated(5) key k y(1) have "c_id y = i" by blast
      with False show ?thesis by simp
    qed
  qed
qed

lemma upsert_preserves_settled:
  assumes run: "upsert_category_set_slug r d = Inr (d', j)" and inv: "keyed_categories d"
    and s: "settled d n s i" and n: "c_name r \<noteq> n" and sl: "c_slug r \<noteq> s"
  shows "settled d' n s i"
  using run
proof (cases rule: upsert_cases)
  case inserted
  have cs: "categories d' = categories d @ [r]" by (simp add: inserted(4))
  have k: "has_key_on d' ''categories'' ''slug'' = has_key_on d ''categories'' ''slug''"
    by (rule upsert_same_schema(2) [OF run])
  from inv have "has_key_on d ''categories'' ''id''" by (simp add: keyed_categories_def)
  from key_error_fresh_id [OF inserted(3) this]
  have id: "\<And>y. y \<in> set (categories d) \<Longrightarrow> c_id y \<noteq> c_id r" by (metis imageI)
  from settledD(1) [OF s] obtain x where x: "x \<in> set (categories d)" "c_name x = n" by blast
  from settledD(2) [OF s x] have xi: "c_id x = i" .
  from id [OF x(1)] xi have ri: "c_id r \<noteq> i" by simp
  show ?thesis
  proof (rule settledI [of x])
    show "x \<in> set (categories d')" using x(1) by (simp add: cs)
    show "c_name x = n" by (rule x(2))
  next
    fix y assume "y \<in> set (categories d')" and yn: "c_name y = n"
    with n have "y \<in> set (categories d)" by (auto simp: cs)
    then show "c_id y = i" using yn by (rule settledD(2) [OF s])
  next
    fix y assume "y \<in> set (categories d')" and yi: "c_id y = i"
    with ri have "y \<in> set (categories d)" by (auto simp: cs)
    then show "c_slug y = s" using yi by (rule settledD(3) [OF s])
  next
    fix y assume key: "has_key_on d' ''categories'' ''slug''" and "y \<in> set (categories d')"
      and ys: "c_slug y = s"
    with sl have "y \<in> set (categories d)" by (auto simp: cs)
    with key k ys show "c_id y = i" by (intro settledD(4) [OF s]) simp_all
  qed
next
  case (updated x)
  let ?f = "\<lambda>y. if c_id y = j then y\<lparr>c_slug := c_slug r\<rparr> else y"
  have cs: "categories d' = map ?f (categories d)" by (simp add: updated(6))
  have k: "has_key_on d' ''categories'' ''slug'' = has_key_on d ''categories'' ''slug''"
    by (rule upsert_same_schema(2) [OF run])
  from inv have di: "distinct (map c_id (categories d))" by (simp add: keyed_categories_def)
  from settledD(1) [OF s] obtain z where z: "z \<in> set (categories d)" "c_name z = n" by blast
  from settledD(2) [OF s z] have zi: "c_id z = i" .
  have ji: "j \<noteq> i"
  proof
    assume "j = i"
    with updated(4) zi have "c_id x = c_id z" by simp
    with updated(2) z(1) have "x = z" by (intro distinct_key_inj [OF di]) simp_all
    with updated(3) z(2) n show False by simp
  qed
  show ?thesis
  proof (rule settledI [of "?f z"])
    show "?f z \<in> set (categories d')" unfolding cs set_map using z(1) by (rule imageI)
    show "c_name (?f z) = n" using z(2) by simp
  next
    fix y' assume "y' \<in> set (categories d')" and yn: "c_name y' = n"
    then have "y' \<in> set (map ?f (categories d))" by (simp only: cs)
    then obtain y where y: "y \<in> set (categories d)" "c_id y' = c_id y" "c_name y' = c_name y"
      by (rule set_slug_row)
    from yn y(3) have "c_name y = n" by simp
    from settledD(2) [OF s y(1) this] y(2) show "c_id y' = i" by simp
  next
    fix y' assume "y' \<in> set (categories d')" and yi: "c_id y' = i"
    then have "y' \<in> set (map ?f (categories d))" by (simp only: cs)
    then obtain y where y: "y \<in> set (categories d)" "c_id y' = c_id y"
      "c_slug y' = (if c_id y = j then c_slug r else c_slug y)"
      by (rule set_slug_row)
    from yi y(2) have a: "c_id y = i" by simp
    with ji y(3) have "c_slug y' = c_slug y" by simp
    with settledD(3) [OF s y(1) a] show "c_slug y' = s" by simp
  next
    fix y' assume key: "has_key_on d' ''categories'' ''slug''" and "y' \<in> set (categories d')"
      and ys: "c_slug y' = s"
    then have "y' \<in> set (map ?f (categories d))" by (simp only: cs)
    then obtain y where y: "y \<in> set (categories d)" "c_id y' = c_id y"
      "c_slug y' = (if c_id y = j then c_slug r else c_slug y)"
      by (rule set_slug_row)
    have "c_id y \<noteq> j"
    proof
      assume "c_id y = j"
      with y(3) ys sl show False by simp
    qed
    with y(3) ys have "c_slug y = s" by simp
    moreover from key k have "has_key_on d ''categories'' ''slug''" by simp
    ultimately have "c_id y = i" using y(1) by (intro settledD(4) [OF s])
    with y(2) show "c_id y' = i" by simp
  qed
qed

lemma upsert_again:
  assumes s: "settled e (c_name r) (c_slug r) i" and pre: "upsert_pre e r = None"
  shows "upsert_category_set_slug r e = Inr (e, i)"
proof -
  from settledD(1) [OF s] obtain y where y: "y \<in> set (categories e)" "c_name y = c_name r" by blast
  then have "y \<in> set (filter (\<lambda>x. c_name x = c_name r) (categories e))" by simp
  then have "filter (\<lambda>x. c_name x = c_name r) (categories e) \<noteq> []" by (metis empty_iff list.set(1))
  then obtain x xs where f: "filter (\<lambda>x. c_name x = c_name r) (categories e) = x # xs"
    by (cases "filter (\<lambda>x. c_name x = c_name r) (categories e)") simp_all
  then have "x \<in> set (filter (\<lambda>x. c_name x = c_name r) (categories e))" by simp
  then have x: "x \<in> set (categories e)" "c_name x = c_name r" by simp_all
  from settledD(2) [OF s x] have i: "c_id x = i" .
  have ok: "\<not> (has_key_on e ''categories'' ''slug'' \<and>
                   (\<exists>y \<in> set (categories e). c_id y \<noteq> i \<and> c_slug y = c_slug r))"
    using settledD(4) [OF s] by blast
  have "(if c_id y = i then y\<lparr>c_slug := c_slug r\<rparr> else y) = y" if "y \<in> set (categories e)" for y
    using settledD(3) [OF s that] by simp
  then have "map (\<lambda>y. if c_id y = i then y\<lparr>c_slug := c_slug r\<rparr> else y) (categories e) = categories e"
    by (rule map_idI)
  then have same: "e\<lparr>categories := map (\<lambda>y. if c_id y = i then y\<lparr>c_slug := c_slug r\<rparr> else y) (categories e)\<rparr> = e"
    by simp
  have "upsert_category_set_slug r e =
      (if has_key_on e ''categories'' ''slug'' \<and>
                   (\<exists>y \<in> set (categories e). c_id y \<noteq> c_id x \<and> c_slug y = c_slug r)
                then Inl (UniqueViolation ''categories_slug_key'')
                else Inr (e\<lparr>categories := map (\<lambda>y. if c_id y = c_id x then y\<lparr>c_slug := c_slug r\<rparr> else y)
                                              (categories e)\<rparr>, c_id x))"
    by (simp only: upsert_unfold pre f option.case list.case)
  also have "\<dots> = Inr (e, i)" unfolding i using ok same by (simp only: if_False)
  finally show ?thesis .
qed

lemma upsert_pre_None:
  assumes "upsert_category_set_slug r d = Inr (d', i)"
  shows "upsert_pre d r = None"
  using assms by (simp add: upsert_unfold split: option.splits)

lemma upsert_pre_later:
  assumes "upsert_category_set_slug r d0 = Inr (dx, i)" and "same_schema d0 d'"
    and "c_name r' = c_name r" and "c_slug r' = c_slug r"
  shows "upsert_pre d' r' = None"
  using upsert_pre_same [OF assms(2,3,4)] upsert_pre_None [OF assms(1)] by simp

lemma settled_one_row:
  assumes "settled d n s i" and "distinct (map c_id (categories d))" and "has_key_on d ''categories'' ''slug''"
  shows "length (filter (\<lambda>c. c_slug c = s) (categories d)) = 1"
proof -
  from assms(1) have ex: "\<exists>y \<in> set (categories d). c_name y = n"
    and nm: "\<forall>y \<in> set (categories d). c_name y = n \<longrightarrow> c_id y = i"
    and a: "\<forall>y \<in> set (categories d). c_id y = i \<longrightarrow> c_slug y = s"
    and b: "has_key_on d ''categories'' ''slug'' \<longrightarrow> (\<forall>y \<in> set (categories d). c_slug y = s \<longrightarrow> c_id y = i)"
    unfolding settled_def by blast+
  from a b assms(3) have "\<forall>y \<in> set (categories d). (c_slug y = s) = (c_id y = i)" by blast
  then have "filter (\<lambda>c. c_slug c = s) (categories d) = filter (\<lambda>c. c_id c = i) (categories d)"
    by (intro filter_cong refl) blast
  moreover from ex nm have "i \<in> c_id ` set (categories d)" by (metis imageI)
  then have "length (filter (\<lambda>c. c_id c = i) (categories d)) = 1"
    by (rule distinct_one_row [OF assms(2)])
  ultimately show ?thesis by (simp only:)
qed

lemma name_key_seed_categories_again:
  assumes run: "name_key_seed_categories gen d = Inr (d', ids)" and inv: "keyed_categories d"
  shows "name_key_seed_categories gen' d' = Inr (d', ids)"
    and "has_key_on d ''categories'' ''slug'' \<Longrightarrow>
         \<forall>s \<in> set [''tas'', ''dekorasi'', ''aksesori-rumah'', ''premium''].
           length (filter (\<lambda>c. c_slug c = s) (categories d')) = 1"
proof -
  let ?r1 = "\<lambda>g. \<lparr>c_id = g (0::nat), c_name = ''Tas'', c_slug = ''tas'', c_description = None\<rparr>"
  let ?r2 = "\<lambda>g. \<lparr>c_id = g (1::nat), c_name = ''Dekorasi'', c_slug = ''dekorasi'', c_description = None\<rparr>"
  let ?r3 = "\<lambda>g. \<lparr>c_id = g (2::nat), c_name = ''Aksesori Rumah'', c_slug = ''aksesori-rumah'', c_description = None\<rparr>"
  let ?r4 = "\<lambda>g. \<lparr>c_id = g (3::nat), c_name = ''Premium'', c_slug = ''premium'', c_description = None\<rparr>"
  from run obtain d1 d2 d3 i1 i2 i3 i4 where
    u1: "upsert_category_set_slug (?r1 gen) d = Inr (d1, i1)"
    and u2: "upsert_category_set_slug (?r2 gen) d1 = Inr (d2, i2)"
    and u3: "upsert_category_set_slug (?r3 gen) d2 = Inr (d3, i3)"
    and u4: "upsert_category_set_slug (?r4 gen) d3 = Inr (d', i4)"
    and ids: "ids = (i1, i2, i3, i4)"
    by (auto simp: name_key_seed_categories_def split: sum.splits prod.splits)
  have k1: "keyed_categories d1" by (rule upsert_keyed [OF u1 inv])
  have k2: "keyed_categories d2" by (rule upsert_keyed [OF u2 k1])
  have k3: "keyed_categories d3" by (rule upsert_keyed [OF u3 k2])
  have k4: "keyed_categories d'" by (rule upsert_keyed [OF u4 k3])
  have s34: "same_schema d3 d'" by (rule upsert_same_schema(1) [OF u4])
  have s24: "same_schema d2 d'" by (rule same_schema_trans [OF upsert_same_schema(1) [OF u3] s34])
  have s14: "same_schema d1 d'" by (rule same_schema_trans [OF upsert_same_schema(1) [OF u2] s24])
  have s04: "same_schema d d'" by (rule same_schema_trans [OF upsert_same_schema(1) [OF u1] s14])
  have p1: "upsert_pre d' (?r1 gen') = None" by (rule upsert_pre_later [OF u1 s04]) simp_all
  have p2: "upsert_pre d' (?r2 gen') = None" by (rule upsert_pre_later [OF u2 s14]) simp_all
  have p3: "upsert_pre d' (?r3 gen') = None" by (rule upsert_pre_later [OF u3 s24]) simp_all
  have p4: "upsert_pre d' (?r4 gen') = None" by (rule upsert_pre_later [OF u4 s34]) simp_all
  have "settled d1 ''Tas'' ''tas'' i1" using upsert_settles [OF u1 inv] by simp
  then have "settled d2 ''Tas'' ''tas'' i1" by (rule upsert_preserves_settled [OF u2 k1]) simp_all
  then have "settled d3 ''Tas'' ''tas'' i1" by (rule upsert_preserves_settled [OF u3 k2]) simp_all
  then have t1: "settled d' ''Tas'' ''tas'' i1" by (rule upsert_preserves_settled [OF u4 k3]) simp_all
  have "settled d2 ''Dekorasi'' ''dekorasi'' i2" using upsert_settles [OF u2 k1] by simp
  then have "settled d3 ''Dekorasi'' ''dekorasi'' i2" by (rule upsert_preserves_settled [OF u3 k2]) simp_all
  then have t2: "settled d' ''Dekorasi'' ''dekorasi'' i2" by (rule upsert_preserves_settled [OF u4 k3]) simp_all
  have "settled d3 ''Aksesori Rumah'' ''aksesori-rumah'' i3" using upsert_settles [OF u3 k2] by simp
  then have t3: "settled d' ''Aksesori Rumah'' ''aksesori-rumah'' i3"
    by (rule upsert_preserves_settled [OF u4 k3]) simp_all
  have t4: "settled d' ''Premium'' ''premium'' i4" using upsert_settles [OF u4 k3] by simp
  have a1: "upsert_category_set_slug (?r1 gen') d' = Inr (d', i1)" by (rule upsert_again [OF _ p1]) (simp add: t1)
  have a2: "upsert_category_set_slug (?r2 gen') d' = Inr (d', i2)" by (rule upsert_again [OF _ p2]) (simp add: t2)
  have a3: "upsert_category_set_slug (?r3 gen') d' = Inr (d', i3)" by (rule upsert_again [OF _ p3]) (simp add: t3)
  have a4: "upsert_category_set_slug (?r4 gen') d' = Inr (d', i4)" by (rule upsert_again [OF _ p4]) (simp add: t4)
  show "name_key_seed_categories gen' d' = Inr (d', ids)"
    by (simp only: name_key_seed_categories_def a1 a2 a3 a4 ids sum.case prod.case)
  assume "has_key_on d ''categories'' ''slug''"
  with s04 have key: "has_key_on d' ''categories'' ''slug''"
    by (simp add: same_schema_def has_key_on_def table_constraints_def)
  from k4 have di: "distinct (map c_id (categories d'))" by (simp add: keyed_categories_def)
  show "\<forall>s \<in> set [''tas'', ''dekorasi'', ''aksesori-rumah'', ''premium''].
           length (filter (\<lambda>c. c_slug c = s) (categories d')) = 1"
    using settled_one_row [OF t1 di key] settled_one_row [OF t2 di key]
      settled_one_row [OF t3 di key] settled_one_row [OF t4 di key] by simp
qed

lemma catalog_shop_name_key_seed_categories:
  "name_key_seed_categories (uuids_from 0) catalog_shop =
   Inr (catalog_shop\<lparr>categories := categories catalog_shop @
          [\<lparr>c_id = 0, c_name = ''Tas'', c_slug = ''tas'', c_description = None\<rparr>,
           \<lparr>c_id = 1, c_name = ''Dekorasi'', c_slug = ''dekorasi'', c_description = None\<rparr>,
           \<lparr>c_id = 2, c_name = ''Aksesori Rumah'', c_slug = ''aksesori-rumah'', c_description = None\<rparr>,
           \<lparr>c_id = 3, c_name = ''Premium'', c_slug = ''premium'', c_description = None\<rparr>]\<rparr>, 0, 1, 2, 3)"
  by code_simp

lemma catalog_shop_keyed: "keyed_categories catalog_shop" "has_key_on catalog_shop ''categories'' ''slug''"
  by (simp_all add: keyed_categories_def has_key_on_def catalog_shop_def table_constraints_def constraint_of_def)

lemma slug_keyed_category_seeds_rows:
  assumes "seed \<in> set slug_keyed_category_seeds"
  shows "\<exists>descs. seed = (\<lambda>g. insert_categories_on_conflict_do_nothing ''slug'' (seed_categories g descs))"
proof -
  have "m0002_seed_categories = (\<lambda>g. insert_categories_on_conflict_do_nothing ''slug'' (seed_categories g
          [Some ''Koleksi tas anyaman eceng gondok.'', Some ''Hiasan rumah yang natural dan estetik.'',
           Some ''Perlengkapan rumah fungsional.'', Some ''Koleksi eksklusif dengan kualitas terbaik.'']))"
    by (rule ext) (simp only: m0002_seed_categories_def)
  moreover have "m0006_seed_categories = (\<lambda>g. insert_categories_on_conflict_do_nothing ''slug'' (seed_categories g
          [Some ''Koleksi tas anyaman eceng gondok'', Some ''Hiasan dinding dan dekorasi rumah'',
           Some ''Aksesori fungsional untuk rumah'', Some ''Koleksi produk premium dan edisi terbatas'']))"
    by (rule ext) (simp only: m0006_seed_categories_def)
  moreover have "m0007_seed_categories = (\<lambda>g. insert_categories_on_conflict_do_nothing ''slug'' (seed_categories g
          [Some ''Koleksi tas anyaman eceng gondok.'', Some ''Hiasan rumah yang natural dan estetik.'',
           Some ''Perlengkapan rumah fungsional.'', Some ''Koleksi eksklusif dengan detail premium.'']))"
    by (rule ext) (simp only: m0007_seed_categories_def)
  moreover have "user_role_seed_categories = (\<lambda>g. insert_categories_on_conflict_do_nothing ''slug'' (seed_categories g
          [Some ''Koleksi tas anyaman tangan.'', Some ''Hiasan rumah yang estetik.'',
           Some ''Perlengkapan rumah fungsional.'', Some ''Koleksi eksklusif dan terbatas.'']))"
    by (rule ext) (simp only: user_role_seed_categories_def)
  moreover from assms have "seed = m0002_seed_categories \<or> seed = m0006_seed_categories \<or>
      seed = m0007_seed_categories \<or> seed = user_role_seed_categories"
    by (simp add: slug_keyed_category_seeds_def)
  ultimately show ?thesis by metis
qed

subsection \<open>The seed blocks that do not clear the table\<close>

text \<open>
  The seed blocks that insert with \<open>ON CONFLICT\<close> (migration 0007, the unique-name fix)
  or only into an empty table (migration 0002) delete nothing: after a run that
  succeeds, every category that was in the store is still there under its id, the
  products that were there are there unchanged, with the new ones after them, and no
  other table has changed.
\<close>

lemma on_conflict_seeds_keep_rows:
  assumes "m0007_seed gen d = Inr d' \<or> m0002_seed gen d = Inr d' \<or> name_key_seed gen d = Inr d'"
  shows "(\<exists>extra. map c_id (categories d') = map c_id (categories d) @ extra) \<and>
    (\<exists>ps. products d' = products d @ ps) \<and>
    auth_users d' = auth_users d \<and> profiles d' = profiles d \<and>
    orders d' = orders d \<and> order_items d' = order_items d"
proof -
  from assms consider "m0007_seed gen d = Inr d'" | "m0002_seed gen d = Inr d'" | "name_key_seed gen d = Inr d'"
    by blast
  then have "\<exists>cs extra ps. d' = d\<lparr>categories := cs, products := products d @ ps\<rparr> \<and>
     map c_id cs = map c_id (categories d) @ extra"
  proof cases
    case 1
    from m0007_seed_appends [OF 1] obtain cs ps
      where "d' = d\<lparr>categories := categories d @ cs, products := products d @ ps\<rparr>" by blast
    moreover have "map c_id (categories d @ cs) = map c_id (categories d) @ map c_id cs" by simp
    ultimately show ?thesis by blast
  next
    case 2
    from m0002_seed_appends [OF 2] obtain cs ps
      where "d' = d\<lparr>categories := categories d @ cs, products := products d @ ps\<rparr>" by blast
    moreover have "map c_id (categories d @ cs) = map c_id (categories d) @ map c_id cs" by simp
    ultimately show ?thesis by blast
  next
    case 3
    then show ?thesis by (rule name_key_seed_keeps_rows)
  qed
  then obtain cs extra ps where d': "d' = d\<lparr>categories := cs, products := products d @ ps\<rparr>"
    and ids: "map c_id cs = map c_id (categories d) @ extra" by blast
  have "categories d' = cs" "products d' = products d @ ps" "auth_users d' = auth_users d"
    "profiles d' = profiles d" "orders d' = orders d" "order_items d' = order_items d"
    by (subst d', simp)+
  with ids show ?thesis by simp
qed

section \<open>Theorems\<close>

text \<open>
  C10. For every signed-in profile whose role is none of \<open>admin\<close>, \<open>user\<close> and
  \<open>mitra\<close> (an unknown text, or no role at all), activating the dashboard button
  navigates to \<open>login.html\<close>: the unknown role is not treated as \<open>user\<close>.
\<close>

theorem unknown_role_routes_to_login:
  assumes "pv_role profile \<noteq> Some ''admin''"
    and "pv_role profile \<noteq> Some ''user''"
    and "pv_role profile \<noteq> Some ''mitra''"
  shows "href (loginBtn_onclick profile w) = ''login.html''"
  using assms by (simp add: loginBtn_onclick_def)

theorem unknown_role_routes_to_login_witness:
  "href (loginBtn_onclick \<lparr>pv_full_name = Some ''Budi'', pv_role = Some ''superuser''\<rparr>
      \<lparr>href = ''index.html''\<rparr>) = ''login.html''"
  using unknown_role_routes_to_login
    [of "\<lparr>pv_full_name = Some ''Budi'', pv_role = Some ''superuser''\<rparr>" "\<lparr>href = ''index.html''\<rparr>"]
  by simp

text \<open>
  C1. After migration 0009 has run (over a store whose earlier policies are of the forms the
  migrations before it create), a caller with a profile \<open>P\<close> reads an order if and only
  if the order's \<open>user_id\<close> is \<open>P\<close>'s id or \<open>P\<close>'s role is \<open>admin\<close>; every other read is
  denied.
\<close>

theorem order_read_owner_or_admin:
  assumes "run_script migration_0009 d0 = Inr d"
    and "earlier_policies_ok d0"
    and "distinct (map p_id (profiles d))"
    and "P \<in> set (profiles d)"
  shows "read_order d (Some (p_id P)) ord =
     (if o_user_id ord = Some (p_id P) \<or> p_role P = Some ''admin'' then Success else Forbidden)"
proof -
  have "order_visible d (Some (p_id P)) ord = Inr (owns (Some (p_id P)) ord \<or> is_admin d (Some (p_id P)))"
    by (rule order_visible_shape [OF migration_0009_shape [OF assms(1,2)] assms(3)])
  then show ?thesis
    using is_admin_profile [OF assms(3,4)]
    by (auto simp: read_order_def decide_def owns_def)
qed

theorem order_read_owner_or_admin_witness:
  "read_order shop_after_0009 (Some 1) shop_order = Success \<and>
   read_order shop_after_0009 (Some 2) shop_order = Success \<and>
   read_order shop_after_0009 (Some 3) shop_order = Forbidden"
proof -
  have pk: "distinct (map p_id (profiles shop_after_0009))"
    by (simp add: shop_after_0009_rows shop_profiles_def)
  have m: "\<lparr>p_id = 1, p_full_name = Some ''Customer User'', p_role = Some ''user''\<rparr> \<in> set (profiles shop_after_0009)"
    "\<lparr>p_id = 2, p_full_name = Some ''Administrator'', p_role = Some ''admin''\<rparr> \<in> set (profiles shop_after_0009)"
    "\<lparr>p_id = 3, p_full_name = Some ''Partner Mitra'', p_role = Some ''mitra''\<rparr> \<in> set (profiles shop_after_0009)"
    by (simp_all add: shop_after_0009_rows shop_profiles_def)
  show ?thesis
    using order_read_owner_or_admin [OF shop_run_0009 shop_earlier_policies_ok pk m(1), of shop_order]
      order_read_owner_or_admin [OF shop_run_0009 shop_earlier_policies_ok pk m(2), of shop_order]
      order_read_owner_or_admin [OF shop_run_0009 shop_earlier_policies_ok pk m(3), of shop_order]
    by (simp add: shop_order_def)
qed

text \<open>
  C2. In the same stores, for every caller (signed in or anonymous) and every order item
  whose \<open>order_id\<close> is the id of an order in the table, the read of the item has the
  outcome of the read of that order: both succeed or both are denied. The item's owner
  is found through the one lookup of the parent order's \<open>user_id\<close>; the admin policy is
  added to it.
\<close>

theorem order_item_read_as_parent_order:
  assumes "run_script migration_0009 d0 = Inr d"
    and "earlier_policies_ok d0"
    and "distinct (map p_id (profiles d))"
    and "distinct (map o_id (orders d))"
    and "ord \<in> set (orders d)"
    and "oi_order_id item = Some (o_id ord)"
  shows "read_order_item d uid item = read_order d uid ord \<and> read_order d uid ord \<in> {Success, Forbidden}"
proof -
  note shape = migration_0009_shape [OF assms(1,2)]
  have "order_visible d uid ord = Inr (owns uid ord \<or> is_admin d uid)"
    by (rule order_visible_shape [OF shape assms(3)])
  moreover have "order_item_visible d uid item = Inr (owns_parent d uid item \<or> is_admin d uid)"
    by (rule order_item_visible_shape [OF shape assms(3,4)])
  ultimately show ?thesis
    using owns_parent_order [OF assms(4,5,6), of uid]
    by (simp add: read_order_item_def read_order_def decide_def)
qed

theorem order_item_read_as_parent_order_witness:
  "read_order_item shop_after_0009 (Some 1) shop_item = Success \<and>
   read_order_item shop_after_0009 (Some 3) shop_item = Forbidden \<and>
   read_order_item shop_after_0009 None shop_item = Forbidden"
proof -
  have pk: "distinct (map p_id (profiles shop_after_0009))"
    by (simp add: shop_after_0009_rows shop_profiles_def)
  have ok: "distinct (map o_id (orders shop_after_0009))"
    by (simp add: shop_after_0009_rows)
  have m: "shop_order \<in> set (orders shop_after_0009)"
    by (simp add: shop_after_0009_rows)
  have i: "oi_order_id shop_item = Some (o_id shop_order)"
    by (simp add: shop_item_def shop_order_def)
  have r: "read_order shop_after_0009 (Some 1) shop_order = Success"
    "read_order shop_after_0009 (Some 3) shop_order = Forbidden"
    "read_order shop_after_0009 None shop_order = Forbidden"
    by (simp_all add: read_order_def decide_def order_visible_def rls_check_def select_policies_def
        shop_after_0009_def shop_def m0009_policies_def pol_def using_value_def admin_qual_def
        visible_profiles_def profile_visible_def exists_admin_profile_def shop_profiles_def
        shop_order_def is_true_def)
  note same = order_item_read_as_parent_order [OF shop_run_0009 shop_earlier_policies_ok pk ok m i]
  have "read_order_item shop_after_0009 (Some 1) shop_item = read_order shop_after_0009 (Some 1) shop_order"
    "read_order_item shop_after_0009 (Some 3) shop_item = read_order shop_after_0009 (Some 3) shop_order"
    "read_order_item shop_after_0009 None shop_item = read_order shop_after_0009 None shop_order"
    using same [of "Some 1"] same [of "Some 3"] same [of None] by blast+
  then show ?thesis by (simp only: r)
qed

text \<open>
  C3. The claim is that a caller reads a profile row only if it is the caller's own.
  Migration 0009 creates the own-row policy and, "to ensure a clean slate", drops
  policies by name first; the names it drops are those it creates, so the policy
  "Public profiles are viewable by everyone." of the earlier scripts (\<open>USING (true)\<close>)
  stays. Here the earlier schema fix runs on a new project, Alice and Budi sign up,
  migration 0009 runs, and Budi reads Alice's profile: the read succeeds.
\<close>

theorem profile_of_another_identity_is_readable:
  "read_profile_after
     (user_role_fix (uuids_from 10) @ [create_reviews, create_identity alice, create_identity budi]
        @ migration_0009)
     fresh_project (Some 2) \<lparr>p_id = 1, p_full_name = Some ''Alice'', p_role = Some ''user''\<rparr>
   = Success"
  by code_simp

text \<open>
  C4. The claim is that a second run of a schema script over the store the first run
  left raises no error. The schema fix with the bare \<open>CREATE POLICY\<close> statements runs
  on a new project without error (its tables are listed), and its second run stops at
  the first policy, which exists by then.
\<close>

theorem second_run_of_user_role_fix_fails:
  "map_sum id pg_class (run_script (user_role_fix (uuids_from 0)) fresh_project) =
     Inr [''auth.users'', ''profiles'', ''categories'', ''products'', ''orders'', ''order_items''] \<and>
   run_script (user_role_fix (uuids_from 0) @ user_role_fix (uuids_from 100)) fresh_project =
     Inl (DuplicateObject ''Public profiles are viewable by everyone.'')"
  by code_simp

text \<open>
  C9. The claim is that deleting a category empties the \<open>category_id\<close> of the products
  that referenced it. Migration 0002 creates \<open>products\<close> with the inline foreign key,
  which PostgreSQL names \<open>products_category_id_fkey\<close> and which is \<open>NO ACTION\<close>; the
  guards of the migrations 0006 and 0007 find a constraint of that name and add
  nothing. The first seeded product references the first seeded category, and deleting
  that category is refused.
\<close>

theorem delete_of_referenced_category_is_refused:
  "map_sum id (map pr_category_id \<circ> products)
     (run_script [m0002_create_categories, m0002_create_products, m0002_seed (uuids_from 0),
                  m0006_category_fk, m0007_category_fk] fresh_project) =
     Inr [Some 0, Some 2, Some 1, Some 2, Some 2, Some 3] \<and>
   run_script [m0002_create_categories, m0002_create_products, m0002_seed (uuids_from 0),
               m0006_category_fk, m0007_category_fk, delete_category 0] fresh_project =
     Inl (ForeignKeyViolation ''products_category_id_fkey'')"
  by code_simp

text \<open>
  C5. The claim is that a run of the seed step leaves every row that an operator
  entered in the store. The seed block of migration 0006 runs
  \<^verbatim>\<open>DELETE FROM public.products\<close> before it inserts its six products, whatever the
  table holds, although the header of the script promises a run "without deleting
  existing data". Here migration 0006 runs on a new project, an operator enters the
  product "Vas Bunga Besar", and migration 0006 runs again: the product is gone. The
  seed block of the script with the enum type deletes in the same way.
\<close>

theorem second_run_of_0006_deletes_operator_product:
  "map_sum id (map pr_name \<circ> products)
     (run_script (migration_0006 (uuids_from 0) @ [insert_products [operator_product]]) fresh_project) =
     Inr [''Tas Tote Premium'', ''Alas Meja Natural'', ''Hiasan Dinding Mandala'', ''Tempat Pensil Minimalis'',
          ''Keranjang Multifungsi'', ''Clutch Pesta Elegan'', ''Vas Bunga Besar''] \<and>
   map_sum id (map pr_name \<circ> products)
     (run_script (migration_0006 (uuids_from 0) @ [insert_products [operator_product]] @
                  migration_0006 (uuids_from 100)) fresh_project) =
     Inr [''Tas Tote Premium'', ''Alas Meja Natural'', ''Hiasan Dinding Mandala'', ''Tempat Pensil Minimalis'',
          ''Keranjang Multifungsi'', ''Clutch Pesta Elegan''] \<and>
   map_sum id (map pr_name \<circ> products)
     (run_script (user_role_fix (uuids_from 0) @ [insert_products [operator_product],
                  user_role_seed (uuids_from 100)]) fresh_project) =
     Inr [''Tas Tote Premium'', ''Alas Meja Natural'', ''Hiasan Dinding Mandala'', ''Tempat Pensil Minimalis'',
          ''Keranjang Multifungsi'', ''Clutch Pesta Elegan'']"
  by code_simp

text \<open>
  C6, as the claim states it, fails: an invalid requested role is not replaced by \<open>user\<close>.
  After the statements of migration 0007 that come before its seed block, an identity
  that asks for the role \<open>superuser\<close> gets a profile with the role \<open>superuser\<close>. After
  the script with the enum type \<open>user_role\<close>, the creation of that identity is refused
  with the error of the cast, and there is no profile at all.
\<close>

theorem invalid_role_is_not_replaced_by_user:
  "profiles_of eve
     (run_script (m0007_schema @ m0007_rls @ m0007_new_user_trigger @ [create_identity eve]) fresh_project) =
   Inr [\<lparr>p_id = 7, p_full_name = Some ''Eve'', p_role = Some ''superuser''\<rparr>] \<and>
   run_script (user_role_fix (uuids_from 100) @ [create_identity eve]) fresh_project =
   Inl (InvalidTextRepresentation ''superuser'')"
  by code_simp

text \<open>
  C6, amended. The identity is new, and every profile belongs to an identity, as the
  foreign key of \<open>profiles.id\<close> demands. With the table, the function and the trigger of
  migration 0007, the creation of an identity whose metadata names a role succeeds and
  creates, in the same statement, exactly one profile with the id of the identity; its
  role is the requested text as it was given, one of \<open>admin\<close>, \<open>user\<close>, \<open>mitra\<close> or not.
  With the table, the function and the trigger of the script with the enum type, the
  creation succeeds and creates exactly one such profile when the requested role is
  absent (the role is then \<open>user\<close>) or one of \<open>admin\<close>, \<open>user\<close>, \<open>mitra\<close> (the role is
  then the requested one); for any other text the creation of the identity is refused.
\<close>

theorem new_identity_gets_profile_with_requested_role:
  assumes "au_id new \<notin> au_id ` set (auth_users d)"
    and "p_id ` set (profiles d) \<subseteq> au_id ` set (auth_users d)"
  shows "(profiles_table_0007 d \<and> new_user_trigger_0007 d \<and> requested_role new = Some r \<longrightarrow>
            profiles_of new (create_identity new d) =
              Inr [\<lparr>p_id = au_id new, p_full_name = json_text (raw_user_meta_data new) ''full_name'',
                    p_role = Some r\<rparr>]) \<and>
         (profiles_table_user_role d \<and> new_user_trigger_user_role d \<longrightarrow>
            (case requested_role new of
               None \<Rightarrow>
                 profiles_of new (create_identity new d) =
                   Inr [\<lparr>p_id = au_id new, p_full_name = json_text (raw_user_meta_data new) ''full_name'',
                         p_role = Some ''user''\<rparr>]
             | Some s \<Rightarrow>
                 (if s \<in> set [''admin'', ''user'', ''mitra'']
                  then profiles_of new (create_identity new d) =
                         Inr [\<lparr>p_id = au_id new, p_full_name = json_text (raw_user_meta_data new) ''full_name'',
                               p_role = Some s\<rparr>]
                  else create_identity new d = Inl (InvalidTextRepresentation s))))"
proof (intro conjI impI)
  assume a: "profiles_table_0007 d \<and> new_user_trigger_0007 d \<and> requested_role new = Some r"
  then have "create_identity new d =
     Inr (d\<lparr>auth_users := auth_users d @ [new], profiles := profiles d @ [new_profile new (Some r)]\<rparr>)"
    using create_identity_text [OF _ _ assms, of ] by (simp add: requested_role_def)
  then show "profiles_of new (create_identity new d) =
              Inr [\<lparr>p_id = au_id new, p_full_name = json_text (raw_user_meta_data new) ''full_name'',
                    p_role = Some r\<rparr>]"
    using profiles_of_appended [OF assms, where v = "Some r"] by (simp add: new_profile_def)
next
  assume b: "profiles_table_user_role d \<and> new_user_trigger_user_role d"
  then have run: "create_identity new d =
     (case requested_role new of
        None \<Rightarrow> Inr (d\<lparr>auth_users := auth_users d @ [new],
                       profiles := profiles d @ [new_profile new (Some ''user'')]\<rparr>)
      | Some s \<Rightarrow>
          (if s \<in> set [''admin'', ''user'', ''mitra'']
           then Inr (d\<lparr>auth_users := auth_users d @ [new], profiles := profiles d @ [new_profile new (Some s)]\<rparr>)
           else Inl (InvalidTextRepresentation s)))"
    using create_identity_user_role [OF _ _ assms] by simp
  show "case requested_role new of
               None \<Rightarrow>
                 profiles_of new (create_identity new d) =
                   Inr [\<lparr>p_id = au_id new, p_full_name = json_text (raw_user_meta_data new) ''full_name'',
                         p_role = Some ''user''\<rparr>]
             | Some s \<Rightarrow>
                 (if s \<in> set [''admin'', ''user'', ''mitra'']
                  then profiles_of new (create_identity new d) =
                         Inr [\<lparr>p_id = au_id new, p_full_name = json_text (raw_user_meta_data new) ''full_name'',
                               p_role = Some s\<rparr>]
                  else create_identity new d = Inl (InvalidTextRepresentation s))"
  proof (cases "requested_role new")
    case None
    with run profiles_of_appended [OF assms, where v = "Some ''user''"] show ?thesis
      by (simp add: new_profile_def)
  next
    case (Some s)
    show ?thesis
    proof (cases "s \<in> set [''admin'', ''user'', ''mitra'']")
      case True
      with Some run have "create_identity new d =
          Inr (d\<lparr>auth_users := auth_users d @ [new], profiles := profiles d @ [new_profile new (Some s)]\<rparr>)"
        by simp
      with profiles_of_appended [OF assms, where v = "Some s"] True Some show ?thesis
        by (simp add: new_profile_def)
    next
      case False
      with Some run show ?thesis by simp
    qed
  qed
qed

theorem new_identity_gets_profile_with_requested_role_witness:
  "profiles_of alice (create_identity alice signup_store) =
     Inr [\<lparr>p_id = 1, p_full_name = Some ''Alice'', p_role = Some ''user''\<rparr>] \<and>
   profiles_of alice (create_identity alice signup_store_user_role) =
     Inr [\<lparr>p_id = 1, p_full_name = Some ''Alice'', p_role = Some ''user''\<rparr>] \<and>
   profiles_of nadia (create_identity nadia signup_store_user_role) =
     Inr [\<lparr>p_id = 3, p_full_name = Some ''Nadia'', p_role = Some ''user''\<rparr>] \<and>
   create_identity eve signup_store_user_role = Inl (InvalidTextRepresentation ''superuser'')"
  using new_identity_gets_profile_with_requested_role [of alice signup_store "''user''"]
    new_identity_gets_profile_with_requested_role [of alice signup_store_user_role]
    new_identity_gets_profile_with_requested_role [of nadia signup_store_user_role]
    new_identity_gets_profile_with_requested_role [of eve signup_store_user_role]
    signup_store_ok signup_store_user_role_ok
  by (simp add: alice_def nadia_def eve_def requested_role_def json_text_def
      signup_store_def signup_store_user_role_def fresh_project_def)

text \<open>
  C7. A category seed step is run twice, the second time with whatever ids it
  generates. For the steps keyed by slug (migrations 0002, 0006 and 0007 and the script
  with the enum type), on a store whose slugs are unique: a run that succeeds leaves a
  store on which a second run succeeds and changes nothing; the slugs are still unique,
  and each of the four seeded slugs is the slug of exactly one row. For the step keyed
  by name, which refreshes the slug on conflict (the unique-name fix), on a store whose
  ids and names are unique and whose slug is a key: a run that succeeds leaves a store
  on which a second run succeeds, changes nothing and returns the same ids, and each of
  the four seeded slugs is the slug of exactly one row.
\<close>

theorem category_seed_twice:
  "(seed \<in> set slug_keyed_category_seeds \<and> seed gen d = Inr d1 \<and> distinct (map c_slug (categories d)) \<longrightarrow>
      seed gen' d1 = Inr d1 \<and> distinct (map c_slug (categories d1)) \<and>
      (\<forall>s \<in> set [''tas'', ''dekorasi'', ''aksesori-rumah'', ''premium''].
         length (filter (\<lambda>c. c_slug c = s) (categories d1)) = 1)) \<and>
   (name_key_seed_categories gen e = Inr (e1, ids) \<and> keyed_categories e \<and>
    has_key_on e ''categories'' ''slug'' \<longrightarrow>
      name_key_seed_categories gen' e1 = Inr (e1, ids) \<and>
      (\<forall>s \<in> set [''tas'', ''dekorasi'', ''aksesori-rumah'', ''premium''].
         length (filter (\<lambda>c. c_slug c = s) (categories e1)) = 1))"
proof (intro conjI impI)
  assume a: "seed \<in> set slug_keyed_category_seeds \<and> seed gen d = Inr d1 \<and>
    distinct (map c_slug (categories d))"
  then have "seed \<in> set slug_keyed_category_seeds" by simp
  from slug_keyed_category_seeds_rows [OF this] obtain descs where
    "seed = (\<lambda>g. insert_categories_on_conflict_do_nothing ''slug'' (seed_categories g descs))" ..
  then have seed: "seed g = insert_categories_on_conflict_do_nothing ''slug'' (seed_categories g descs)" for g
    by simp
  from a have run: "insert_categories_on_conflict_do_nothing ''slug'' (seed_categories gen descs) d = Inr d1"
    by (simp add: seed)
  show again: "seed gen' d1 = Inr d1"
    unfolding seed by (rule slug_seed_again [OF run])
  from slug_seed_first(2) [OF run] a show dist: "distinct (map c_slug (categories d1))" by simp
  show "\<forall>s \<in> set [''tas'', ''dekorasi'', ''aksesori-rumah'', ''premium''].
       length (filter (\<lambda>c. c_slug c = s) (categories d1)) = 1"
  proof
    fix s assume "s \<in> set [''tas'', ''dekorasi'', ''aksesori-rumah'', ''premium'']"
    with slug_seed_first(3) [OF run] have "s \<in> c_slug ` set (categories d1)" by blast
    then show "length (filter (\<lambda>c. c_slug c = s) (categories d1)) = 1"
      by (rule distinct_one_row [OF dist])
  qed
next
  assume b: "name_key_seed_categories gen e = Inr (e1, ids) \<and> keyed_categories e \<and>
    has_key_on e ''categories'' ''slug''"
  then have run: "name_key_seed_categories gen e = Inr (e1, ids)" and inv: "keyed_categories e"
    and key: "has_key_on e ''categories'' ''slug''" by simp_all
  show "name_key_seed_categories gen' e1 = Inr (e1, ids)"
    by (rule name_key_seed_categories_again(1) [OF run inv])
  show "\<forall>s \<in> set [''tas'', ''dekorasi'', ''aksesori-rumah'', ''premium''].
         length (filter (\<lambda>c. c_slug c = s) (categories e1)) = 1"
    by (rule name_key_seed_categories_again(2) [OF run inv key])
qed

theorem category_seed_twice_witness:
  "m0007_seed_categories (uuids_from 100)
     (catalog_shop\<lparr>categories := categories catalog_shop @ seed_categories (uuids_from 0)
          [Some ''Koleksi tas anyaman eceng gondok.'', Some ''Hiasan rumah yang natural dan estetik.'',
           Some ''Perlengkapan rumah fungsional.'', Some ''Koleksi eksklusif dengan detail premium.'']\<rparr>) =
   Inr (catalog_shop\<lparr>categories := categories catalog_shop @ seed_categories (uuids_from 0)
          [Some ''Koleksi tas anyaman eceng gondok.'', Some ''Hiasan rumah yang natural dan estetik.'',
           Some ''Perlengkapan rumah fungsional.'', Some ''Koleksi eksklusif dengan detail premium.'']\<rparr>) \<and>
   name_key_seed_categories (uuids_from 100)
     (catalog_shop\<lparr>categories := categories catalog_shop @
          [\<lparr>c_id = 0, c_name = ''Tas'', c_slug = ''tas'', c_description = None\<rparr>,
           \<lparr>c_id = 1, c_name = ''Dekorasi'', c_slug = ''dekorasi'', c_description = None\<rparr>,
           \<lparr>c_id = 2, c_name = ''Aksesori Rumah'', c_slug = ''aksesori-rumah'', c_description = None\<rparr>,
           \<lparr>c_id = 3, c_name = ''Premium'', c_slug = ''premium'', c_description = None\<rparr>]\<rparr>) =
   Inr (catalog_shop\<lparr>categories := categories catalog_shop @
          [\<lparr>c_id = 0, c_name = ''Tas'', c_slug = ''tas'', c_description = None\<rparr>,
           \<lparr>c_id = 1, c_name = ''Dekorasi'', c_slug = ''dekorasi'', c_description = None\<rparr>,
           \<lparr>c_id = 2, c_name = ''Aksesori Rumah'', c_slug = ''aksesori-rumah'', c_description = None\<rparr>,
           \<lparr>c_id = 3, c_name = ''Premium'', c_slug = ''premium'', c_description = None\<rparr>]\<rparr>, 0, 1, 2, 3)"
proof -
  have m: "m0007_seed_categories \<in> set slug_keyed_category_seeds"
    by (simp add: slug_keyed_category_seeds_def)
  have s: "distinct (map c_slug (categories catalog_shop))" by (simp add: catalog_shop_def)
  note t = category_seed_twice [where seed = m0007_seed_categories and gen = "uuids_from 0"
      and d = catalog_shop and e = catalog_shop and gen' = "uuids_from 100"]
  from t m s catalog_shop_m0007_seed_categories catalog_shop_name_key_seed_categories catalog_shop_keyed
  show ?thesis by blast
qed



end
